theory Spec2Isabelle
  imports Main "HOL-Library.Word"
begin

section \<open>The asynchronous socket subsystem of lib/isc/unix/socket.c\<close>

text \<open>
  The embedding follows socket.c function by function. Kernel calls (recvmsg, sendmsg,
  connect, getsockopt) are inputs: each modelled function takes the value the kernel
  returned, or, for the draining loops, a stream of such values indexed by the number of
  calls made so far. Everything the code does to the outside (events handed to the task
  scheduler, pokes written to the control pipe, sockets released) is appended to a trace
  kept in the state. A failed INSIST or REQUIRE aborts the process and is the result
  \<open>Inl\<close>.

  Sockets and socket events live in two stores, addressed by pointers, because the code
  reaches them through several paths (a queue, the manager's table, an accept request).
  Every modelled function is the body that the source runs between LOCK and UNLOCK of the
  socket, so it is one atomic step. Left out: the mutexes themselves, the magic numbers
  (a socket of the model is a valid one), the bytes transferred and the addresses inside
  the iovec and message header, of which only the lengths matter here.
\<close>

subsection \<open>Result codes, errno values and flags\<close>

datatype isc_result =
    ISC_R_SUCCESS | ISC_R_NOMEMORY | ISC_R_NORESOURCES | ISC_R_NOPERM
  | ISC_R_ADDRINUSE | ISC_R_ADDRNOTAVAIL | ISC_R_BOUND | ISC_R_CONNREFUSED
  | ISC_R_NETUNREACH | ISC_R_HOSTUNREACH | ISC_R_TIMEDOUT | ISC_R_EOF
  | ISC_R_CANCELED | ISC_R_UNEXPECTED

text \<open>
  The errno values the code tests for, by name (their numbers come from the platform's
  headers). \<open>ENONE\<close> is errno 0; \<open>EOTHER n\<close> is any errno the code does not name.
\<close>

datatype errno =
    ENONE | EAGAIN | EWOULDBLOCK | EINTR | EINPROGRESS | ECONNREFUSED
  | ENETUNREACH | EHOSTUNREACH | ENOBUFS | ETIMEDOUT | EOTHER nat

definition SOFT_ERROR :: "errno \<Rightarrow> bool" where
  "SOFT_ERROR e = (e = EAGAIN \<or> e = EWOULDBLOCK \<or> e = EINTR \<or> e = ENONE)"

datatype fault = INSIST_failed | REQUIRE_failed | NULL_dereference

datatype isc_sockettype = isc_sockettype_udp | isc_sockettype_tcp

datatype doio = DOIO_SUCCESS | DOIO_SOFT | DOIO_HARD | DOIO_EOF | DOIO_UNEXPECTED

datatype eventtype =
    ISC_SOCKEVENT_RECVDONE | ISC_SOCKEVENT_SENDDONE
  | ISC_SOCKEVENT_RECVMARK | ISC_SOCKEVENT_SENDMARK

text \<open>
  The attribute word of an event is a bit mask; the model keeps the set of flags that are
  on, so \<open>attributes |= F\<close> is \<open>insert F\<close> and \<open>(attributes & F) == F\<close> is membership.
  The cancel mask \<open>how\<close> is treated the same way.
\<close>

datatype sockeventattr =
    ISC_SOCKEVENTATTR_ATTACHED | ISC_SOCKEVENTATTR_TRUNC | ISC_SOCKEVENTATTR_CTRUNC
  | ISC_SOCKEVENTATTR_PKTINFO | ISC_SOCKEVENTATTR_TIMESTAMP | ISC_SOCKEVENTATTR_FATALERROR

datatype sockcancel =
    ISC_SOCKCANCEL_RECV | ISC_SOCKCANCEL_SEND | ISC_SOCKCANCEL_ACCEPT | ISC_SOCKCANCEL_CONNECT

text \<open>Compile-time configuration that socket.c reads through the preprocessor.\<close>

record platform =
  ISC_NET_RECVOVERFLOW :: bool
  ISC_NET_BSD44MSGHDR :: bool
  ISC_PLATFORM_HAVEIPV6 :: bool
  SO_TIMESTAMP :: bool
  CMSG_MACROS :: bool
  ISC_SOCKET_MAXSCATTERGATHER :: nat
  FD_SETSIZE :: int

definition USE_CMSG :: "platform \<Rightarrow> bool" where
  "USE_CMSG P = ((ISC_PLATFORM_HAVEIPV6 P \<or> SO_TIMESTAMP P) \<and> CMSG_MACROS P)"

definition MAXSCATTERGATHER_SEND :: "platform \<Rightarrow> nat" where
  "MAXSCATTERGATHER_SEND P = ISC_SOCKET_MAXSCATTERGATHER P"

definition MAXSCATTERGATHER_RECV :: "platform \<Rightarrow> nat" where
  "MAXSCATTERGATHER_RECV P =
     (if ISC_NET_RECVOVERFLOW P then ISC_SOCKET_MAXSCATTERGATHER P + 1
      else ISC_SOCKET_MAXSCATTERGATHER P)"

subsection \<open>Data model\<close>

type_synonym sockptr = nat

type_synonym evptr = nat

type_synonym task = nat

text \<open>The sender field of an event is a pointer that holds a task or a socket.\<close>

datatype sender = Task task | Sock sockptr

record isc_sockaddr =
  sa :: nat
  sa_length :: nat

record isc_region =
  rg_base :: nat
  rg_length :: nat

record isc_buffer =
  b_length :: nat
  b_used :: nat

definition ISC_BUFFER_USEDCOUNT :: "isc_buffer \<Rightarrow> nat" where
  "ISC_BUFFER_USEDCOUNT b = b_used b"

definition ISC_BUFFER_AVAILABLECOUNT :: "isc_buffer \<Rightarrow> nat" where
  "ISC_BUFFER_AVAILABLECOUNT b = b_length b - b_used b"

definition isc_buffer_add :: "isc_buffer \<Rightarrow> nat \<Rightarrow> isc_buffer" where
  "isc_buffer_add b n = b\<lparr>b_used := b_used b + n\<rparr>"

record isc_socketevent =
  ev_type :: eventtype
  ev_sender :: sender
  ev_attributes :: "sockeventattr set"
  ev_result :: isc_result
  ev_minimum :: nat
  ev_n :: nat
  ev_offset :: nat
  ev_region :: isc_region
  ev_bufferlist :: "isc_buffer list"
  ev_address :: isc_sockaddr
  ev_timestamp :: "int \<times> int"
  ev_pktinfo :: nat

record isc_socket_connev =
  ce_sender :: sender
  ce_result :: isc_result

record isc_socket_newconnev =
  nc_sender :: sender
  nc_result :: isc_result
  nc_newsocket :: sockptr

record isc_socket =
  stype :: isc_sockettype
  references :: "32 word"
  fd :: int
  recv_result :: isc_result
  send_result :: isc_result
  send_list :: "evptr list"
  recv_list :: "evptr list"
  accept_list :: "isc_socket_newconnev list"
  connect_ev :: "isc_socket_connev option"
  address :: isc_sockaddr
  pending_recv :: bool
  pending_send :: bool
  pending_accept :: bool
  listener :: bool
  connected :: bool
  connecting :: bool

datatype fdstate_t = CLOSED | MANAGED | CLOSE_PENDING

record isc_socketmgr =
  nsockets :: "32 word"
  read_fds :: "int set"
  write_fds :: "int set"
  fds :: "int \<Rightarrow> sockptr option"
  fdstate :: "int \<Rightarrow> fdstate_t"
  maxfd :: int

text \<open>
  What a task receives: the event as it was when it was handed over, and whether the
  sender's reference to the task was dropped with it.
\<close>

datatype event =
    SocketEvent evptr isc_socketevent
  | ConnectEvent isc_socket_connev
  | NewConnEvent isc_socket_newconnev

datatype delivery = TaskSend sender event | TaskSendAndDetach sender event

record world =
  manager :: isc_socketmgr
  socks :: "sockptr \<Rightarrow> isc_socket"
  events :: "evptr \<Rightarrow> isc_socketevent"
  taskq :: "delivery list"
  pokes :: "int list"
  attached :: "task list"
  freed :: "sockptr list"
  closed_fds :: "int list"
  signalled :: nat
  recv_calls :: nat
  send_calls :: nat

definition upd_sock :: "sockptr \<Rightarrow> (isc_socket \<Rightarrow> isc_socket) \<Rightarrow> world \<Rightarrow> world" where
  "upd_sock s f w = w\<lparr>socks := (socks w)(s := f (socks w s))\<rparr>"

definition upd_event :: "evptr \<Rightarrow> (isc_socketevent \<Rightarrow> isc_socketevent) \<Rightarrow> world \<Rightarrow> world" where
  "upd_event d f w = w\<lparr>events := (events w)(d := f (events w d))\<rparr>"

definition select_poke :: "int \<Rightarrow> world \<Rightarrow> world" where
  "select_poke msg w = w\<lparr>pokes := pokes w @ [msg]\<rparr>"

definition isc_task_attach :: "task \<Rightarrow> world \<Rightarrow> world" where
  "isc_task_attach t w = w\<lparr>attached := attached w @ [t]\<rparr>"

definition isc_task_send :: "sender \<Rightarrow> event \<Rightarrow> world \<Rightarrow> world" where
  "isc_task_send t e w = w\<lparr>taskq := taskq w @ [TaskSend t e]\<rparr>"

definition isc_task_sendanddetach :: "sender \<Rightarrow> event \<Rightarrow> world \<Rightarrow> world" where
  "isc_task_sendanddetach t e w = w\<lparr>taskq := taskq w @ [TaskSendAndDetach t e]\<rparr>"

subsection \<open>Completion of a request\<close>

text \<open>
  An event's link is in use exactly while the event is on a queue; requests of the
  receive direction are only ever put on \<open>recv_list\<close>, those of the send direction on
  \<open>send_list\<close>.
\<close>

definition send_recvdone_event :: "sockptr \<Rightarrow> evptr \<Rightarrow> isc_result \<Rightarrow> world \<Rightarrow> world" where
  "send_recvdone_event s dev resultcode w =
     (let task = ev_sender (events w dev);
          w1 = upd_event dev (\<lambda>e. e\<lparr>ev_result := resultcode, ev_sender := Sock s\<rparr>) w;
          w2 = (if dev \<in> set (recv_list (socks w1 s))
                then upd_sock s (\<lambda>k. k\<lparr>recv_list := remove1 dev (recv_list k)\<rparr>) w1
                else w1);
          w3 = (if recv_result (socks w2 s) \<noteq> ISC_R_SUCCESS
                then upd_event dev
                       (\<lambda>e. e\<lparr>ev_attributes :=
                                 insert ISC_SOCKEVENTATTR_FATALERROR (ev_attributes e)\<rparr>) w2
                else w2)
      in if ISC_SOCKEVENTATTR_ATTACHED \<in> ev_attributes (events w3 dev)
         then isc_task_sendanddetach task (SocketEvent dev (events w3 dev)) w3
         else isc_task_send task (SocketEvent dev (events w3 dev)) w3)"

definition send_senddone_event :: "sockptr \<Rightarrow> evptr \<Rightarrow> isc_result \<Rightarrow> world \<Rightarrow> world" where
  "send_senddone_event s dev resultcode w =
     (let task = ev_sender (events w dev);
          w1 = upd_event dev (\<lambda>e. e\<lparr>ev_result := resultcode, ev_sender := Sock s\<rparr>) w;
          w2 = (if dev \<in> set (send_list (socks w1 s))
                then upd_sock s (\<lambda>k. k\<lparr>send_list := remove1 dev (send_list k)\<rparr>) w1
                else w1);
          w3 = (if send_result (socks w2 s) \<noteq> ISC_R_SUCCESS
                then upd_event dev
                       (\<lambda>e. e\<lparr>ev_attributes :=
                                 insert ISC_SOCKEVENTATTR_FATALERROR (ev_attributes e)\<rparr>) w2
                else w2)
      in if ISC_SOCKEVENTATTR_ATTACHED \<in> ev_attributes (events w3 dev)
         then isc_task_sendanddetach task (SocketEvent dev (events w3 dev)) w3
         else isc_task_send task (SocketEvent dev (events w3 dev)) w3)"

subsection \<open>Kernel results\<close>

text \<open>
  A control message as \<open>process_cmsg\<close> distinguishes them: level IPPROTO_IPV6 with type
  IPV6_PKTINFO, level SOL_SOCKET with type SCM_TIMESTAMP (seconds, microseconds), or
  anything else.
\<close>

datatype cmsg = CMSG_PKTINFO nat | CMSG_TIMESTAMP int int | CMSG_OTHER

text \<open>
  What recvmsg left behind: its return value, errno, the peer name and the name length it
  wrote into the message header, the MSG_TRUNC and MSG_CTRUNC flags and the control
  messages (none when \<open>msg_controllen\<close> is 0).
\<close>

record recvmsg_ret =
  r_cc :: int
  r_errno :: errno
  r_name :: nat
  r_namelen :: nat
  r_trunc :: bool
  r_ctrunc :: bool
  r_cmsgs :: "cmsg list"

record sendmsg_ret =
  s_cc :: int
  s_errno :: errno

subsection \<open>Building the message header\<close>

text \<open>
  The counters are natural numbers. \<open>dev->n\<close> never exceeds the size of the request
  (the kernel transfers at most what the iovec describes), so the unsigned subtractions
  of the source do not wrap on the states the code produces.
\<close>

fun iov_recv :: "nat \<Rightarrow> nat \<Rightarrow> nat \<Rightarrow> isc_buffer list \<Rightarrow> fault + (nat \<times> nat)" where
  "iov_recv maxiov iovcount read_count [] = Inr (iovcount, read_count)"
| "iov_recv maxiov iovcount read_count (b # bs) =
     (if \<not> iovcount < maxiov then Inl INSIST_failed
      else if ISC_BUFFER_AVAILABLECOUNT b > 0
           then iov_recv maxiov (iovcount + 1) (read_count + ISC_BUFFER_AVAILABLECOUNT b) bs
           else iov_recv maxiov iovcount read_count bs)"

definition build_msghdr_recv ::
    "platform \<Rightarrow> sockptr \<Rightarrow> evptr \<Rightarrow> nat \<Rightarrow> world \<Rightarrow> fault + (nat \<times> world)" where
  "build_msghdr_recv P s dev maxiov0 w =
     (let udp = (stype (socks w s) = isc_sockettype_udp);
          w1 = upd_event dev
                 (\<lambda>e. e\<lparr>ev_address := (if udp then \<lparr>sa = 0, sa_length = 0\<rparr>
                                         else address (socks w s))\<rparr>) w;
          maxiov = (if udp \<and> ISC_NET_RECVOVERFLOW P then maxiov0 - 1 else maxiov0);
          buffers = ev_bufferlist (events w1 dev)
      in if buffers = []
         then Inr (rg_length (ev_region (events w1 dev)) - ev_n (events w1 dev), w1)
         else (case iov_recv maxiov 0 0
                      (dropWhile (\<lambda>b. ISC_BUFFER_AVAILABLECOUNT b = 0) buffers) of
                 Inl f \<Rightarrow> Inl f
               | Inr (iovcount, read_count) \<Rightarrow> Inr (read_count, w1)))"

fun skip_send :: "nat \<Rightarrow> isc_buffer list \<Rightarrow> nat \<times> isc_buffer list" where
  "skip_send skip_count [] = (skip_count, [])"
| "skip_send skip_count (b # bs) =
     (if skip_count < ISC_BUFFER_USEDCOUNT b then (skip_count, b # bs)
      else skip_send (skip_count - ISC_BUFFER_USEDCOUNT b) bs)"

fun iov_send :: "nat \<Rightarrow> nat \<Rightarrow> nat \<Rightarrow> nat \<Rightarrow> isc_buffer list \<Rightarrow> fault + (nat \<times> nat)" where
  "iov_send maxiov iovcount write_count skip_count [] = Inr (write_count, skip_count)"
| "iov_send maxiov iovcount write_count skip_count (b # bs) =
     (if \<not> iovcount < maxiov then Inl INSIST_failed
      else if b_used b > 0
           then iov_send maxiov (iovcount + 1) (write_count + (b_used b - skip_count)) 0 bs
           else iov_send maxiov iovcount write_count skip_count bs)"

definition build_msghdr_send ::
    "platform \<Rightarrow> sockptr \<Rightarrow> evptr \<Rightarrow> nat \<Rightarrow> world \<Rightarrow> fault + (nat \<times> world)" where
  "build_msghdr_send P s dev maxiov w =
     (let buffers = ev_bufferlist (events w dev)
      in if buffers = []
         then Inr (rg_length (ev_region (events w dev)) - ev_n (events w dev), w)
         else (case skip_send (ev_n (events w dev)) buffers of
                 (skip_count, rest) \<Rightarrow>
                   (case iov_send maxiov 0 0 skip_count rest of
                      Inl f \<Rightarrow> Inl f
                    | Inr (write_count, skip_count') \<Rightarrow>
                        if skip_count' = 0 then Inr (write_count, w) else Inl INSIST_failed)))"

subsection \<open>Control messages\<close>

fun cmsg_loop :: "platform \<Rightarrow> cmsg list \<Rightarrow> isc_socketevent \<Rightarrow> isc_socketevent" where
  "cmsg_loop P [] e = e"
| "cmsg_loop P (c # cs) e =
     cmsg_loop P cs
       (case c of
          CMSG_PKTINFO pktinfo \<Rightarrow>
            if ISC_PLATFORM_HAVEIPV6 P
            then e\<lparr>ev_pktinfo := pktinfo,
                   ev_attributes := insert ISC_SOCKEVENTATTR_PKTINFO (ev_attributes e)\<rparr>
            else e
        | CMSG_TIMESTAMP tv_sec tv_usec \<Rightarrow>
            if SO_TIMESTAMP P
            then e\<lparr>ev_timestamp := (tv_sec, tv_usec * 1000),
                   ev_attributes := insert ISC_SOCKEVENTATTR_TIMESTAMP (ev_attributes e)\<rparr>
            else e
        | CMSG_OTHER \<Rightarrow> e)"

definition process_cmsg :: "platform \<Rightarrow> recvmsg_ret \<Rightarrow> isc_socketevent \<Rightarrow> isc_socketevent" where
  "process_cmsg P msg e =
     (if \<not> ISC_NET_BSD44MSGHDR P then e
      else let e1 = (if r_trunc msg
                     then e\<lparr>ev_attributes :=
                              insert ISC_SOCKEVENTATTR_TRUNC (ev_attributes e)\<rparr>
                     else e);
               e2 = (if r_ctrunc msg
                     then e1\<lparr>ev_attributes :=
                               insert ISC_SOCKEVENTATTR_CTRUNC (ev_attributes e1)\<rparr>
                     else e1)
           in if \<not> USE_CMSG P then e2
              else if r_cmsgs msg = [] then e2
              else cmsg_loop P (r_cmsgs msg) e2)"

subsection \<open>The I/O engine\<close>

text \<open>The macro SOFT_OR_HARD, once it has matched errno, in \<open>doio_recv\<close> and \<open>doio_send\<close>.\<close>

definition SOFT_OR_HARD_recv :: "sockptr \<Rightarrow> evptr \<Rightarrow> isc_result \<Rightarrow> world \<Rightarrow> doio \<times> world" where
  "SOFT_OR_HARD_recv s dev isc w =
     (if connected (socks w s)
      then (DOIO_HARD,
            send_recvdone_event s dev isc
              (if stype (socks w s) = isc_sockettype_tcp
               then upd_sock s (\<lambda>k. k\<lparr>recv_result := isc\<rparr>) w else w))
      else (DOIO_SOFT, w))"

definition SOFT_OR_HARD_send :: "sockptr \<Rightarrow> evptr \<Rightarrow> isc_result \<Rightarrow> world \<Rightarrow> doio \<times> world" where
  "SOFT_OR_HARD_send s dev isc w =
     (if connected (socks w s)
      then (DOIO_HARD,
            send_senddone_event s dev isc
              (if stype (socks w s) = isc_sockettype_tcp
               then upd_sock s (\<lambda>k. k\<lparr>send_result := isc\<rparr>) w else w))
      else (DOIO_SOFT, w))"

text \<open>The loop of \<open>doio_recv\<close> that advances the buffers of the request by the bytes read.\<close>

fun update_buffers :: "nat \<Rightarrow> isc_buffer list \<Rightarrow> fault + isc_buffer list" where
  "update_buffers actual_count [] = Inr []"
| "update_buffers actual_count (b # bs) =
     (if \<not> actual_count > 0 then Inr (b # bs)
      else if ISC_BUFFER_AVAILABLECOUNT b \<le> actual_count
      then (let actual_count' = actual_count - ISC_BUFFER_AVAILABLECOUNT b;
                b' = isc_buffer_add b (ISC_BUFFER_AVAILABLECOUNT b)
            in if bs = []
               then (if actual_count' = 0 then Inr [b'] else Inl INSIST_failed)
               else (case update_buffers actual_count' bs of
                       Inl f \<Rightarrow> Inl f
                     | Inr bs' \<Rightarrow> Inr (b' # bs')))
      else Inr (isc_buffer_add b actual_count # bs))"

definition doio_recv ::
    "platform \<Rightarrow> recvmsg_ret \<Rightarrow> sockptr \<Rightarrow> evptr \<Rightarrow> world \<Rightarrow> fault + (doio \<times> world)" where
  "doio_recv P msghdr s dev w =
     (case build_msghdr_recv P s dev (MAXSCATTERGATHER_RECV P) w of
        Inl f \<Rightarrow> Inl f
      | Inr (read_count, w0) \<Rightarrow>
          (let w1 = w0\<lparr>recv_calls := Suc (recv_calls w0)\<rparr>;
               cc = r_cc msghdr;
               errno = r_errno msghdr;
               udp = (stype (socks w1 s) = isc_sockettype_udp)
           in if cc < 0 then
                (if SOFT_ERROR errno then Inr (DOIO_SOFT, w1)
                 else if errno = ECONNREFUSED
                   then Inr (SOFT_OR_HARD_recv s dev ISC_R_CONNREFUSED w1)
                 else if errno = ENETUNREACH
                   then Inr (SOFT_OR_HARD_recv s dev ISC_R_NETUNREACH w1)
                 else if errno = EHOSTUNREACH
                   then Inr (SOFT_OR_HARD_recv s dev ISC_R_HOSTUNREACH w1)
                 else if errno = ENOBUFS
                   then Inr (DOIO_HARD, send_recvdone_event s dev ISC_R_NORESOURCES w1)
                 else Inr (DOIO_SUCCESS,
                           send_recvdone_event s dev ISC_R_UNEXPECTED
                             (upd_sock s (\<lambda>k. k\<lparr>recv_result := ISC_R_UNEXPECTED\<rparr>) w1)))
              else if stype (socks w1 s) = isc_sockettype_tcp \<and> cc = 0
                then Inr (DOIO_EOF, upd_sock s (\<lambda>k. k\<lparr>recv_result := ISC_R_EOF\<rparr>) w1)
              else
                (let w2 = (if udp
                           then upd_event dev
                                  (\<lambda>e. e\<lparr>ev_address :=
                                            \<lparr>sa = r_name msghdr, sa_length = r_namelen msghdr\<rparr>\<rparr>) w1
                           else w1);
                     overflow = (ISC_NET_RECVOVERFLOW P \<and> udp \<and> nat cc > read_count);
                     w3 = (if overflow
                           then upd_event dev
                                  (\<lambda>e. e\<lparr>ev_attributes :=
                                            insert ISC_SOCKEVENTATTR_TRUNC (ev_attributes e)\<rparr>) w2
                           else w2);
                     cc' = (if overflow then cc - 1 else cc);
                     w4 = (if udp then upd_event dev (process_cmsg P msghdr) w3 else w3);
                     w5 = upd_event dev (\<lambda>e. e\<lparr>ev_n := ev_n e + nat cc'\<rparr>) w4
                 in case update_buffers (nat cc') (ev_bufferlist (events w5 dev)) of
                      Inl f \<Rightarrow> Inl f
                    | Inr buffers \<Rightarrow>
                        (let w6 = upd_event dev (\<lambda>e. e\<lparr>ev_bufferlist := buffers\<rparr>) w5
                         in if nat cc' \<noteq> read_count
                               \<and> ev_n (events w6 dev) < ev_minimum (events w6 dev)
                            then Inr (DOIO_SOFT, w6)
                            else Inr (DOIO_SUCCESS,
                                      send_recvdone_event s dev ISC_R_SUCCESS w6)))))"

definition doio_send ::
    "platform \<Rightarrow> sendmsg_ret \<Rightarrow> sockptr \<Rightarrow> evptr \<Rightarrow> world \<Rightarrow> fault + (doio \<times> world)" where
  "doio_send P ret s dev w =
     (case build_msghdr_send P s dev (MAXSCATTERGATHER_SEND P) w of
        Inl f \<Rightarrow> Inl f
      | Inr (write_count, w0) \<Rightarrow>
          (let w1 = w0\<lparr>send_calls := Suc (send_calls w0)\<rparr>;
               cc = s_cc ret;
               errno = s_errno ret
           in if cc < 0 then
                (if SOFT_ERROR errno then Inr (DOIO_SOFT, w1)
                 else if errno = ECONNREFUSED
                   then Inr (SOFT_OR_HARD_send s dev ISC_R_CONNREFUSED w1)
                 else if errno = ENETUNREACH
                   then Inr (SOFT_OR_HARD_send s dev ISC_R_NETUNREACH w1)
                 else if errno = EHOSTUNREACH
                   then Inr (SOFT_OR_HARD_send s dev ISC_R_HOSTUNREACH w1)
                 else if errno = ENOBUFS
                   then Inr (DOIO_HARD, send_senddone_event s dev ISC_R_NORESOURCES w1)
                 else Inr (DOIO_HARD,
                           send_senddone_event s dev ISC_R_UNEXPECTED
                             (upd_sock s (\<lambda>k. k\<lparr>send_result := ISC_R_UNEXPECTED\<rparr>) w1)))
              else
                (let w2 = upd_event dev (\<lambda>e. e\<lparr>ev_n := ev_n e + nat cc\<rparr>) w1
                 in if nat cc \<noteq> write_count then Inr (DOIO_SOFT, w2)
                    else Inr (DOIO_SUCCESS, send_senddone_event s dev ISC_R_SUCCESS w2))))"

subsection \<open>Destruction\<close>

definition free_socket :: "sockptr \<Rightarrow> world \<Rightarrow> fault + world" where
  "free_socket s w =
     (let k = socks w s
      in if references k \<noteq> 0 then Inl INSIST_failed
         else if connecting k then Inl INSIST_failed
         else if pending_recv k then Inl INSIST_failed
         else if pending_send k then Inl INSIST_failed
         else if pending_accept k then Inl INSIST_failed
         else if recv_list k \<noteq> [] then Inl INSIST_failed
         else if send_list k \<noteq> [] then Inl INSIST_failed
         else if accept_list k \<noteq> [] then Inl INSIST_failed
         else Inr (w\<lparr>freed := freed w @ [s]\<rparr>))"

definition destroy :: "sockptr \<Rightarrow> world \<Rightarrow> fault + world" where
  "destroy s w =
     (let k = socks w s
      in if accept_list k \<noteq> [] then Inl INSIST_failed
         else if recv_list k \<noteq> [] then Inl INSIST_failed
         else if send_list k \<noteq> [] then Inl INSIST_failed
         else if connect_ev k \<noteq> None then Inl INSIST_failed
         else
           (let m = manager w;
                m1 = m\<lparr>fds := (fds m)(fd k := None),
                       fdstate := (fdstate m)(fd k := CLOSE_PENDING)\<rparr>;
                w1 = select_poke (fd k) (w\<lparr>manager := m1\<rparr>);
                w2 = w1\<lparr>manager := (manager w1)\<lparr>nsockets := nsockets (manager w1) - 1\<rparr>\<rparr>;
                w3 = (if nsockets (manager w2) = 0
                      then w2\<lparr>signalled := Suc (signalled w2)\<rparr> else w2)
            in free_socket s w3))"

subsection \<open>Draining the receive queue\<close>

text \<open>
  The do-while loop of \<open>internal_recv\<close> after an EOF: the current request is completed
  with EOF, then the head of the queue, until the queue is empty.
\<close>

function eof_cascade :: "sockptr \<Rightarrow> evptr \<Rightarrow> world \<Rightarrow> world" where
  "eof_cascade s dev w =
     (let w1 = send_recvdone_event s dev ISC_R_EOF w
      in case recv_list (socks w1 s) of
           [] \<Rightarrow> w1
         | dev' # _ \<Rightarrow> eof_cascade s dev' w1)"
  by pat_completeness auto
termination
proof (relation "measure (\<lambda>(s, dev, w). length (recv_list (socks w s))
                              + (if dev \<in> set (recv_list (socks w s)) then 0 else 1))",
       goal_cases)
  case 1
  show ?case by simp
next
  case (2 s dev w w1 dev' rest)
  have l: "recv_list (socks w1 s) = remove1 dev (recv_list (socks w s))"
    using 2(1)
    by (auto simp: send_recvdone_event_def Let_def isc_task_send_def isc_task_sendanddetach_def
          upd_sock_def upd_event_def remove1_idem)
  have "dev' \<in> set (recv_list (socks w1 s))" using 2(2) by simp
  moreover have "dev \<in> set (recv_list (socks w s)) \<Longrightarrow>
                   length (recv_list (socks w1 s)) < length (recv_list (socks w s))"
    unfolding l by (simp add: length_remove1) (cases "recv_list (socks w s)", auto)
  moreover have "dev \<notin> set (recv_list (socks w s)) \<Longrightarrow>
                   recv_list (socks w1 s) = recv_list (socks w s)"
    unfolding l by (simp add: remove1_idem)
  ultimately show ?case by auto
qed

text \<open>
  The while loop of \<open>internal_recv\<close>. \<open>K\<close> is what recvmsg returns, by the number
  of calls made before. The loop ends because every round that continues has unlinked the
  request at the head of the queue.
\<close>

function recv_drain ::
    "platform \<Rightarrow> (nat \<Rightarrow> recvmsg_ret) \<Rightarrow> sockptr \<Rightarrow> world \<Rightarrow> fault + world" where
  "recv_drain P K s w =
     (case recv_list (socks w s) of
        [] \<Rightarrow> Inr w
      | dev # _ \<Rightarrow>
          if ev_type (events w dev) = ISC_SOCKEVENT_RECVMARK
          then recv_drain P K s (send_recvdone_event s dev (recv_result (socks w s)) w)
          else if recv_result (socks w s) \<noteq> ISC_R_SUCCESS
          then recv_drain P K s (send_recvdone_event s dev (recv_result (socks w s)) w)
          else (case doio_recv P (K (recv_calls w)) s dev w of
                  Inl f \<Rightarrow> Inl f
                | Inr (out, w') \<Rightarrow>
                    if out = DOIO_SOFT then Inr w'
                    else if out = DOIO_EOF then Inr (eof_cascade s dev w')
                    else recv_drain P K s w'))"
  by pat_completeness auto
termination
proof -
  have unlink: "recv_list (socks (send_recvdone_event s dev rc w) s)
                  = remove1 dev (recv_list (socks w s))" for s dev rc w
    by (auto simp: send_recvdone_event_def Let_def isc_task_send_def isc_task_sendanddetach_def
          upd_sock_def upd_event_def remove1_idem)
  have dequeues: "recv_list (socks w' s) = remove1 dev (recv_list (socks w s))"
    if r: "doio_recv P msghdr s dev w = Inr (out, w')"
      and o: "out \<noteq> DOIO_SOFT" "out \<noteq> DOIO_EOF"
    for P msghdr s dev w out w'
  proof -
    obtain rc v where b: "build_msghdr_recv P s dev (MAXSCATTERGATHER_RECV P) w = Inr (rc, v)"
      using r by (auto simp: doio_recv_def split: sum.splits)
    have "socks v = socks w"
      using b by (auto simp: build_msghdr_recv_def Let_def upd_event_def
                   split: if_splits sum.splits)
    then show ?thesis
      using r o
      by (auto simp: doio_recv_def b Let_def SOFT_OR_HARD_recv_def unlink
            upd_sock_def upd_event_def split: if_splits sum.splits)
  qed
  show ?thesis
  proof (relation "measure (\<lambda>(P, K, s, w). length (recv_list (socks w s)))", goal_cases)
    case 1
    show ?case by simp
  next
    case (2 P K s w dev rest)
    then show ?case by (simp add: unlink)
  next
    case (3 P K s w dev rest)
    then show ?case by (simp add: unlink)
  next
    case 4
    then show ?case
      by (auto dest!: dequeues)
  qed
qed

text \<open>
  The handler of the internal readable event. Its first assertion, on the type of that
  event, concerns the socket's own \<open>readable_ev\<close> and is not modelled.
\<close>

definition internal_recv ::
    "platform \<Rightarrow> (nat \<Rightarrow> recvmsg_ret) \<Rightarrow> sockptr \<Rightarrow> world \<Rightarrow> fault + world" where
  "internal_recv P K s w =
     (if \<not> pending_recv (socks w s) then Inl INSIST_failed
      else let w1 = upd_sock s (\<lambda>k. k\<lparr>pending_recv := False\<rparr>) w
           in if \<not> references (socks w1 s) > 0 then Inl INSIST_failed
              else let w2 = upd_sock s (\<lambda>k. k\<lparr>references := references k - 1\<rparr>) w1
                   in if references (socks w2 s) = 0 then destroy s w2
                      else (case recv_drain P K s w2 of
                              Inl f \<Rightarrow> Inl f
                            | Inr w3 \<Rightarrow>
                                Inr (if recv_list (socks w3 s) \<noteq> []
                                     then select_poke (fd (socks w3 s)) w3 else w3)))"

subsection \<open>Posting a receive\<close>

text \<open>
  \<open>isc_event_allocate\<close> belongs to the task library: it returns a fresh event with its
  type and sender set and its attributes cleared, or NULL. The pointer it returns is the
  argument \<open>ev\<close>; the fields that \<open>allocate_socketevent\<close> does not assign keep
  whatever the memory held.
\<close>

definition allocate_socketevent :: "sockptr \<Rightarrow> eventtype \<Rightarrow> evptr \<Rightarrow> world \<Rightarrow> world" where
  "allocate_socketevent s eventtype ev w =
     upd_event ev
       (\<lambda>e. e\<lparr>ev_type := eventtype, ev_sender := Sock s, ev_attributes := {},
              ev_result := ISC_R_UNEXPECTED, ev_bufferlist := [],
              ev_region := (ev_region e)\<lparr>rg_base := 0\<rparr>, ev_n := 0, ev_offset := 0\<rparr>) w"

text \<open>The code at the label \<open>queue\<close> of \<open>isc_socket_recv\<close> and \<open>isc_socket_recvv\<close>.\<close>

definition recv_queue :: "sockptr \<Rightarrow> evptr \<Rightarrow> task \<Rightarrow> bool \<Rightarrow> world \<Rightarrow> world" where
  "recv_queue s dev task was_empty w =
     (let w1 = isc_task_attach task w;
          w2 = upd_event dev
                 (\<lambda>e. e\<lparr>ev_attributes :=
                           insert ISC_SOCKEVENTATTR_ATTACHED (ev_attributes e)\<rparr>) w1;
          w3 = upd_sock s (\<lambda>k. k\<lparr>recv_list := recv_list k @ [dev]\<rparr>) w2
      in if was_empty then select_poke (fd (socks w3 s)) w3 else w3)"

text \<open>What follows the set-up of the request in both functions.\<close>

definition recv_try ::
    "platform \<Rightarrow> recvmsg_ret \<Rightarrow> sockptr \<Rightarrow> evptr \<Rightarrow> task \<Rightarrow> world
      \<Rightarrow> fault + (isc_result \<times> world)" where
  "recv_try P msghdr s dev task w =
     (let was_empty = (recv_list (socks w s) = [])
      in if \<not> was_empty then Inr (ISC_R_SUCCESS, recv_queue s dev task was_empty w)
         else if recv_result (socks w s) \<noteq> ISC_R_SUCCESS
         then Inr (ISC_R_SUCCESS, send_recvdone_event s dev (recv_result (socks w s)) w)
         else (case doio_recv P msghdr s dev w of
                 Inl f \<Rightarrow> Inl f
               | Inr (out, w') \<Rightarrow>
                   if out = DOIO_SOFT
                   then Inr (ISC_R_SUCCESS, recv_queue s dev task was_empty w')
                   else if out = DOIO_EOF
                   then Inr (ISC_R_SUCCESS, send_recvdone_event s dev ISC_R_EOF w')
                   else Inr (ISC_R_SUCCESS, w')))"

definition isc_socket_recv ::
    "platform \<Rightarrow> recvmsg_ret \<Rightarrow> evptr option \<Rightarrow> sockptr \<Rightarrow> isc_region \<Rightarrow> nat \<Rightarrow> task
      \<Rightarrow> world \<Rightarrow> fault + (isc_result \<times> world)" where
  "isc_socket_recv P msghdr alloc s region minimum task w =
     (if \<not> rg_length region \<ge> minimum then Inl REQUIRE_failed
      else case alloc of
             None \<Rightarrow> Inr (ISC_R_NOMEMORY, w)
           | Some dev \<Rightarrow>
               (let w1 = allocate_socketevent s ISC_SOCKEVENT_RECVDONE dev w;
                    m = (if stype (socks w1 s) = isc_sockettype_udp then 1
                         else if minimum = 0 then rg_length region else minimum);
                    w2 = upd_event dev
                           (\<lambda>e. e\<lparr>ev_minimum := m, ev_result := ISC_R_SUCCESS, ev_n := 0,
                                  ev_region := region, ev_sender := Task task\<rparr>) w1
                in recv_try P msghdr s dev task w2))"

definition isc_bufferlist_availablecount :: "isc_buffer list \<Rightarrow> nat" where
  "isc_bufferlist_availablecount buflist = sum_list (map ISC_BUFFER_AVAILABLECOUNT buflist)"

definition isc_socket_recvv ::
    "platform \<Rightarrow> recvmsg_ret \<Rightarrow> evptr option \<Rightarrow> sockptr \<Rightarrow> isc_buffer list \<Rightarrow> nat \<Rightarrow> task
      \<Rightarrow> world \<Rightarrow> fault + (isc_result \<times> world)" where
  "isc_socket_recvv P msghdr alloc s buflist minimum task w =
     (let iocount = isc_bufferlist_availablecount buflist
      in if buflist = [] then Inl REQUIRE_failed
         else if \<not> iocount > 0 then Inl REQUIRE_failed
         else case alloc of
                None \<Rightarrow> Inr (ISC_R_NOMEMORY, w)
              | Some dev \<Rightarrow>
                  (let w1 = allocate_socketevent s ISC_SOCKEVENT_RECVDONE dev w;
                       m = (if stype (socks w1 s) = isc_sockettype_udp then 1
                            else if minimum = 0 then iocount else minimum);
                       w2 = upd_event dev
                              (\<lambda>e. e\<lparr>ev_minimum := m, ev_sender := Task task,
                                     ev_bufferlist := ev_bufferlist e @ buflist\<rparr>) w1
                   in recv_try P msghdr s dev task w2))"

subsection \<open>Connecting\<close>

record connect_ret =
  c_cc :: int
  c_errno :: errno

text \<open>getsockopt(SO_ERROR): its return value, errno, and the pending error it stored.\<close>

record getsockopt_ret =
  g_ret :: int
  g_errno :: errno
  g_so_error :: errno

text \<open>The code at the labels \<open>queue\<close> and \<open>err_exit\<close> of \<open>isc_socket_connect\<close>.\<close>

definition connect_queue :: "sockptr \<Rightarrow> isc_socket_connev \<Rightarrow> task \<Rightarrow> world \<Rightarrow> world" where
  "connect_queue s dev task w =
     (let w1 = isc_task_attach task w;
          w2 = upd_sock s (\<lambda>k. k\<lparr>connecting := True\<rparr>) w1;
          dev' = dev\<lparr>ce_sender := Task task\<rparr>;
          w3 = (if connect_ev (socks w2 s) = None then select_poke (fd (socks w2 s)) w2
                else w2)
      in upd_sock s (\<lambda>k. k\<lparr>connect_ev := Some dev'\<rparr>) w3)"

definition connect_err_exit :: "sockptr \<Rightarrow> isc_socket_connev \<Rightarrow> task \<Rightarrow> world \<Rightarrow> world" where
  "connect_err_exit s dev task w =
     isc_task_send (Task task) (ConnectEvent dev)
       (upd_sock s (\<lambda>k. k\<lparr>connected := False\<rparr>) w)"

text \<open>
  \<open>alloc\<close> is the connect event as \<open>isc_event_allocate\<close> returned it (its result field
  not yet assigned), or \<open>None\<close> when the allocation failed.
\<close>

definition isc_socket_connect ::
    "connect_ret \<Rightarrow> isc_socket_connev option \<Rightarrow> sockptr \<Rightarrow> isc_sockaddr \<Rightarrow> task \<Rightarrow> world
      \<Rightarrow> fault + (isc_result \<times> world)" where
  "isc_socket_connect ret alloc s addr task w =
     (if connecting (socks w s) then Inl REQUIRE_failed
      else case alloc of
             None \<Rightarrow> Inr (ISC_R_NOMEMORY, w)
           | Some dev0 \<Rightarrow>
               (let dev = dev0\<lparr>ce_sender := Sock s\<rparr>;
                    w1 = upd_sock s (\<lambda>k. k\<lparr>address := addr\<rparr>) w;
                    cc = c_cc ret;
                    errno = c_errno ret
                in if cc < 0 then
                     (if SOFT_ERROR errno \<or> errno = EINPROGRESS
                      then Inr (ISC_R_SUCCESS, connect_queue s dev task w1)
                      else if errno = ECONNREFUSED
                      then Inr (ISC_R_SUCCESS,
                                connect_err_exit s (dev\<lparr>ce_result := ISC_R_CONNREFUSED\<rparr>) task w1)
                      else if errno = ENETUNREACH
                      then Inr (ISC_R_SUCCESS,
                                connect_err_exit s (dev\<lparr>ce_result := ISC_R_NETUNREACH\<rparr>) task w1)
                      else Inr (ISC_R_UNEXPECTED, upd_sock s (\<lambda>k. k\<lparr>connected := False\<rparr>) w1))
                   else if cc = 0
                   then Inr (ISC_R_SUCCESS,
                             isc_task_send (Task task)
                               (ConnectEvent (dev\<lparr>ce_result := ISC_R_SUCCESS\<rparr>))
                               (upd_sock s (\<lambda>k. k\<lparr>connected := True\<rparr>) w1))
                   else Inr (ISC_R_SUCCESS, connect_queue s dev task w1)))"

definition internal_connect :: "getsockopt_ret \<Rightarrow> sockptr \<Rightarrow> world \<Rightarrow> fault + world" where
  "internal_connect so s w =
     (if \<not> references (socks w s) > 0 then Inl INSIST_failed
      else let w1 = upd_sock s (\<lambda>k. k\<lparr>references := references k - 1\<rparr>) w
           in if references (socks w1 s) = 0 then destroy s w1
              else case connect_ev (socks w1 s) of
                     None \<Rightarrow> if connecting (socks w1 s) then Inl INSIST_failed else Inr w1
                   | Some dev \<Rightarrow>
                       if \<not> connecting (socks w1 s) then Inl INSIST_failed
                       else
                         (let w2 = upd_sock s (\<lambda>k. k\<lparr>connecting := False\<rparr>) w1;
                              errno = (if g_ret so < 0 then g_errno so else g_so_error so)
                          in if errno \<noteq> ENONE \<and> (SOFT_ERROR errno \<or> errno = EINPROGRESS)
                             then Inr (select_poke (fd (socks w2 s))
                                         (upd_sock s (\<lambda>k. k\<lparr>connecting := True\<rparr>) w2))
                             else
                               (let result =
                                      (if errno \<noteq> ENONE
                                       then (case errno of
                                               ETIMEDOUT \<Rightarrow> ISC_R_TIMEDOUT
                                             | ECONNREFUSED \<Rightarrow> ISC_R_CONNREFUSED
                                             | ENETUNREACH \<Rightarrow> ISC_R_NETUNREACH
                                             | _ \<Rightarrow> ISC_R_UNEXPECTED)
                                       else ISC_R_SUCCESS);
                                    w3 = upd_sock s (\<lambda>k. k\<lparr>connect_ev := None\<rparr>) w2;
                                    task = ce_sender dev
                                in Inr (isc_task_sendanddetach task
                                          (ConnectEvent (dev\<lparr>ce_result := result,
                                                             ce_sender := Sock s\<rparr>)) w3))))"

subsection \<open>Cancelling\<close>

text \<open>The test \<open>task == NULL || task == current_task\<close>; the null task is \<open>None\<close>.\<close>

definition task_selected :: "task option \<Rightarrow> sender \<Rightarrow> bool" where
  "task_selected task current_task =
     (case task of None \<Rightarrow> True | Some t \<Rightarrow> Task t = current_task)"

text \<open>
  Each loop walks the queue as it was on entry: the successor of a request is read before
  the request is completed and unlinked.
\<close>

fun cancel_recv_loop :: "sockptr \<Rightarrow> task option \<Rightarrow> evptr list \<Rightarrow> world \<Rightarrow> world" where
  "cancel_recv_loop s task [] w = w"
| "cancel_recv_loop s task (dev # next) w =
     cancel_recv_loop s task next
       (if task_selected task (ev_sender (events w dev))
        then send_recvdone_event s dev ISC_R_CANCELED w else w)"

fun cancel_send_loop :: "sockptr \<Rightarrow> task option \<Rightarrow> evptr list \<Rightarrow> world \<Rightarrow> world" where
  "cancel_send_loop s task [] w = w"
| "cancel_send_loop s task (dev # next) w =
     cancel_send_loop s task next
       (if task_selected task (ev_sender (events w dev))
        then send_senddone_event s dev ISC_R_CANCELED w else w)"

fun cancel_accept_loop ::
    "sockptr \<Rightarrow> task option \<Rightarrow> isc_socket_newconnev list \<Rightarrow> world \<Rightarrow> fault + world" where
  "cancel_accept_loop s task [] w = Inr w"
| "cancel_accept_loop s task (dev # next) w =
     (if task_selected task (nc_sender dev)
      then (let w1 = upd_sock s (\<lambda>k. k\<lparr>accept_list := remove1 dev (accept_list k)\<rparr>) w;
                w2 = upd_sock (nc_newsocket dev)
                       (\<lambda>k. k\<lparr>references := references k - 1\<rparr>) w1
            in case free_socket (nc_newsocket dev) w2 of
                 Inl f \<Rightarrow> Inl f
               | Inr w3 \<Rightarrow>
                   cancel_accept_loop s task next
                     (isc_task_sendanddetach (nc_sender dev)
                        (NewConnEvent (dev\<lparr>nc_result := ISC_R_CANCELED,
                                            nc_sender := Sock s\<rparr>)) w3))
      else cancel_accept_loop s task next w)"

text \<open>
  The four blocks of \<open>isc_socket_cancel\<close>, each with its test of the mask, in the order
  of the source: recv, send, accept, connect.
\<close>

definition cancel_recv :: "sockptr \<Rightarrow> task option \<Rightarrow> sockcancel set \<Rightarrow> world \<Rightarrow> world" where
  "cancel_recv s task how w =
     (if ISC_SOCKCANCEL_RECV \<in> how \<and> recv_list (socks w s) \<noteq> []
      then cancel_recv_loop s task (recv_list (socks w s)) w else w)"

definition cancel_send :: "sockptr \<Rightarrow> task option \<Rightarrow> sockcancel set \<Rightarrow> world \<Rightarrow> world" where
  "cancel_send s task how w =
     (if ISC_SOCKCANCEL_SEND \<in> how \<and> send_list (socks w s) \<noteq> []
      then cancel_send_loop s task (send_list (socks w s)) w else w)"

definition cancel_accept ::
    "sockptr \<Rightarrow> task option \<Rightarrow> sockcancel set \<Rightarrow> world \<Rightarrow> fault + world" where
  "cancel_accept s task how w =
     (if ISC_SOCKCANCEL_ACCEPT \<in> how \<and> accept_list (socks w s) \<noteq> []
      then cancel_accept_loop s task (accept_list (socks w s)) w else Inr w)"

definition cancel_connect ::
    "sockptr \<Rightarrow> task option \<Rightarrow> sockcancel set \<Rightarrow> world \<Rightarrow> fault + world" where
  "cancel_connect s task how w =
     (if ISC_SOCKCANCEL_CONNECT \<in> how
      then (case connect_ev (socks w s) of
              None \<Rightarrow> Inr w
            | Some dev \<Rightarrow>
                if \<not> connecting (socks w s) then Inl INSIST_failed
                else (let w1 = upd_sock s (\<lambda>k. k\<lparr>connecting := False\<rparr>) w;
                          current_task = ce_sender dev
                      in if task_selected task current_task
                         then Inr (isc_task_sendanddetach current_task
                                     (ConnectEvent (dev\<lparr>ce_result := ISC_R_CANCELED,
                                                        ce_sender := Sock s\<rparr>))
                                     (upd_sock s (\<lambda>k. k\<lparr>connect_ev := None\<rparr>) w1))
                         else Inr w1))
      else Inr w)"

definition isc_socket_cancel ::
    "sockptr \<Rightarrow> task option \<Rightarrow> sockcancel set \<Rightarrow> world \<Rightarrow> fault + world" where
  "isc_socket_cancel s task how w =
     (if how = {} then Inr w
      else case cancel_accept s task how (cancel_send s task how (cancel_recv s task how w)) of
             Inl f \<Rightarrow> Inl f
           | Inr w3 \<Rightarrow>
               (case cancel_connect s task how w3 of
                  Inl f \<Rightarrow> Inl f
                | Inr w4 \<Rightarrow> Inr (select_poke (fd (socks w4 s)) w4)))"

subsection \<open>The watcher's handling of a poke\<close>


subsection \<open>Reading the trace\<close>

fun delivery_event :: "delivery \<Rightarrow> event" where
  "delivery_event (TaskSend t e) = e"
| "delivery_event (TaskSendAndDetach t e) = e"

fun delivery_task :: "delivery \<Rightarrow> sender" where
  "delivery_task (TaskSend t e) = t"
| "delivery_task (TaskSendAndDetach t e) = t"

fun event_result :: "event \<Rightarrow> isc_result" where
  "event_result (SocketEvent p e) = ev_result e"
| "event_result (ConnectEvent c) = ce_result c"
| "event_result (NewConnEvent n) = nc_result n"

fun event_ptr :: "event \<Rightarrow> evptr option" where
  "event_ptr (SocketEvent p e) = Some p"
| "event_ptr (ConnectEvent c) = None"
| "event_ptr (NewConnEvent n) = None"

fun event_attributes :: "event \<Rightarrow> sockeventattr set" where
  "event_attributes (SocketEvent p e) = ev_attributes e"
| "event_attributes (ConnectEvent c) = {}"
| "event_attributes (NewConnEvent n) = {}"

text \<open>The request \<open>dev\<close> as \<open>send_recvdone_event\<close> and \<open>send_senddone_event\<close> hand it over.\<close>

definition recvdone :: "sockptr \<Rightarrow> evptr \<Rightarrow> isc_result \<Rightarrow> world \<Rightarrow> isc_socketevent" where
  "recvdone s dev rc w =
     (events w dev)\<lparr>ev_result := rc, ev_sender := Sock s,
        ev_attributes :=
          (if recv_result (socks w s) \<noteq> ISC_R_SUCCESS
           then insert ISC_SOCKEVENTATTR_FATALERROR (ev_attributes (events w dev))
           else ev_attributes (events w dev))\<rparr>"

definition senddone :: "sockptr \<Rightarrow> evptr \<Rightarrow> isc_result \<Rightarrow> world \<Rightarrow> isc_socketevent" where
  "senddone s dev rc w =
     (events w dev)\<lparr>ev_result := rc, ev_sender := Sock s,
        ev_attributes :=
          (if send_result (socks w s) \<noteq> ISC_R_SUCCESS
           then insert ISC_SOCKEVENTATTR_FATALERROR (ev_attributes (events w dev))
           else ev_attributes (events w dev))\<rparr>"

definition task_send_mode :: "isc_socketevent \<Rightarrow> sender \<Rightarrow> event \<Rightarrow> delivery" where
  "task_send_mode e =
     (if ISC_SOCKEVENTATTR_ATTACHED \<in> ev_attributes e then TaskSendAndDetach else TaskSend)"

subsection \<open>Observations and predicates used in the statements\<close>

text \<open>
  An errno that is neither soft, nor one of ECONNREFUSED, ENETUNREACH, EHOSTUNREACH, nor
  ENOBUFS: the last branch of the error handling in \<open>doio_recv\<close> and \<open>doio_send\<close>.
\<close>

definition other_errno :: "errno \<Rightarrow> bool" where
  "other_errno e = (\<not> SOFT_ERROR e \<and> e \<noteq> ECONNREFUSED \<and> e \<noteq> ENETUNREACH
                     \<and> e \<noteq> EHOSTUNREACH \<and> e \<noteq> ENOBUFS)"

text \<open>
  What the tasks were sent, reduced to the request and the result code it carries.
\<close>

definition completions :: "delivery list \<Rightarrow> (evptr option \<times> isc_result) list" where
  "completions ds = map (\<lambda>d. (event_ptr (delivery_event d), event_result (delivery_event d))) ds"

text \<open>
  The outcome of one \<open>doio_recv\<close> or \<open>doio_send\<close> as the caller sees it: the DOIO
  code and the completions emitted by the call (\<open>None\<close> when an assertion failed).
\<close>

definition doio_report ::
    "world \<Rightarrow> fault + (doio \<times> world) \<Rightarrow> (doio \<times> (evptr option \<times> isc_result) list) option" where
  "doio_report w r =
     (case r of
        Inl f \<Rightarrow> None
      | Inr (out, w') \<Rightarrow> Some (out, completions (drop (length (taskq w)) (taskq w'))))"


text \<open>The invariant of the connect slot: \<open>connecting\<close> exactly when \<open>connect_ev\<close> is set.\<close>

definition connect_slot_ok :: "isc_socket \<Rightarrow> bool" where
  "connect_slot_ok k = (connecting k \<longleftrightarrow> connect_ev k \<noteq> None)"

text \<open>The pokes written so far, after a call that may have aborted.\<close>

definition pokes_after :: "fault + world \<Rightarrow> int list option" where
  "pokes_after r = (case r of Inl f \<Rightarrow> None | Inr w' \<Rightarrow> Some (pokes w'))"

text \<open>
  A socket skeleton as \<open>isc_socket_accept\<close> attaches it to an accept request: one
  reference, nothing pending, nothing queued. \<open>cancel_ready\<close> is what the assertions
  inside \<open>isc_socket_cancel\<close> expect of the socket: a queued connect is marked as
  connecting, and the accept requests carry distinct skeletons.
\<close>

definition nascent :: "isc_socket \<Rightarrow> bool" where
  "nascent k = (references k = 1 \<and> \<not> connecting k \<and> \<not> pending_recv k \<and> \<not> pending_send k
                 \<and> \<not> pending_accept k \<and> recv_list k = [] \<and> send_list k = []
                 \<and> accept_list k = [])"

definition accepts_ready :: "sockptr \<Rightarrow> isc_socket_newconnev list \<Rightarrow> world \<Rightarrow> bool" where
  "accepts_ready s xs w =
     (distinct (map nc_newsocket xs)
      \<and> (\<forall>dev \<in> set xs. nc_newsocket dev \<noteq> s \<and> nascent (socks w (nc_newsocket dev))))"

definition cancel_ready :: "sockptr \<Rightarrow> world \<Rightarrow> bool" where
  "cancel_ready s w =
     ((connect_ev (socks w s) \<noteq> None \<longrightarrow> connecting (socks w s))
      \<and> accepts_ready s (accept_list (socks w s)) w)"

subsection \<open>Example states\<close>

text \<open>
  A small concrete configuration used to instantiate the theorems below: one socket at
  address 0 with descriptor 5, requests from task 7 over a 16-byte region.
\<close>

definition ex_platform :: platform where
  "ex_platform = \<lparr>ISC_NET_RECVOVERFLOW = True, ISC_NET_BSD44MSGHDR = True,
     ISC_PLATFORM_HAVEIPV6 = True, SO_TIMESTAMP = True, CMSG_MACROS = True,
     ISC_SOCKET_MAXSCATTERGATHER = 8, FD_SETSIZE = 1024\<rparr>"

definition ex_event :: "eventtype \<Rightarrow> isc_socketevent" where
  "ex_event t = \<lparr>ev_type = t, ev_sender = Task 7, ev_attributes = {},
     ev_result = ISC_R_UNEXPECTED, ev_minimum = 1, ev_n = 0, ev_offset = 0,
     ev_region = \<lparr>rg_base = 100, rg_length = 16\<rparr>, ev_bufferlist = [],
     ev_address = \<lparr>sa = 0, sa_length = 0\<rparr>, ev_timestamp = (0, 0), ev_pktinfo = 0\<rparr>"

definition ex_sock :: "isc_sockettype \<Rightarrow> isc_socket" where
  "ex_sock t = \<lparr>stype = t, references = 1, fd = 5, recv_result = ISC_R_SUCCESS,
     send_result = ISC_R_SUCCESS, send_list = [], recv_list = [], accept_list = [],
     connect_ev = None, address = \<lparr>sa = 53, sa_length = 16\<rparr>, pending_recv = False,
     pending_send = False, pending_accept = False, listener = False, connected = False,
     connecting = False\<rparr>"

definition ex_manager :: isc_socketmgr where
  "ex_manager = \<lparr>nsockets = 1, read_fds = {3}, write_fds = {},
     fds = (\<lambda>i. if i = 5 then Some 0 else None),
     fdstate = (\<lambda>i. if i = 5 then MANAGED else CLOSED), maxfd = 5\<rparr>"

definition ex_world :: "isc_socket \<Rightarrow> isc_socketevent \<Rightarrow> world" where
  "ex_world k e = \<lparr>manager = ex_manager, socks = (\<lambda>_. k), events = (\<lambda>_. e), taskq = [],
     pokes = [], attached = [], freed = [], closed_fds = [], signalled = 0,
     recv_calls = 0, send_calls = 0\<rparr>"

definition ex_recvmsg :: "int \<Rightarrow> errno \<Rightarrow> recvmsg_ret" where
  "ex_recvmsg cc e = \<lparr>r_cc = cc, r_errno = e, r_name = 9, r_namelen = 16, r_trunc = False,
     r_ctrunc = False, r_cmsgs = []\<rparr>"

definition ex_sendmsg :: "int \<Rightarrow> errno \<Rightarrow> sendmsg_ret" where
  "ex_sendmsg cc e = \<lparr>s_cc = cc, s_errno = e\<rparr>"

text \<open>A stream socket that has seen end of file, with the requests \<open>q\<close> queued.\<close>

definition ex_sticky_world :: "evptr list \<Rightarrow> world" where
  "ex_sticky_world q =
     ex_world ((ex_sock isc_sockettype_tcp)\<lparr>recv_result := ISC_R_EOF, recv_list := q,
                 pending_recv := True, references := 2\<rparr>)
       (ex_event ISC_SOCKEVENT_RECVDONE)"

text \<open>A connected stream socket with three requests queued, the second one a marker.\<close>

definition ex_eof_world :: world where
  "ex_eof_world =
     (ex_world ((ex_sock isc_sockettype_tcp)\<lparr>recv_list := [1, 2, 3], pending_recv := True,
                  references := 2, connected := True\<rparr>)
        (ex_event ISC_SOCKEVENT_RECVDONE))
       \<lparr>events := (\<lambda>p. if p = 2 then ex_event ISC_SOCKEVENT_RECVMARK
                        else ex_event ISC_SOCKEVENT_RECVDONE)\<rparr>"

text \<open>
  A connected stream socket with four requests queued, the third one a marker, and a
  kernel whose recvmsg call number \<open>k\<close> (counted from 0) fails with an errno the code
  does not name, while every other call returns 16 bytes.
\<close>

definition ex_drain_world :: world where
  "ex_drain_world =
     (ex_world ((ex_sock isc_sockettype_tcp)\<lparr>recv_list := [1, 2, 3, 4], pending_recv := True,
                  references := 2, connected := True\<rparr>)
        (ex_event ISC_SOCKEVENT_RECVDONE))
       \<lparr>events := (\<lambda>p. if p = 3 then ex_event ISC_SOCKEVENT_RECVMARK
                        else ex_event ISC_SOCKEVENT_RECVDONE)\<rparr>"

definition ex_kernel :: "nat \<Rightarrow> nat \<Rightarrow> recvmsg_ret" where
  "ex_kernel k n = (if n = k then ex_recvmsg (- 1) (EOTHER 5) else ex_recvmsg 16 ENONE)"


text \<open>A datagram socket with the requests \<open>q\<close> queued.\<close>

definition ex_dgram_world :: "evptr list \<Rightarrow> world" where
  "ex_dgram_world q =
     ex_world ((ex_sock isc_sockettype_udp)\<lparr>recv_list := q\<rparr>) (ex_event ISC_SOCKEVENT_RECVDONE)"

text \<open>
  A stream socket with one request, and the states \<open>doio_recv\<close> and \<open>doio_send\<close> leave it in
  after an errno they do not name.
\<close>

definition ex_stream_world :: world where
  "ex_stream_world = ex_world (ex_sock isc_sockettype_tcp) (ex_event ISC_SOCKEVENT_RECVDONE)"

definition ex_after_unexpected_recv :: world where
  "ex_after_unexpected_recv =
     send_recvdone_event 0 0 ISC_R_UNEXPECTED
       (upd_sock 0 (\<lambda>k. k\<lparr>recv_result := ISC_R_UNEXPECTED\<rparr>)
          ((upd_event 0 (\<lambda>e. e\<lparr>ev_address := address (socks ex_stream_world 0)\<rparr>)
              ex_stream_world)\<lparr>recv_calls := 1\<rparr>))"

definition ex_after_unexpected_send :: world where
  "ex_after_unexpected_send =
     send_senddone_event 0 0 ISC_R_UNEXPECTED
       (upd_sock 0 (\<lambda>k. k\<lparr>send_result := ISC_R_UNEXPECTED\<rparr>)
          (ex_stream_world\<lparr>send_calls := 1\<rparr>))"

definition ex_connect :: "int \<Rightarrow> errno \<Rightarrow> connect_ret" where
  "ex_connect cc e = \<lparr>c_cc = cc, c_errno = e\<rparr>"

definition ex_connev :: isc_socket_connev where
  "ex_connev = \<lparr>ce_sender = Task 7, ce_result = ISC_R_UNEXPECTED\<rparr>"


text \<open>A stream socket whose connect, posted by task 7, is in progress.\<close>

definition ex_pending_connect_world :: world where
  "ex_pending_connect_world =
     ex_world ((ex_sock isc_sockettype_tcp)\<lparr>connecting := True,
                 connect_ev := Some \<lparr>ce_sender = Task 7, ce_result = ISC_R_UNEXPECTED\<rparr>,
                 references := 2\<rparr>)
       (ex_event ISC_SOCKEVENT_RECVDONE)"

text \<open>A listening socket with two recv requests and one accept request queued.\<close>

definition ex_listener_world :: world where
  "ex_listener_world =
     (ex_world ((ex_sock isc_sockettype_tcp)\<lparr>listener := True, recv_list := [1, 2],
                  accept_list := [\<lparr>nc_sender = Task 7, nc_result = ISC_R_UNEXPECTED,
                                   nc_newsocket = 9\<rparr>]\<rparr>)
        (ex_event ISC_SOCKEVENT_RECVDONE))
       \<lparr>socks := (\<lambda>p. if p = 9 then (ex_sock isc_sockettype_tcp)\<lparr>fd := -1\<rparr>
                       else (ex_sock isc_sockettype_tcp)\<lparr>listener := True, recv_list := [1, 2],
                              accept_list := [\<lparr>nc_sender = Task 7,
                                               nc_result = ISC_R_UNEXPECTED,
                                               nc_newsocket = 9\<rparr>]\<rparr>)\<rparr>"

section \<open>Properties\<close>

subsection \<open>Basic facts about the state\<close>

lemma upd_sock_simps [simp]:
  "socks (upd_sock s f w) = (socks w)(s := f (socks w s))"
  "events (upd_sock s f w) = events w"
  "taskq (upd_sock s f w) = taskq w"
  "pokes (upd_sock s f w) = pokes w"
  "manager (upd_sock s f w) = manager w"
  "attached (upd_sock s f w) = attached w"
  "freed (upd_sock s f w) = freed w"
  "recv_calls (upd_sock s f w) = recv_calls w"
  "send_calls (upd_sock s f w) = send_calls w"
  by (simp_all add: upd_sock_def)

lemma upd_event_simps [simp]:
  "socks (upd_event d f w) = socks w"
  "events (upd_event d f w) = (events w)(d := f (events w d))"
  "taskq (upd_event d f w) = taskq w"
  "pokes (upd_event d f w) = pokes w"
  "manager (upd_event d f w) = manager w"
  "attached (upd_event d f w) = attached w"
  "freed (upd_event d f w) = freed w"
  "recv_calls (upd_event d f w) = recv_calls w"
  "send_calls (upd_event d f w) = send_calls w"
  by (simp_all add: upd_event_def)

lemma select_poke_simps [simp]:
  "socks (select_poke m w) = socks w"
  "events (select_poke m w) = events w"
  "taskq (select_poke m w) = taskq w"
  "pokes (select_poke m w) = pokes w @ [m]"
  "manager (select_poke m w) = manager w"
  "recv_calls (select_poke m w) = recv_calls w"
  "send_calls (select_poke m w) = send_calls w"
  by (simp_all add: select_poke_def)

lemma isc_task_attach_simps [simp]:
  "socks (isc_task_attach t w) = socks w"
  "events (isc_task_attach t w) = events w"
  "taskq (isc_task_attach t w) = taskq w"
  "pokes (isc_task_attach t w) = pokes w"
  "manager (isc_task_attach t w) = manager w"
  "recv_calls (isc_task_attach t w) = recv_calls w"
  "send_calls (isc_task_attach t w) = send_calls w"
  by (simp_all add: isc_task_attach_def)

lemma send_recvdone_event_socks:
  "socks (send_recvdone_event s dev rc w) =
     (socks w)(s := (socks w s)\<lparr>recv_list := remove1 dev (recv_list (socks w s))\<rparr>)"
  by (auto simp: send_recvdone_event_def Let_def isc_task_send_def isc_task_sendanddetach_def
        upd_sock_def upd_event_def remove1_idem fun_eq_iff)

lemma send_recvdone_event_events:
  "events (send_recvdone_event s dev rc w) = (events w)(dev := recvdone s dev rc w)"
  by (auto simp: send_recvdone_event_def Let_def isc_task_send_def isc_task_sendanddetach_def
        recvdone_def fun_eq_iff)

lemma send_recvdone_event_taskq:
  "taskq (send_recvdone_event s dev rc w) =
     taskq w @ [task_send_mode (events w dev) (ev_sender (events w dev))
                  (SocketEvent dev (recvdone s dev rc w))]"
  by (auto simp: send_recvdone_event_def Let_def isc_task_send_def isc_task_sendanddetach_def
        recvdone_def task_send_mode_def)

lemma send_recvdone_event_misc [simp]:
  "pokes (send_recvdone_event s dev rc w) = pokes w"
  "recv_calls (send_recvdone_event s dev rc w) = recv_calls w"
  "send_calls (send_recvdone_event s dev rc w) = send_calls w"
  "manager (send_recvdone_event s dev rc w) = manager w"
  "attached (send_recvdone_event s dev rc w) = attached w"
  "freed (send_recvdone_event s dev rc w) = freed w"
  by (simp_all add: send_recvdone_event_def Let_def isc_task_send_def
        isc_task_sendanddetach_def)

lemma send_senddone_event_socks:
  "socks (send_senddone_event s dev rc w) =
     (socks w)(s := (socks w s)\<lparr>send_list := remove1 dev (send_list (socks w s))\<rparr>)"
  by (auto simp: send_senddone_event_def Let_def isc_task_send_def isc_task_sendanddetach_def
        remove1_idem fun_eq_iff)

lemma send_senddone_event_events:
  "events (send_senddone_event s dev rc w) = (events w)(dev := senddone s dev rc w)"
  by (auto simp: send_senddone_event_def Let_def isc_task_send_def isc_task_sendanddetach_def
        senddone_def fun_eq_iff)

lemma send_senddone_event_taskq:
  "taskq (send_senddone_event s dev rc w) =
     taskq w @ [task_send_mode (events w dev) (ev_sender (events w dev))
                  (SocketEvent dev (senddone s dev rc w))]"
  by (auto simp: send_senddone_event_def Let_def isc_task_send_def isc_task_sendanddetach_def
        senddone_def task_send_mode_def)

lemma send_senddone_event_misc [simp]:
  "pokes (send_senddone_event s dev rc w) = pokes w"
  "recv_calls (send_senddone_event s dev rc w) = recv_calls w"
  "send_calls (send_senddone_event s dev rc w) = send_calls w"
  "manager (send_senddone_event s dev rc w) = manager w"
  "attached (send_senddone_event s dev rc w) = attached w"
  "freed (send_senddone_event s dev rc w) = freed w"
  by (simp_all add: send_senddone_event_def Let_def isc_task_send_def
        isc_task_sendanddetach_def)

lemma delivery_of_mode [simp]:
  "delivery_event (task_send_mode e t ev) = ev"
  "delivery_task (task_send_mode e t ev) = t"
  by (simp_all add: task_send_mode_def)

lemma build_msghdr_recv_world:
  "build_msghdr_recv P s dev m w = Inr (rc, w0) \<Longrightarrow>
     socks w0 = socks w \<and> taskq w0 = taskq w \<and> pokes w0 = pokes w
     \<and> recv_calls w0 = recv_calls w \<and> send_calls w0 = send_calls w
     \<and> manager w0 = manager w
     \<and> events w0 = (events w)(dev := (events w dev)\<lparr>ev_address := ev_address (events w0 dev)\<rparr>)"
  by (auto simp: build_msghdr_recv_def Let_def split: if_splits sum.splits)

lemma build_msghdr_recv_region:
  assumes "ev_bufferlist (events w dev) = []"
  shows "\<exists>w0. build_msghdr_recv P s dev m w
            = Inr (rg_length (ev_region (events w dev)) - ev_n (events w dev), w0)"
  using assms by (simp add: build_msghdr_recv_def Let_def)

lemma build_msghdr_send_world:
  "build_msghdr_send P s dev m w = Inr (wc, w0) \<Longrightarrow> w0 = w"
  by (auto simp: build_msghdr_send_def Let_def split: if_splits sum.splits prod.splits)

subsection \<open>The decision table of the I/O engine on errors\<close>

lemma doio_recv_other_errno:
  assumes b: "build_msghdr_recv P s dev (MAXSCATTERGATHER_RECV P) w = Inr (rc, w0)"
    and cc: "r_cc msghdr < 0" and e: "other_errno (r_errno msghdr)"
  shows "doio_recv P msghdr s dev w =
           Inr (DOIO_SUCCESS,
                send_recvdone_event s dev ISC_R_UNEXPECTED
                  (upd_sock s (\<lambda>k. k\<lparr>recv_result := ISC_R_UNEXPECTED\<rparr>)
                     (w0\<lparr>recv_calls := Suc (recv_calls w0)\<rparr>)))"
  using cc e by (simp add: doio_recv_def b Let_def other_errno_def)

lemma doio_send_other_errno:
  assumes b: "build_msghdr_send P s dev (MAXSCATTERGATHER_SEND P) w = Inr (wc, w0)"
    and cc: "s_cc ret < 0" and e: "other_errno (s_errno ret)"
  shows "doio_send P ret s dev w =
           Inr (DOIO_HARD,
                send_senddone_event s dev ISC_R_UNEXPECTED
                  (upd_sock s (\<lambda>k. k\<lparr>send_result := ISC_R_UNEXPECTED\<rparr>)
                     (w0\<lparr>send_calls := Suc (send_calls w0)\<rparr>)))"
  using cc e by (simp add: doio_send_def b Let_def other_errno_def)



subsection \<open>The receive queue under a sticky result and at end of file\<close>

lemma completions_append [simp]: "completions (xs @ ys) = completions xs @ completions ys"
  by (simp add: completions_def)

lemma completions_Nil [simp]: "completions [] = []"
  by (simp add: completions_def)

lemma completions_recvdone [simp]:
  "completions [task_send_mode e t (SocketEvent dev (recvdone s dev rc w))] = [(Some dev, rc)]"
  by (simp add: completions_def recvdone_def)

lemma send_recvdone_event_recv_list:
  "recv_list (socks (send_recvdone_event s dev rc w) s) = remove1 dev (recv_list (socks w s))"
  by (simp add: send_recvdone_event_socks)

lemma send_recvdone_event_recv_result:
  "recv_result (socks (send_recvdone_event s dev rc w) s') = recv_result (socks w s')"
  by (simp add: send_recvdone_event_socks)

lemma recv_drain_sticky:
  assumes "recv_list (socks w s) = xs" and "recv_result (socks w s) = rr"
    and "rr \<noteq> ISC_R_SUCCESS"
  shows "\<exists>w' ds. recv_drain P K s w = Inr w' \<and> recv_calls w' = recv_calls w
           \<and> recv_list (socks w' s) = [] \<and> recv_result (socks w' s) = rr
           \<and> pokes w' = pokes w
           \<and> taskq w' = taskq w @ ds \<and> completions ds = map (\<lambda>p. (Some p, rr)) xs"
  using assms
proof (induction xs arbitrary: w)
  case Nil
  then show ?case by simp
next
  case (Cons dev rest)
  let ?w1 = "send_recvdone_event s dev rr w"
  have step: "recv_drain P K s w = recv_drain P K s ?w1"
    using Cons.prems by (subst recv_drain.simps) simp
  have l: "recv_list (socks ?w1 s) = rest"
    using Cons.prems by (simp add: send_recvdone_event_recv_list)
  have r: "recv_result (socks ?w1 s) = rr"
    using Cons.prems by (simp add: send_recvdone_event_recv_result)
  from Cons.IH[OF l r Cons.prems(3)]
  obtain w' ds where h: "recv_drain P K s ?w1 = Inr w'" "recv_calls w' = recv_calls ?w1"
      "recv_list (socks w' s) = []" "recv_result (socks w' s) = rr" "pokes w' = pokes ?w1"
      "taskq w' = taskq ?w1 @ ds" "completions ds = map (\<lambda>p. (Some p, rr)) rest"
    by blast
  let ?d = "task_send_mode (events w dev) (ev_sender (events w dev))
              (SocketEvent dev (recvdone s dev rr w))"
  have "taskq w' = taskq w @ (?d # ds)"
    using h(6) by (simp add: send_recvdone_event_taskq)
  moreover have "completions (?d # ds) = map (\<lambda>p. (Some p, rr)) (dev # rest)"
    using h(7) completions_append[of "[?d]" ds] by simp
  ultimately show ?case
    using h step by (intro exI[of _ w'] exI[of _ "?d # ds"]) simp
qed

lemma eof_cascade_all:
  assumes "recv_list (socks w s) = dev # rest"
  shows "\<exists>ds. recv_list (socks (eof_cascade s dev w) s) = []
           \<and> recv_result (socks (eof_cascade s dev w) s) = recv_result (socks w s)
           \<and> recv_calls (eof_cascade s dev w) = recv_calls w
           \<and> pokes (eof_cascade s dev w) = pokes w
           \<and> taskq (eof_cascade s dev w) = taskq w @ ds
           \<and> completions ds = map (\<lambda>p. (Some p, ISC_R_EOF)) (dev # rest)"
  using assms
proof (induction rest arbitrary: dev w)
  case Nil
  let ?w1 = "send_recvdone_event s dev ISC_R_EOF w"
  have l: "recv_list (socks ?w1 s) = []"
    using Nil by (simp add: send_recvdone_event_recv_list)
  have e: "eof_cascade s dev w = ?w1"
    using l by (subst eof_cascade.simps) (simp add: Let_def)
  show ?case unfolding e
    using l by (simp add: send_recvdone_event_taskq send_recvdone_event_recv_result)
next
  case (Cons dev' rest)
  let ?w1 = "send_recvdone_event s dev ISC_R_EOF w"
  have l: "recv_list (socks ?w1 s) = dev' # rest"
    using Cons.prems by (simp add: send_recvdone_event_recv_list)
  have e: "eof_cascade s dev w = eof_cascade s dev' ?w1"
    using l by (subst eof_cascade.simps) (simp add: Let_def)
  from Cons.IH[OF l] obtain ds where h:
      "recv_list (socks (eof_cascade s dev' ?w1) s) = []"
      "recv_result (socks (eof_cascade s dev' ?w1) s) = recv_result (socks ?w1 s)"
      "recv_calls (eof_cascade s dev' ?w1) = recv_calls ?w1"
      "pokes (eof_cascade s dev' ?w1) = pokes ?w1"
      "taskq (eof_cascade s dev' ?w1) = taskq ?w1 @ ds"
      "completions ds = map (\<lambda>p. (Some p, ISC_R_EOF)) (dev' # rest)"
    by blast
  let ?d = "task_send_mode (events w dev) (ev_sender (events w dev))
              (SocketEvent dev (recvdone s dev ISC_R_EOF w))"
  have "taskq (eof_cascade s dev w) = taskq w @ (?d # ds)"
    unfolding e using h(5) by (simp add: send_recvdone_event_taskq)
  moreover have "completions (?d # ds) = map (\<lambda>p. (Some p, ISC_R_EOF)) (dev # dev' # rest)"
    using h(6) completions_append[of "[?d]" ds] by simp
  ultimately show ?case
    unfolding e using h by (intro exI[of _ "?d # ds"]) (simp add: send_recvdone_event_recv_result)
qed

lemma references_after_decrement:
  fixes r :: "32 word"
  assumes "1 < r"
  shows "0 < r" and "r - 1 \<noteq> 0"
  using assms by (auto simp: word_less_nat_alt unat_gt_0)

lemma allocate_socketevent_simps [simp]:
  "socks (allocate_socketevent s t ev w) = socks w"
  "taskq (allocate_socketevent s t ev w) = taskq w"
  "pokes (allocate_socketevent s t ev w) = pokes w"
  "recv_calls (allocate_socketevent s t ev w) = recv_calls w"
  "send_calls (allocate_socketevent s t ev w) = send_calls w"
  by (simp_all add: allocate_socketevent_def)

lemma recv_queue_simps [simp]:
  "socks (recv_queue s dev task b w) =
     (socks w)(s := (socks w s)\<lparr>recv_list := recv_list (socks w s) @ [dev]\<rparr>)"
  "taskq (recv_queue s dev task b w) = taskq w"
  "pokes (recv_queue s dev task b w) = (if b then pokes w @ [fd (socks w s)] else pokes w)"
  "recv_calls (recv_queue s dev task b w) = recv_calls w"
  by (simp_all add: recv_queue_def Let_def)

lemma recv_try_sticky:
  assumes "socks w2 = socks w" and "taskq w2 = taskq w" and "recv_calls w2 = recv_calls w"
    and "recv_result (socks w s) = rr" and "rr \<noteq> ISC_R_SUCCESS"
  shows "\<exists>w'. recv_try P msghdr s dev task w2 = Inr (ISC_R_SUCCESS, w')
           \<and> recv_calls w' = recv_calls w \<and> recv_result (socks w' s) = rr
           \<and> (if recv_list (socks w s) = []
               then recv_list (socks w' s) = []
                    \<and> (\<exists>d. taskq w' = taskq w @ [d] \<and> completions [d] = [(Some dev, rr)])
               else recv_list (socks w' s) = recv_list (socks w s) @ [dev]
                    \<and> taskq w' = taskq w)"
  using assms
  by (auto simp: recv_try_def Let_def send_recvdone_event_socks send_recvdone_event_taskq)

lemma doio_recv_sets_recv_result:
  assumes r: "doio_recv P msghdr s dev w = Inr (out, w1)"
    and ok: "recv_result (socks w s) = ISC_R_SUCCESS"
    and rr: "recv_result (socks w1 s) \<noteq> ISC_R_SUCCESS"
  shows "recv_calls w1 = Suc (recv_calls w)
       \<and> (if out = DOIO_EOF
           then recv_result (socks w1 s) = ISC_R_EOF \<and> taskq w1 = taskq w
                \<and> recv_list (socks w1 s) = recv_list (socks w s)
           else recv_list (socks w1 s) = remove1 dev (recv_list (socks w s))
                \<and> (\<exists>d. taskq w1 = taskq w @ [d]
                        \<and> completions [d] = [(Some dev, recv_result (socks w1 s))]))"
proof -
  obtain rc w0 where b: "build_msghdr_recv P s dev (MAXSCATTERGATHER_RECV P) w = Inr (rc, w0)"
    using r by (auto simp: doio_recv_def split: sum.splits)
  from build_msghdr_recv_world[OF b]
  have w0: "socks w0 = socks w" "taskq w0 = taskq w" "recv_calls w0 = recv_calls w"
    by simp_all
  define v where "v = w0\<lparr>recv_calls := Suc (recv_calls w0)\<rparr>"
  have v: "socks v = socks w" "taskq v = taskq w" "recv_calls v = Suc (recv_calls w)"
    unfolding v_def using w0 by simp_all
  note d = r[unfolded doio_recv_def b, simplified, folded v_def]
  show ?thesis
  proof (cases "r_cc msghdr < 0")
    case True
    note neg = True
    show ?thesis
    proof (cases "SOFT_ERROR (r_errno msghdr)")
      case True
      then have "w1 = v" using d neg by (simp add: Let_def)
      then show ?thesis using rr ok v by simp
    next
      case False
      note hard = False
      show ?thesis
      proof (cases "r_errno msghdr = ECONNREFUSED \<or> r_errno msghdr = ENETUNREACH
                      \<or> r_errno msghdr = EHOSTUNREACH")
        case True
        then obtain isc where sh: "SOFT_OR_HARD_recv s dev isc v = (out, w1)"
          using d neg hard by (auto simp: Let_def split: if_splits)
        show ?thesis
        proof (cases "connected (socks v s)")
          case False
          then have "w1 = v" using sh by (simp add: SOFT_OR_HARD_recv_def)
          then show ?thesis using rr ok v by simp
        next
          case True
          note conn = True
          show ?thesis
          proof (cases "stype (socks v s) = isc_sockettype_tcp")
            case True
            then have o: "out = DOIO_HARD"
                "w1 = send_recvdone_event s dev isc (upd_sock s (\<lambda>k. k\<lparr>recv_result := isc\<rparr>) v)"
              using sh conn by (simp_all add: SOFT_OR_HARD_recv_def)
            show ?thesis
              unfolding o using v
              by (simp add: send_recvdone_event_socks send_recvdone_event_taskq)
          next
            case False
            then have "w1 = send_recvdone_event s dev isc v"
              using sh conn by (simp add: SOFT_OR_HARD_recv_def)
            then show ?thesis using rr ok v by (simp add: send_recvdone_event_socks)
          qed
        qed
      next
        case False
        note notmapped = False
        show ?thesis
        proof (cases "r_errno msghdr = ENOBUFS")
          case True
          then have "w1 = send_recvdone_event s dev ISC_R_NORESOURCES v"
            using d neg hard notmapped by (simp add: Let_def)
          then show ?thesis using rr ok v by (simp add: send_recvdone_event_socks)
        next
          case False
          have o: "out = DOIO_SUCCESS"
              "w1 = send_recvdone_event s dev ISC_R_UNEXPECTED
                      (upd_sock s (\<lambda>k. k\<lparr>recv_result := ISC_R_UNEXPECTED\<rparr>) v)"
            using d neg hard notmapped False by (simp_all add: Let_def)
          show ?thesis
            unfolding o using v
            by (simp add: send_recvdone_event_socks send_recvdone_event_taskq)
        qed
      qed
    qed
  next
    case False
    note nonneg = False
    show ?thesis
    proof (cases "stype (socks w s) = isc_sockettype_tcp \<and> r_cc msghdr = 0")
      case True
      then have o: "out = DOIO_EOF" "w1 = upd_sock s (\<lambda>k. k\<lparr>recv_result := ISC_R_EOF\<rparr>) v"
        using d nonneg v(1) by (simp_all add: Let_def)
      show ?thesis unfolding o using v by simp
    next
      case False
      have "recv_result (socks w1 s) = recv_result (socks w s)"
        using d nonneg False v(1)
        by (auto simp: Let_def send_recvdone_event_socks split: if_splits sum.splits)
      then show ?thesis using rr ok by simp
    qed
  qed
qed

lemma recv_drain_after_failed_read:
  assumes q: "recv_list (socks w s) = dev # rest"
    and m: "ev_type (events w dev) \<noteq> ISC_SOCKEVENT_RECVMARK"
    and ok: "recv_result (socks w s) = ISC_R_SUCCESS"
    and r: "doio_recv P (K (recv_calls w)) s dev w = Inr (out, w1)"
    and rr: "recv_result (socks w1 s) = rr" "rr \<noteq> ISC_R_SUCCESS"
  shows "\<exists>w' ds. recv_drain P K s w = Inr w'
           \<and> recv_calls w' = Suc (recv_calls w) \<and> recv_result (socks w' s) = rr
           \<and> recv_list (socks w' s) = []
           \<and> taskq w' = taskq w @ ds
           \<and> completions ds = map (\<lambda>p. (Some p, rr)) (dev # rest)"
proof -
  have ne: "recv_result (socks w1 s) \<noteq> ISC_R_SUCCESS" using rr by simp
  note f = doio_recv_sets_recv_result[OF r ok ne]
  have c: "recv_calls w1 = Suc (recv_calls w)" using f by simp
  show ?thesis
  proof (cases "out = DOIO_EOF")
    case True
    then have e: "rr = ISC_R_EOF" "taskq w1 = taskq w" "recv_list (socks w1 s) = dev # rest"
      using f rr q by simp_all
    have d: "recv_drain P K s w = Inr (eof_cascade s dev w1)"
      using q m ok r True by (subst recv_drain.simps) simp
    from eof_cascade_all[OF e(3)] obtain ds where h:
        "recv_list (socks (eof_cascade s dev w1) s) = []"
        "recv_result (socks (eof_cascade s dev w1) s) = recv_result (socks w1 s)"
        "recv_calls (eof_cascade s dev w1) = recv_calls w1"
        "taskq (eof_cascade s dev w1) = taskq w1 @ ds"
        "completions ds = map (\<lambda>p. (Some p, ISC_R_EOF)) (dev # rest)"
      by blast
    show ?thesis
      unfolding d using h c e rr
      by (intro exI[of _ "eof_cascade s dev w1"] exI[of _ ds]) simp
  next
    case False
    have soft: "out \<noteq> DOIO_SOFT"
    proof
      assume "out = DOIO_SOFT"
      then have "recv_result (socks w1 s) = recv_result (socks w s)"
        using r
        by (auto simp: doio_recv_def Let_def SOFT_OR_HARD_recv_def
              dest!: build_msghdr_recv_world split: sum.splits if_splits)
      then show False using ok ne by simp
    qed
    from f False obtain d where e: "recv_list (socks w1 s) = rest"
        "taskq w1 = taskq w @ [d]" "completions [d] = [(Some dev, rr)]"
      using q rr by auto
    have d: "recv_drain P K s w = recv_drain P K s w1"
      using q m ok r False soft by (subst recv_drain.simps) simp
    from recv_drain_sticky[OF e(1) rr, of P K] obtain w' ds where h:
        "recv_drain P K s w1 = Inr w'" "recv_calls w' = recv_calls w1"
        "recv_list (socks w' s) = []" "recv_result (socks w' s) = rr"
        "taskq w' = taskq w1 @ ds" "completions ds = map (\<lambda>p. (Some p, rr)) rest"
      by blast
    have "completions (d # ds) = map (\<lambda>p. (Some p, rr)) (dev # rest)"
      using h(6) e(3) completions_append[of "[d]" ds] by simp
    then show ?thesis
      unfolding d using h c e
      by (intro exI[of _ w'] exI[of _ "d # ds"]) simp
  qed
qed

lemma doio_recv_whole_region:
  assumes b: "build_msghdr_recv P s dev (MAXSCATTERGATHER_RECV P) w = Inr (rc, w0)"
    and t: "stype (socks w s) = isc_sockettype_tcp"
    and cc: "r_cc msghdr = int rc" "0 < rc"
    and l: "ev_bufferlist (events w dev) = []"
  shows "\<exists>w1 d. doio_recv P msghdr s dev w = Inr (DOIO_SUCCESS, w1)
           \<and> socks w1 = (socks w)(s := (socks w s)\<lparr>recv_list := remove1 dev (recv_list (socks w s))\<rparr>)
           \<and> recv_calls w1 = Suc (recv_calls w)
           \<and> taskq w1 = taskq w @ [d] \<and> completions [d] = [(Some dev, ISC_R_SUCCESS)]
           \<and> (\<forall>p. p \<noteq> dev \<longrightarrow> events w1 p = events w p)"
proof -
  from build_msghdr_recv_world[OF b]
  have w0: "socks w0 = socks w" "taskq w0 = taskq w" "recv_calls w0 = recv_calls w"
      "events w0 = (events w)(dev := (events w dev)\<lparr>ev_address := ev_address (events w0 dev)\<rparr>)"
    by simp_all
  have e0: "ev_bufferlist (events w0 dev) = []" "\<And>p. p \<noteq> dev \<Longrightarrow> events w0 p = events w p"
    using l by (subst w0(4), simp)+
  show ?thesis
    using t cc w0(1-3) e0
    by (simp add: doio_recv_def b Let_def send_recvdone_event_socks send_recvdone_event_taskq
          send_recvdone_event_events)
qed

text \<open>
  C1. Once the sticky \<open>recv_result\<close> of a socket is not Success (in particular on a
  stream socket), every recv request processed afterwards completes with exactly that code
  and recvmsg is not called for it. The statement has five parts, for a code \<open>rr\<close>
  other than Success.
  \<^item> \<open>isc_socket_recv\<close> and \<open>isc_socket_recvv\<close>, called with the sticky result \<open>rr\<close>,
    complete the request at once with \<open>rr\<close> when the queue is empty and queue it
    otherwise; recvmsg is not called.
  \<^item> \<open>internal_recv\<close>, entered with the sticky result \<open>rr\<close>, completes every queued
    request, in order, with \<open>rr\<close>; recvmsg is not called.
  \<^item> The drain loop of \<open>internal_recv\<close>, at any of its iterations: when the sticky
    result is still Success and the read for the request at the head of the queue sets it
    to \<open>rr\<close> (through an errno or through end of file), that request and every request
    queued behind it complete with \<open>rr\<close>, in queue order, and that read is the only
    recvmsg call of the whole remaining drain.
  \<^item> The same for \<open>internal_recv\<close> as a whole, when its first read sets the sticky
    result; the state that read runs in is the one the handler has reached, with
    \<open>pending_recv\<close> cleared and its reference dropped.
  The sticky code itself is unchanged throughout.
\<close>

theorem sticky_recv_result_replayed_without_recvmsg:
  assumes n: "rr \<noteq> ISC_R_SUCCESS"
  shows
   "(recv_result (socks w s) = rr \<and> minimum \<le> rg_length region \<longrightarrow>
       (\<exists>w'. isc_socket_recv P msghdr (Some dev) s region minimum task w
                = Inr (ISC_R_SUCCESS, w')
          \<and> recv_calls w' = recv_calls w \<and> recv_result (socks w' s) = rr
          \<and> (if recv_list (socks w s) = []
              then recv_list (socks w' s) = []
                   \<and> (\<exists>d. taskq w' = taskq w @ [d] \<and> completions [d] = [(Some dev, rr)])
              else recv_list (socks w' s) = recv_list (socks w s) @ [dev]
                   \<and> taskq w' = taskq w)))
  \<and> (recv_result (socks w s) = rr
       \<and> buflist \<noteq> [] \<and> 0 < isc_bufferlist_availablecount buflist \<longrightarrow>
       (\<exists>w'. isc_socket_recvv P msghdr (Some dev) s buflist minimum task w
                = Inr (ISC_R_SUCCESS, w')
          \<and> recv_calls w' = recv_calls w \<and> recv_result (socks w' s) = rr
          \<and> (if recv_list (socks w s) = []
              then recv_list (socks w' s) = []
                   \<and> (\<exists>d. taskq w' = taskq w @ [d] \<and> completions [d] = [(Some dev, rr)])
              else recv_list (socks w' s) = recv_list (socks w s) @ [dev]
                   \<and> taskq w' = taskq w)))
  \<and> (recv_result (socks w s) = rr
       \<and> pending_recv (socks w s) \<and> 1 < references (socks w s) \<longrightarrow>
       (\<exists>w' ds. internal_recv P K s w = Inr w'
          \<and> recv_calls w' = recv_calls w \<and> recv_result (socks w' s) = rr
          \<and> recv_list (socks w' s) = []
          \<and> taskq w' = taskq w @ ds
          \<and> completions ds = map (\<lambda>p. (Some p, rr)) (recv_list (socks w s))))
  \<and> (recv_result (socks w s) = ISC_R_SUCCESS
       \<and> recv_list (socks w s) = dev # rest
       \<and> ev_type (events w dev) \<noteq> ISC_SOCKEVENT_RECVMARK
       \<and> doio_recv P (K (recv_calls w)) s dev w = Inr (out, v)
       \<and> recv_result (socks v s) = rr \<longrightarrow>
       (\<exists>w' ds. recv_drain P K s w = Inr w'
          \<and> recv_calls w' = Suc (recv_calls w) \<and> recv_result (socks w' s) = rr
          \<and> recv_list (socks w' s) = []
          \<and> taskq w' = taskq w @ ds
          \<and> completions ds = map (\<lambda>p. (Some p, rr)) (dev # rest)))
  \<and> (recv_result (socks w s) = ISC_R_SUCCESS
       \<and> pending_recv (socks w s) \<and> 1 < references (socks w s)
       \<and> recv_list (socks w s) = dev # rest
       \<and> ev_type (events w dev) \<noteq> ISC_SOCKEVENT_RECVMARK
       \<and> doio_recv P (K (recv_calls w)) s dev
            (upd_sock s (\<lambda>k. k\<lparr>references := references k - 1\<rparr>)
               (upd_sock s (\<lambda>k. k\<lparr>pending_recv := False\<rparr>) w)) = Inr (out, v)
       \<and> recv_result (socks v s) = rr \<longrightarrow>
       (\<exists>w' ds. internal_recv P K s w = Inr w'
          \<and> recv_calls w' = Suc (recv_calls w) \<and> recv_result (socks w' s) = rr
          \<and> recv_list (socks w' s) = []
          \<and> taskq w' = taskq w @ ds
          \<and> completions ds = map (\<lambda>p. (Some p, rr)) (dev # rest)))"
proof (intro conjI impI)
  assume a: "recv_result (socks w s) = rr \<and> minimum \<le> rg_length region"
  let ?w2 = "upd_event dev
               (\<lambda>e. e\<lparr>ev_minimum := (if stype (socks w s) = isc_sockettype_udp then 1
                                       else if minimum = 0 then rg_length region else minimum),
                      ev_result := ISC_R_SUCCESS, ev_n := 0,
                      ev_region := region, ev_sender := Task task\<rparr>)
               (allocate_socketevent s ISC_SOCKEVENT_RECVDONE dev w)"
  have e: "isc_socket_recv P msghdr (Some dev) s region minimum task w
             = recv_try P msghdr s dev task ?w2"
    using a by (simp add: isc_socket_recv_def Let_def)
  show "\<exists>w'. isc_socket_recv P msghdr (Some dev) s region minimum task w
                = Inr (ISC_R_SUCCESS, w')
          \<and> recv_calls w' = recv_calls w \<and> recv_result (socks w' s) = rr
          \<and> (if recv_list (socks w s) = []
              then recv_list (socks w' s) = []
                   \<and> (\<exists>d. taskq w' = taskq w @ [d] \<and> completions [d] = [(Some dev, rr)])
              else recv_list (socks w' s) = recv_list (socks w s) @ [dev]
                   \<and> taskq w' = taskq w)"
    unfolding e by (rule recv_try_sticky) (simp_all add: a n)
next
  assume b: "recv_result (socks w s) = rr
               \<and> buflist \<noteq> [] \<and> 0 < isc_bufferlist_availablecount buflist"
  let ?w2 = "upd_event dev
               (\<lambda>e. e\<lparr>ev_minimum := (if stype (socks w s) = isc_sockettype_udp then 1
                                       else if minimum = 0
                                            then isc_bufferlist_availablecount buflist
                                            else minimum),
                      ev_sender := Task task,
                      ev_bufferlist := ev_bufferlist e @ buflist\<rparr>)
               (allocate_socketevent s ISC_SOCKEVENT_RECVDONE dev w)"
  have e: "isc_socket_recvv P msghdr (Some dev) s buflist minimum task w
             = recv_try P msghdr s dev task ?w2"
    using b by (simp add: isc_socket_recvv_def Let_def)
  show "\<exists>w'. isc_socket_recvv P msghdr (Some dev) s buflist minimum task w
                = Inr (ISC_R_SUCCESS, w')
          \<and> recv_calls w' = recv_calls w \<and> recv_result (socks w' s) = rr
          \<and> (if recv_list (socks w s) = []
              then recv_list (socks w' s) = []
                   \<and> (\<exists>d. taskq w' = taskq w @ [d] \<and> completions [d] = [(Some dev, rr)])
              else recv_list (socks w' s) = recv_list (socks w s) @ [dev]
                   \<and> taskq w' = taskq w)"
    unfolding e by (rule recv_try_sticky) (simp_all add: b n)
next
  assume p: "recv_result (socks w s) = rr
               \<and> pending_recv (socks w s) \<and> 1 < references (socks w s)"
  let ?w2 = "upd_sock s (\<lambda>k. k\<lparr>references := references k - 1\<rparr>)
               (upd_sock s (\<lambda>k. k\<lparr>pending_recv := False\<rparr>) w)"
  have l: "recv_list (socks ?w2 s) = recv_list (socks w s)" by simp
  have r: "recv_result (socks ?w2 s) = rr" using p by simp
  from recv_drain_sticky[OF l r n, of P K]
  obtain w' ds where h: "recv_drain P K s ?w2 = Inr w'" "recv_calls w' = recv_calls ?w2"
      "recv_list (socks w' s) = []" "recv_result (socks w' s) = rr"
      "taskq w' = taskq ?w2 @ ds"
      "completions ds = map (\<lambda>p. (Some p, rr)) (recv_list (socks w s))"
    by blast
  have "internal_recv P K s w = Inr w'"
    using p h(1) h(3) references_after_decrement[of "references (socks w s)"]
    by (simp add: internal_recv_def Let_def)
  then show "\<exists>w' ds. internal_recv P K s w = Inr w'
          \<and> recv_calls w' = recv_calls w \<and> recv_result (socks w' s) = rr
          \<and> recv_list (socks w' s) = []
          \<and> taskq w' = taskq w @ ds
          \<and> completions ds = map (\<lambda>p. (Some p, rr)) (recv_list (socks w s))"
    using h by (intro exI[of _ w'] exI[of _ ds]) simp
next
  assume a: "recv_result (socks w s) = ISC_R_SUCCESS
       \<and> recv_list (socks w s) = dev # rest
       \<and> ev_type (events w dev) \<noteq> ISC_SOCKEVENT_RECVMARK
       \<and> doio_recv P (K (recv_calls w)) s dev w = Inr (out, v)
       \<and> recv_result (socks v s) = rr"
  show "\<exists>w' ds. recv_drain P K s w = Inr w'
          \<and> recv_calls w' = Suc (recv_calls w) \<and> recv_result (socks w' s) = rr
          \<and> recv_list (socks w' s) = []
          \<and> taskq w' = taskq w @ ds
          \<and> completions ds = map (\<lambda>p. (Some p, rr)) (dev # rest)"
    by (rule recv_drain_after_failed_read[where out = out and ?w1.0 = v])
       (simp_all add: a n)
next
  assume a: "recv_result (socks w s) = ISC_R_SUCCESS
       \<and> pending_recv (socks w s) \<and> 1 < references (socks w s)
       \<and> recv_list (socks w s) = dev # rest
       \<and> ev_type (events w dev) \<noteq> ISC_SOCKEVENT_RECVMARK
       \<and> doio_recv P (K (recv_calls w)) s dev
            (upd_sock s (\<lambda>k. k\<lparr>references := references k - 1\<rparr>)
               (upd_sock s (\<lambda>k. k\<lparr>pending_recv := False\<rparr>) w)) = Inr (out, v)
       \<and> recv_result (socks v s) = rr"
  let ?w2 = "upd_sock s (\<lambda>k. k\<lparr>references := references k - 1\<rparr>)
               (upd_sock s (\<lambda>k. k\<lparr>pending_recv := False\<rparr>) w)"
  have "\<exists>w' ds. recv_drain P K s ?w2 = Inr w'
          \<and> recv_calls w' = Suc (recv_calls ?w2) \<and> recv_result (socks w' s) = rr
          \<and> recv_list (socks w' s) = []
          \<and> taskq w' = taskq ?w2 @ ds
          \<and> completions ds = map (\<lambda>p. (Some p, rr)) (dev # rest)"
    by (rule recv_drain_after_failed_read[where out = out and ?w1.0 = v])
       (simp_all add: a n)
  then obtain w' ds where h: "recv_drain P K s ?w2 = Inr w'"
      "recv_calls w' = Suc (recv_calls w)" "recv_result (socks w' s) = rr"
      "recv_list (socks w' s) = []" "taskq w' = taskq w @ ds"
      "completions ds = map (\<lambda>p. (Some p, rr)) (dev # rest)"
    by auto
  have "internal_recv P K s w = Inr w'"
    using a h(1) h(4) references_after_decrement[of "references (socks w s)"]
    by (simp add: internal_recv_def Let_def)
  then show "\<exists>w' ds. internal_recv P K s w = Inr w'
          \<and> recv_calls w' = Suc (recv_calls w) \<and> recv_result (socks w' s) = rr
          \<and> recv_list (socks w' s) = []
          \<and> taskq w' = taskq w @ ds
          \<and> completions ds = map (\<lambda>p. (Some p, rr)) (dev # rest)"
    using h by (intro exI[of _ w'] exI[of _ ds]) simp
qed

theorem sticky_recv_result_replayed_without_recvmsg_witness:
  "(\<exists>w' d. isc_socket_recv ex_platform (ex_recvmsg 4 ENONE) (Some 3) 0
              \<lparr>rg_base = 100, rg_length = 16\<rparr> 0 7 (ex_sticky_world [])
              = Inr (ISC_R_SUCCESS, w')
          \<and> recv_calls w' = 0 \<and> taskq w' = [d] \<and> completions [d] = [(Some 3, ISC_R_EOF)])
   \<and> (\<exists>w'. isc_socket_recvv ex_platform (ex_recvmsg 4 ENONE) (Some 3) 0
              [\<lparr>b_length = 8, b_used = 0\<rparr>] 0 7 (ex_sticky_world [1, 2])
              = Inr (ISC_R_SUCCESS, w')
          \<and> recv_calls w' = 0 \<and> taskq w' = [] \<and> recv_list (socks w' 0) = [1, 2, 3])
   \<and> (\<exists>w' ds. internal_recv ex_platform (\<lambda>_. ex_recvmsg 4 ENONE) 0 (ex_sticky_world [1, 2])
              = Inr w'
          \<and> recv_calls w' = 0 \<and> recv_result (socks w' 0) = ISC_R_EOF
          \<and> recv_list (socks w' 0) = [] \<and> taskq w' = ds
          \<and> completions ds = [(Some 1, ISC_R_EOF), (Some 2, ISC_R_EOF)])
   \<and> (\<exists>w' ds. recv_drain ex_platform (ex_kernel 0) 0 ex_drain_world = Inr w'
          \<and> recv_calls w' = 1 \<and> recv_result (socks w' 0) = ISC_R_UNEXPECTED
          \<and> recv_list (socks w' 0) = [] \<and> taskq w' = ds
          \<and> completions ds = [(Some 1, ISC_R_UNEXPECTED), (Some 2, ISC_R_UNEXPECTED),
                               (Some 3, ISC_R_UNEXPECTED), (Some 4, ISC_R_UNEXPECTED)])
   \<and> (\<exists>w' ds. internal_recv ex_platform (ex_kernel 0) 0 ex_drain_world = Inr w'
          \<and> recv_calls w' = 1 \<and> recv_result (socks w' 0) = ISC_R_UNEXPECTED
          \<and> recv_list (socks w' 0) = [] \<and> taskq w' = ds
          \<and> completions ds = [(Some 1, ISC_R_UNEXPECTED), (Some 2, ISC_R_UNEXPECTED),
                               (Some 3, ISC_R_UNEXPECTED), (Some 4, ISC_R_UNEXPECTED)])
   \<and> (\<exists>w' ds. internal_recv ex_platform (ex_kernel 1) 0 ex_drain_world = Inr w'
          \<and> recv_calls w' = 2 \<and> recv_result (socks w' 0) = ISC_R_UNEXPECTED
          \<and> recv_list (socks w' 0) = [] \<and> taskq w' = ds
          \<and> completions ds = [(Some 1, ISC_R_SUCCESS), (Some 2, ISC_R_UNEXPECTED),
                               (Some 3, ISC_R_UNEXPECTED), (Some 4, ISC_R_UNEXPECTED)])"
proof -
  have r: "recv_result (socks (ex_sticky_world q) 0) = ISC_R_EOF" for q
    by (simp add: ex_sticky_world_def ex_world_def ex_sock_def)
  have n: "ISC_R_EOF \<noteq> ISC_R_SUCCESS" and u: "ISC_R_UNEXPECTED \<noteq> ISC_R_SUCCESS" by simp_all
  have f: "recv_list (socks (ex_sticky_world q) 0) = q" "taskq (ex_sticky_world q) = []"
      "recv_calls (ex_sticky_world q) = 0" "pending_recv (socks (ex_sticky_world q) 0)"
      "references (socks (ex_sticky_world q) 0) = 2" for q
    by (simp_all add: ex_sticky_world_def ex_world_def ex_sock_def)
  have a: "0 < isc_bufferlist_availablecount [\<lparr>b_length = 8, b_used = 0\<rparr>]"
    by (simp add: isc_bufferlist_availablecount_def ISC_BUFFER_AVAILABLECOUNT_def)
  note t1 = sticky_recv_result_replayed_without_recvmsg[
      where w = "ex_sticky_world []" and s = 0 and minimum = 0
        and region = "\<lparr>rg_base = 100, rg_length = 16\<rparr>" and P = ex_platform
        and msghdr = "ex_recvmsg 4 ENONE" and dev = 3 and task = 7, OF n, THEN conjunct1]
  note t2 = sticky_recv_result_replayed_without_recvmsg[
      where w = "ex_sticky_world [1, 2]" and s = 0 and minimum = 0 and P = ex_platform
        and msghdr = "ex_recvmsg 4 ENONE" and dev = 3 and task = 7
        and buflist = "[\<lparr>b_length = 8, b_used = 0\<rparr>]",
      OF n, THEN conjunct2, THEN conjunct1]
  note t3 = sticky_recv_result_replayed_without_recvmsg[
      where w = "ex_sticky_world [1, 2]" and s = 0 and P = ex_platform
        and K = "\<lambda>_. ex_recvmsg 4 ENONE",
      OF n, THEN conjunct2, THEN conjunct2, THEN conjunct1]
  have c1: "\<exists>w' d. isc_socket_recv ex_platform (ex_recvmsg 4 ENONE) (Some 3) 0
              \<lparr>rg_base = 100, rg_length = 16\<rparr> 0 7 (ex_sticky_world [])
              = Inr (ISC_R_SUCCESS, w')
          \<and> recv_calls w' = 0 \<and> taskq w' = [d] \<and> completions [d] = [(Some 3, ISC_R_EOF)]"
    using t1 by (simp add: f r) blast
  have c2: "\<exists>w'. isc_socket_recvv ex_platform (ex_recvmsg 4 ENONE) (Some 3) 0
              [\<lparr>b_length = 8, b_used = 0\<rparr>] 0 7 (ex_sticky_world [1, 2])
              = Inr (ISC_R_SUCCESS, w')
          \<and> recv_calls w' = 0 \<and> taskq w' = [] \<and> recv_list (socks w' 0) = [1, 2, 3]"
    using t2 a by (simp add: f r) blast
  have c3: "\<exists>w' ds. internal_recv ex_platform (\<lambda>_. ex_recvmsg 4 ENONE) 0 (ex_sticky_world [1, 2])
              = Inr w'
          \<and> recv_calls w' = 0 \<and> recv_result (socks w' 0) = ISC_R_EOF
          \<and> recv_list (socks w' 0) = [] \<and> taskq w' = ds
          \<and> completions ds = [(Some 1, ISC_R_EOF), (Some 2, ISC_R_EOF)]"
    using t3 by (simp add: f r)
  let ?D = ex_drain_world
  let ?H = "upd_sock 0 (\<lambda>k. k\<lparr>references := references k - 1\<rparr>)
              (upd_sock 0 (\<lambda>k. k\<lparr>pending_recv := False\<rparr>) ex_drain_world)"
  have g: "recv_list (socks ?D 0) = 1 # [2, 3, 4]" "taskq ?D = []" "recv_calls ?D = 0"
      "pending_recv (socks ?D 0)" "references (socks ?D 0) = 2"
      "recv_result (socks ?D 0) = ISC_R_SUCCESS" "stype (socks ?D 0) = isc_sockettype_tcp"
      "ev_type (events ?D 1) \<noteq> ISC_SOCKEVENT_RECVMARK"
      "ev_type (events ?D 2) \<noteq> ISC_SOCKEVENT_RECVMARK"
      "ev_bufferlist (events ?D p) = []" "ev_n (events ?D p) = 0"
      "rg_length (ev_region (events ?D p)) = 16" for p
    by (simp_all add: ex_drain_world_def ex_world_def ex_sock_def ex_event_def)
  have k: "r_cc (ex_kernel i i) < 0" "other_errno (r_errno (ex_kernel i i))"
      "r_cc (ex_kernel 1 0) = int 16" for i
    by (simp_all add: ex_kernel_def ex_recvmsg_def other_errno_def SOFT_ERROR_def)
  from build_msghdr_recv_region[of ?D 1 ex_platform 0 "MAXSCATTERGATHER_RECV ex_platform"]
  obtain d0 where bd: "build_msghdr_recv ex_platform 0 1 (MAXSCATTERGATHER_RECV ex_platform) ?D
                         = Inr (16, d0)"
    by (auto simp: g)
  let ?d1 = "send_recvdone_event 0 1 ISC_R_UNEXPECTED
               (upd_sock 0 (\<lambda>k. k\<lparr>recv_result := ISC_R_UNEXPECTED\<rparr>)
                  (d0\<lparr>recv_calls := Suc (recv_calls d0)\<rparr>))"
  have xd: "doio_recv ex_platform (ex_kernel 0 (recv_calls ?D)) 0 1 ?D = Inr (DOIO_SUCCESS, ?d1)"
    using doio_recv_other_errno[OF bd k(1)[of 0] k(2)[of 0]] by (simp add: g)
  have sd: "recv_result (socks ?d1 0) = ISC_R_UNEXPECTED"
    by (simp add: send_recvdone_event_socks)
  have h4: "recv_result (socks ?D 0) = ISC_R_SUCCESS
       \<and> recv_list (socks ?D 0) = 1 # [2, 3, 4]
       \<and> ev_type (events ?D 1) \<noteq> ISC_SOCKEVENT_RECVMARK
       \<and> doio_recv ex_platform (ex_kernel 0 (recv_calls ?D)) 0 1 ?D = Inr (DOIO_SUCCESS, ?d1)
       \<and> recv_result (socks ?d1 0) = ISC_R_UNEXPECTED"
    using xd sd g(1,6,8) by blast
  note t4 = sticky_recv_result_replayed_without_recvmsg[
      where w = ?D and s = 0 and P = ex_platform and K = "ex_kernel 0" and dev = 1
        and rest = "[2, 3, 4]" and out = DOIO_SUCCESS and v = ?d1,
      OF u, THEN conjunct2, THEN conjunct2, THEN conjunct2, THEN conjunct1, THEN mp, OF h4]
  have c4: "\<exists>w' ds. recv_drain ex_platform (ex_kernel 0) 0 ex_drain_world = Inr w'
          \<and> recv_calls w' = 1 \<and> recv_result (socks w' 0) = ISC_R_UNEXPECTED
          \<and> recv_list (socks w' 0) = [] \<and> taskq w' = ds
          \<and> completions ds = [(Some 1, ISC_R_UNEXPECTED), (Some 2, ISC_R_UNEXPECTED),
                               (Some 3, ISC_R_UNEXPECTED), (Some 4, ISC_R_UNEXPECTED)]"
    using t4 by (simp add: g del: recv_drain.simps)
  have gh: "recv_list (socks ?H 0) = 1 # [2, 3, 4]" "taskq ?H = []" "recv_calls ?H = 0"
      "recv_result (socks ?H 0) = ISC_R_SUCCESS" "stype (socks ?H 0) = isc_sockettype_tcp"
      "events ?H = events ?D"
    by (simp_all add: g)
  from build_msghdr_recv_region[of ?H 1 ex_platform 0 "MAXSCATTERGATHER_RECV ex_platform"]
  obtain h0 where bh: "build_msghdr_recv ex_platform 0 1 (MAXSCATTERGATHER_RECV ex_platform) ?H
                         = Inr (16, h0)"
    by (auto simp: g)
  let ?h1 = "send_recvdone_event 0 1 ISC_R_UNEXPECTED
               (upd_sock 0 (\<lambda>k. k\<lparr>recv_result := ISC_R_UNEXPECTED\<rparr>)
                  (h0\<lparr>recv_calls := Suc (recv_calls h0)\<rparr>))"
  have xh: "doio_recv ex_platform (ex_kernel 0 (recv_calls ?D)) 0 1 ?H = Inr (DOIO_SUCCESS, ?h1)"
    using doio_recv_other_errno[OF bh k(1)[of 0] k(2)[of 0]] by (simp add: g)
  have sh: "recv_result (socks ?h1 0) = ISC_R_UNEXPECTED"
    by (simp add: send_recvdone_event_socks)
  have h5: "recv_result (socks ?D 0) = ISC_R_SUCCESS
       \<and> pending_recv (socks ?D 0) \<and> 1 < references (socks ?D 0)
       \<and> recv_list (socks ?D 0) = 1 # [2, 3, 4]
       \<and> ev_type (events ?D 1) \<noteq> ISC_SOCKEVENT_RECVMARK
       \<and> doio_recv ex_platform (ex_kernel 0 (recv_calls ?D)) 0 1 ?H = Inr (DOIO_SUCCESS, ?h1)
       \<and> recv_result (socks ?h1 0) = ISC_R_UNEXPECTED"
    using xh sh g(1,4,6,8) by (simp add: g(5))
  note t5 = sticky_recv_result_replayed_without_recvmsg[
      where w = ?D and s = 0 and P = ex_platform and K = "ex_kernel 0" and dev = 1
        and rest = "[2, 3, 4]" and out = DOIO_SUCCESS and v = ?h1,
      OF u, THEN conjunct2, THEN conjunct2, THEN conjunct2, THEN conjunct2, THEN mp, OF h5]
  have c5: "\<exists>w' ds. internal_recv ex_platform (ex_kernel 0) 0 ex_drain_world = Inr w'
          \<and> recv_calls w' = 1 \<and> recv_result (socks w' 0) = ISC_R_UNEXPECTED
          \<and> recv_list (socks w' 0) = [] \<and> taskq w' = ds
          \<and> completions ds = [(Some 1, ISC_R_UNEXPECTED), (Some 2, ISC_R_UNEXPECTED),
                               (Some 3, ISC_R_UNEXPECTED), (Some 4, ISC_R_UNEXPECTED)]"
    using t5 by (simp add: g)
  have tcp: "stype (socks ?H 0) = isc_sockettype_tcp" by (simp add: g)
  have lh: "ev_bufferlist (events ?H 1) = []" by (simp add: g)
  from doio_recv_whole_region[OF bh tcp k(3) _ lh]
  obtain a1 dd where fst: "doio_recv ex_platform (ex_kernel 1 0) 0 1 ?H = Inr (DOIO_SUCCESS, a1)"
      "socks a1 = (socks ?H)(0 := (socks ?H 0)\<lparr>recv_list := remove1 1 (recv_list (socks ?H 0))\<rparr>)"
      "recv_calls a1 = Suc (recv_calls ?H)" "taskq a1 = taskq ?H @ [dd]"
      "completions [dd] = [(Some 1, ISC_R_SUCCESS)]"
      "\<forall>p. p \<noteq> 1 \<longrightarrow> events a1 p = events ?H p"
    using k(3) by auto
  have ga: "recv_list (socks a1 0) = 2 # [3, 4]" "recv_result (socks a1 0) = ISC_R_SUCCESS"
      "recv_calls a1 = 1" "taskq a1 = [dd]" "events a1 2 = events ?D 2"
    using fst(2-6) by (simp_all add: g)
  have step: "recv_drain ex_platform (ex_kernel 1) 0 ?H = recv_drain ex_platform (ex_kernel 1) 0 a1"
    using fst(1) g(8) by (subst recv_drain.simps) (simp add: g del: recv_drain.simps)
  from build_msghdr_recv_region[of a1 2 ex_platform 0 "MAXSCATTERGATHER_RECV ex_platform"]
  obtain a0 where ba: "build_msghdr_recv ex_platform 0 2 (MAXSCATTERGATHER_RECV ex_platform) a1
                         = Inr (16, a0)"
    by (auto simp: g ga)
  let ?a2 = "send_recvdone_event 0 2 ISC_R_UNEXPECTED
               (upd_sock 0 (\<lambda>k. k\<lparr>recv_result := ISC_R_UNEXPECTED\<rparr>)
                  (a0\<lparr>recv_calls := Suc (recv_calls a0)\<rparr>))"
  have xa: "doio_recv ex_platform (ex_kernel 1 (recv_calls a1)) 0 2 a1 = Inr (DOIO_SUCCESS, ?a2)"
    using doio_recv_other_errno[OF ba k(1)[of 1] k(2)[of 1]] by (simp add: ga)
  have sa: "recv_result (socks ?a2 0) = ISC_R_UNEXPECTED"
    by (simp add: send_recvdone_event_socks)
  have h6: "recv_result (socks a1 0) = ISC_R_SUCCESS
       \<and> recv_list (socks a1 0) = 2 # [3, 4]
       \<and> ev_type (events a1 2) \<noteq> ISC_SOCKEVENT_RECVMARK
       \<and> doio_recv ex_platform (ex_kernel 1 (recv_calls a1)) 0 2 a1 = Inr (DOIO_SUCCESS, ?a2)
       \<and> recv_result (socks ?a2 0) = ISC_R_UNEXPECTED"
    using xa sa ga g(9) by simp
  note t6 = sticky_recv_result_replayed_without_recvmsg[
      where w = a1 and s = 0 and P = ex_platform and K = "ex_kernel 1" and dev = 2
        and rest = "[3, 4]" and out = DOIO_SUCCESS and v = ?a2,
      OF u, THEN conjunct2, THEN conjunct2, THEN conjunct2, THEN conjunct1, THEN mp, OF h6]
  then obtain w' ds where fin: "recv_drain ex_platform (ex_kernel 1) 0 a1 = Inr w'"
      "recv_calls w' = 2" "recv_result (socks w' 0) = ISC_R_UNEXPECTED"
      "recv_list (socks w' 0) = []" "taskq w' = dd # ds"
      "completions ds = [(Some 2, ISC_R_UNEXPECTED), (Some 3, ISC_R_UNEXPECTED),
                         (Some 4, ISC_R_UNEXPECTED)]"
    by (auto simp: ga simp del: recv_drain.simps)
  have ir: "internal_recv ex_platform (ex_kernel 1) 0 ?D = Inr w'"
    using fin(1,4) step by (simp add: internal_recv_def Let_def g del: recv_drain.simps)
  have "completions (dd # ds) = [(Some 1, ISC_R_SUCCESS), (Some 2, ISC_R_UNEXPECTED),
                               (Some 3, ISC_R_UNEXPECTED), (Some 4, ISC_R_UNEXPECTED)]"
    using fin(6) fst(5) completions_append[of "[dd]" ds] by simp
  then have c6: "\<exists>w' ds. internal_recv ex_platform (ex_kernel 1) 0 ex_drain_world = Inr w'
          \<and> recv_calls w' = 2 \<and> recv_result (socks w' 0) = ISC_R_UNEXPECTED
          \<and> recv_list (socks w' 0) = [] \<and> taskq w' = ds
          \<and> completions ds = [(Some 1, ISC_R_SUCCESS), (Some 2, ISC_R_UNEXPECTED),
                               (Some 3, ISC_R_UNEXPECTED), (Some 4, ISC_R_UNEXPECTED)]"
    using ir fin by (intro exI[of _ w'] exI[of _ "dd # ds"]) simp
  show ?thesis using c1 c2 c3 c4 c5 c6 by blast
qed

lemma doio_recv_eof:
  assumes b: "build_msghdr_recv P s dev (MAXSCATTERGATHER_RECV P) w = Inr (rc, w0)"
    and t: "stype (socks w s) = isc_sockettype_tcp" and cc: "r_cc msghdr = 0"
  shows "doio_recv P msghdr s dev w =
           Inr (DOIO_EOF, upd_sock s (\<lambda>k. k\<lparr>recv_result := ISC_R_EOF\<rparr>)
                            (w0\<lparr>recv_calls := Suc (recv_calls w0)\<rparr>))"
proof -
  have "socks w0 = socks w" using build_msghdr_recv_world[OF b] by simp
  then show ?thesis using t cc by (simp add: doio_recv_def b Let_def)
qed

text \<open>
  C4. When recvmsg returns 0 on a stream socket while \<open>internal_recv\<close> drains the
  queue (the request at the head is not a marker and no sticky result is set), every
  request then on the recv queue, markers included, is dequeued and completed with EOF in
  queue order, and the sticky \<open>recv_result\<close> is EOF. The first part is about the loop
  at any of its iterations, the second about \<open>internal_recv\<close> as a whole.
\<close>

theorem eof_completes_every_queued_recv:
  assumes q: "recv_list (socks w s) = dev # rest"
    and m: "ev_type (events w dev) \<noteq> ISC_SOCKEVENT_RECVMARK"
    and r: "recv_result (socks w s) = ISC_R_SUCCESS"
    and t: "stype (socks w s) = isc_sockettype_tcp"
    and cc: "r_cc (K (recv_calls w)) = 0"
    and b: "build_msghdr_recv P s dev (MAXSCATTERGATHER_RECV P) w = Inr (rc, w0)"
  shows "(\<exists>w' ds. recv_drain P K s w = Inr w'
            \<and> recv_list (socks w' s) = [] \<and> recv_result (socks w' s) = ISC_R_EOF
            \<and> recv_calls w' = Suc (recv_calls w)
            \<and> taskq w' = taskq w @ ds
            \<and> completions ds = map (\<lambda>p. (Some p, ISC_R_EOF)) (dev # rest))
       \<and> (pending_recv (socks w s) \<and> 1 < references (socks w s) \<longrightarrow>
           (\<exists>w' ds. internal_recv P K s w = Inr w'
              \<and> recv_list (socks w' s) = [] \<and> recv_result (socks w' s) = ISC_R_EOF
              \<and> recv_calls w' = Suc (recv_calls w)
              \<and> taskq w' = taskq w @ ds
              \<and> completions ds = map (\<lambda>p. (Some p, ISC_R_EOF)) (dev # rest)))"
proof -
  have drain: "\<exists>w' ds. recv_drain P K s v = Inr w'
            \<and> recv_list (socks w' s) = [] \<and> recv_result (socks w' s) = ISC_R_EOF
            \<and> recv_calls w' = Suc (recv_calls w)
            \<and> taskq w' = taskq w @ ds
            \<and> completions ds = map (\<lambda>p. (Some p, ISC_R_EOF)) (dev # rest)"
    if v: "socks v s = (socks w s)\<lparr>pending_recv := pr, references := rf\<rparr>"
          "events v = events w" "taskq v = taskq w" "recv_calls v = recv_calls w"
          "build_msghdr_recv P s dev (MAXSCATTERGATHER_RECV P) v = Inr (rc, v0)"
    for v v0 pr rf
  proof -
    from build_msghdr_recv_world[OF v(5)]
    have v0: "socks v0 = socks v" "taskq v0 = taskq v" "recv_calls v0 = recv_calls v"
      by simp_all
    let ?v1 = "upd_sock s (\<lambda>k. k\<lparr>recv_result := ISC_R_EOF\<rparr>)
                 (v0\<lparr>recv_calls := Suc (recv_calls v0)\<rparr>)"
    have d: "doio_recv P (K (recv_calls v)) s dev v = Inr (DOIO_EOF, ?v1)"
      using doio_recv_eof[OF v(5)] t cc v by simp
    have e: "recv_drain P K s v = Inr (eof_cascade s dev ?v1)"
      using q m r v d by (subst recv_drain.simps) simp
    have l: "recv_list (socks ?v1 s) = dev # rest"
      using q v v0 by simp
    from eof_cascade_all[OF l] obtain ds where h:
        "recv_list (socks (eof_cascade s dev ?v1) s) = []"
        "recv_result (socks (eof_cascade s dev ?v1) s) = recv_result (socks ?v1 s)"
        "recv_calls (eof_cascade s dev ?v1) = recv_calls ?v1"
        "taskq (eof_cascade s dev ?v1) = taskq ?v1 @ ds"
        "completions ds = map (\<lambda>p. (Some p, ISC_R_EOF)) (dev # rest)"
      by blast
    show ?thesis
      unfolding e using h v v0
      by (intro exI[of _ "eof_cascade s dev ?v1"] exI[of _ ds]) simp
  qed
  show ?thesis
  proof (intro conjI impI)
    show "\<exists>w' ds. recv_drain P K s w = Inr w'
            \<and> recv_list (socks w' s) = [] \<and> recv_result (socks w' s) = ISC_R_EOF
            \<and> recv_calls w' = Suc (recv_calls w)
            \<and> taskq w' = taskq w @ ds
            \<and> completions ds = map (\<lambda>p. (Some p, ISC_R_EOF)) (dev # rest)"
      by (rule drain[where pr = "pending_recv (socks w s)" and rf = "references (socks w s)",
                     OF _ _ _ _ b]) simp_all
  next
    assume p: "pending_recv (socks w s) \<and> 1 < references (socks w s)"
    let ?w2 = "upd_sock s (\<lambda>k. k\<lparr>references := references k - 1\<rparr>)
                 (upd_sock s (\<lambda>k. k\<lparr>pending_recv := False\<rparr>) w)"
    have "\<exists>v0. build_msghdr_recv P s dev (MAXSCATTERGATHER_RECV P) ?w2 = Inr (rc, v0)"
      using b by (auto simp: build_msghdr_recv_def Let_def split: if_splits sum.splits)
    then obtain v0 where b2:
        "build_msghdr_recv P s dev (MAXSCATTERGATHER_RECV P) ?w2 = Inr (rc, v0)" ..
    from drain[where v = ?w2 and pr = False and rf = "references (socks w s) - 1", OF _ _ _ _ b2]
    obtain w' ds where h: "recv_drain P K s ?w2 = Inr w'"
        "recv_list (socks w' s) = []" "recv_result (socks w' s) = ISC_R_EOF"
        "recv_calls w' = Suc (recv_calls w)" "taskq w' = taskq w @ ds"
        "completions ds = map (\<lambda>p. (Some p, ISC_R_EOF)) (dev # rest)"
      by auto
    have "internal_recv P K s w = Inr w'"
      using p h(1) h(2) references_after_decrement[of "references (socks w s)"]
      by (simp add: internal_recv_def Let_def)
    then show "\<exists>w' ds. internal_recv P K s w = Inr w'
              \<and> recv_list (socks w' s) = [] \<and> recv_result (socks w' s) = ISC_R_EOF
              \<and> recv_calls w' = Suc (recv_calls w)
              \<and> taskq w' = taskq w @ ds
              \<and> completions ds = map (\<lambda>p. (Some p, ISC_R_EOF)) (dev # rest)"
      using h by (intro exI[of _ w'] exI[of _ ds]) simp
  qed
qed

theorem eof_completes_every_queued_recv_witness:
  "(\<exists>w' ds. recv_drain ex_platform (\<lambda>_. ex_recvmsg 0 ENONE) 0 ex_eof_world = Inr w'
       \<and> recv_list (socks w' 0) = [] \<and> recv_result (socks w' 0) = ISC_R_EOF
       \<and> recv_calls w' = 1 \<and> taskq w' = ds
       \<and> completions ds = [(Some 1, ISC_R_EOF), (Some 2, ISC_R_EOF), (Some 3, ISC_R_EOF)])
   \<and> (\<exists>w' ds. internal_recv ex_platform (\<lambda>_. ex_recvmsg 0 ENONE) 0 ex_eof_world = Inr w'
       \<and> recv_list (socks w' 0) = [] \<and> recv_result (socks w' 0) = ISC_R_EOF
       \<and> recv_calls w' = 1 \<and> taskq w' = ds
       \<and> completions ds = [(Some 1, ISC_R_EOF), (Some 2, ISC_R_EOF), (Some 3, ISC_R_EOF)])"
proof -
  have q: "recv_list (socks ex_eof_world 0) = 1 # [2, 3]"
    and m: "ev_type (events ex_eof_world 1) \<noteq> ISC_SOCKEVENT_RECVMARK"
    and r: "recv_result (socks ex_eof_world 0) = ISC_R_SUCCESS"
    and t: "stype (socks ex_eof_world 0) = isc_sockettype_tcp"
    and f: "taskq ex_eof_world = []" "recv_calls ex_eof_world = 0"
           "pending_recv (socks ex_eof_world 0)" "references (socks ex_eof_world 0) = 2"
    by (simp_all add: ex_eof_world_def ex_world_def ex_sock_def ex_event_def)
  have cc: "r_cc ((\<lambda>_. ex_recvmsg 0 ENONE) (recv_calls ex_eof_world)) = 0"
    by (simp add: ex_recvmsg_def)
  have b: "build_msghdr_recv ex_platform 0 1 (MAXSCATTERGATHER_RECV ex_platform) ex_eof_world
             = Inr (16, upd_event 1 (\<lambda>e. e\<lparr>ev_address := address (socks ex_eof_world 0)\<rparr>)
                          ex_eof_world)"
    by (simp add: build_msghdr_recv_def ex_eof_world_def ex_world_def ex_sock_def ex_event_def
          Let_def)
  show ?thesis
    using eof_completes_every_queued_recv[OF q m r t cc b] by (simp add: f)
qed

subsection \<open>Kernel errors on datagram sockets\<close>

lemma doio_report_same [simp]:
  "taskq w' = taskq w \<Longrightarrow> doio_report w (Inr (out, w')) = Some (out, [])"
  by (simp add: doio_report_def)

lemma doio_report_recvdone [simp]:
  "taskq w1 = taskq w \<Longrightarrow>
   doio_report w (Inr (out, send_recvdone_event s dev rc w1)) = Some (out, [(Some dev, rc)])"
  by (simp add: doio_report_def send_recvdone_event_taskq)

lemma completions_senddone [simp]:
  "completions [task_send_mode e t (SocketEvent dev (senddone s dev rc w))] = [(Some dev, rc)]"
  by (simp add: completions_def senddone_def)

lemma doio_report_senddone [simp]:
  "taskq w1 = taskq w \<Longrightarrow>
   doio_report w (Inr (out, send_senddone_event s dev rc w1)) = Some (out, [(Some dev, rc)])"
  by (simp add: doio_report_def send_senddone_event_taskq)





subsection \<open>Empty datagrams\<close>

lemma update_buffers_zero [simp]: "update_buffers 0 bs = Inr bs"
  by (cases bs) simp_all

lemma cmsg_loop_fields [simp]:
  "ev_n (cmsg_loop P cs e) = ev_n e"
  "ev_minimum (cmsg_loop P cs e) = ev_minimum e"
  "ev_bufferlist (cmsg_loop P cs e) = ev_bufferlist e"
  "ev_type (cmsg_loop P cs e) = ev_type e"
  by (induction cs arbitrary: e; simp split: cmsg.splits)+

lemma process_cmsg_fields [simp]:
  "ev_n (process_cmsg P msg e) = ev_n e"
  "ev_minimum (process_cmsg P msg e) = ev_minimum e"
  "ev_bufferlist (process_cmsg P msg e) = ev_bufferlist e"
  "ev_type (process_cmsg P msg e) = ev_type e"
  by (simp_all add: process_cmsg_def Let_def)

lemma doio_recv_empty_datagram:
  assumes udp: "stype (socks w s) = isc_sockettype_udp" and cc: "r_cc msghdr = 0"
    and n: "ev_n (events w dev) = 0" and m: "ev_minimum (events w dev) = 1"
    and b: "build_msghdr_recv P s dev (MAXSCATTERGATHER_RECV P) w = Inr (read_count, w0)"
    and rc: "0 < read_count"
  shows "\<exists>w'. doio_recv P msghdr s dev w = Inr (DOIO_SOFT, w')
           \<and> taskq w' = taskq w \<and> socks w' = socks w \<and> pokes w' = pokes w
           \<and> recv_calls w' = Suc (recv_calls w)
           \<and> ev_n (events w' dev) = 0 \<and> ev_minimum (events w' dev) = 1
           \<and> ev_type (events w' dev) = ev_type (events w dev)
           \<and> (\<forall>d. d \<noteq> dev \<longrightarrow> events w' d = events w d)"
proof -
  from build_msghdr_recv_world[OF b]
  have w0: "socks w0 = socks w" "taskq w0 = taskq w" "pokes w0 = pokes w"
      "recv_calls w0 = recv_calls w"
      "events w0 = (events w)(dev := (events w dev)\<lparr>ev_address := ev_address (events w0 dev)\<rparr>)"
    by simp_all
  have e0: "ev_n (events w0 dev) = 0" "ev_minimum (events w0 dev) = 1"
      "ev_type (events w0 dev) = ev_type (events w dev)"
      "\<And>d. d \<noteq> dev \<Longrightarrow> events w0 d = events w d"
    using n m by (subst w0(5), simp)+
  show ?thesis
    using udp cc rc w0(1-4) e0
    by (simp add: doio_recv_def b Let_def)
qed

text \<open>
  C10. On a datagram socket, for a request that can still take data (read_count > 0) and
  has the minimum 1 and the count 0 that \<open>isc_socket_recv\<close> gives it, a recvmsg that
  returns 0 bytes makes \<open>doio_recv\<close> return DOIO_SOFT: no completion event is emitted
  and the request stays as it was. Posted inline, the request is queued and the watcher
  poked; met while draining, the request stays at the head of the queue and the loop
  stops. In each case recvmsg has been called exactly once, so the empty datagram has
  been taken from the kernel, and nothing reports it: it is dropped.
\<close>

theorem empty_datagram_is_soft:
  assumes udp: "stype (socks w s) = isc_sockettype_udp" and cc: "r_cc msghdr = 0"
  shows
   "(ev_n (events w dev) = 0 \<and> ev_minimum (events w dev) = 1
       \<and> build_msghdr_recv P s dev (MAXSCATTERGATHER_RECV P) w = Inr (read_count, w0)
       \<and> 0 < read_count \<longrightarrow>
       (\<exists>w'. doio_recv P msghdr s dev w = Inr (DOIO_SOFT, w')
          \<and> recv_calls w' = Suc (recv_calls w)
          \<and> taskq w' = taskq w \<and> recv_list (socks w' s) = recv_list (socks w s)
          \<and> ev_n (events w' dev) = 0 \<and> ev_minimum (events w' dev) = 1))
  \<and> (recv_list (socks w s) = [] \<and> recv_result (socks w s) = ISC_R_SUCCESS
       \<and> minimum \<le> rg_length region \<and> 0 < rg_length region \<longrightarrow>
       (\<exists>w'. isc_socket_recv P msghdr (Some dev) s region minimum task w
                = Inr (ISC_R_SUCCESS, w')
          \<and> recv_calls w' = Suc (recv_calls w)
          \<and> taskq w' = taskq w \<and> recv_list (socks w' s) = [dev]
          \<and> pokes w' = pokes w @ [fd (socks w s)]
          \<and> ev_n (events w' dev) = 0 \<and> ev_minimum (events w' dev) = 1))
  \<and> (recv_list (socks w s) = dev # rest \<and> recv_result (socks w s) = ISC_R_SUCCESS
       \<and> ev_type (events w dev) \<noteq> ISC_SOCKEVENT_RECVMARK
       \<and> ev_n (events w dev) = 0 \<and> ev_minimum (events w dev) = 1
       \<and> build_msghdr_recv P s dev (MAXSCATTERGATHER_RECV P) w = Inr (read_count, w0)
       \<and> 0 < read_count \<and> K (recv_calls w) = msghdr \<longrightarrow>
       (\<exists>w'. recv_drain P K s w = Inr w'
          \<and> recv_calls w' = Suc (recv_calls w)
          \<and> taskq w' = taskq w \<and> recv_list (socks w' s) = dev # rest
          \<and> ev_n (events w' dev) = 0 \<and> ev_minimum (events w' dev) = 1))"
proof (intro conjI impI)
  assume a: "ev_n (events w dev) = 0 \<and> ev_minimum (events w dev) = 1
       \<and> build_msghdr_recv P s dev (MAXSCATTERGATHER_RECV P) w = Inr (read_count, w0)
       \<and> 0 < read_count"
  from doio_recv_empty_datagram[OF udp cc, of dev P read_count w0] a
  show "\<exists>w'. doio_recv P msghdr s dev w = Inr (DOIO_SOFT, w')
          \<and> recv_calls w' = Suc (recv_calls w)
          \<and> taskq w' = taskq w \<and> recv_list (socks w' s) = recv_list (socks w s)
          \<and> ev_n (events w' dev) = 0 \<and> ev_minimum (events w' dev) = 1"
    by auto
next
  assume a: "recv_list (socks w s) = [] \<and> recv_result (socks w s) = ISC_R_SUCCESS
       \<and> minimum \<le> rg_length region \<and> 0 < rg_length region"
  let ?w2 = "upd_event dev
               (\<lambda>e. e\<lparr>ev_minimum := 1, ev_result := ISC_R_SUCCESS, ev_n := 0,
                      ev_region := region, ev_sender := Task task\<rparr>)
               (allocate_socketevent s ISC_SOCKEVENT_RECVDONE dev w)"
  have e: "isc_socket_recv P msghdr (Some dev) s region minimum task w
             = recv_try P msghdr s dev task ?w2"
    using a udp by (simp add: isc_socket_recv_def Let_def)
  have f: "socks ?w2 = socks w" "taskq ?w2 = taskq w" "pokes ?w2 = pokes w"
      "ev_n (events ?w2 dev) = 0" "ev_minimum (events ?w2 dev) = 1"
      "ev_bufferlist (events ?w2 dev) = []" "ev_region (events ?w2 dev) = region"
      "recv_calls ?w2 = recv_calls w"
    by (simp_all add: allocate_socketevent_def)
  from build_msghdr_recv_region[OF f(6), of P s "MAXSCATTERGATHER_RECV P"]
  obtain v0 where b: "build_msghdr_recv P s dev (MAXSCATTERGATHER_RECV P) ?w2
                        = Inr (rg_length region, v0)"
    unfolding f(4) f(7) by auto
  have udp2: "stype (socks ?w2 s) = isc_sockettype_udp" using udp f(1) by simp
  from doio_recv_empty_datagram[OF udp2 cc f(4) f(5) b] a
  obtain w' where h: "doio_recv P msghdr s dev ?w2 = Inr (DOIO_SOFT, w')"
      "taskq w' = taskq ?w2" "socks w' = socks ?w2" "pokes w' = pokes ?w2"
      "ev_n (events w' dev) = 0" "ev_minimum (events w' dev) = 1"
      "recv_calls w' = Suc (recv_calls ?w2)"
    by auto
  have t: "recv_try P msghdr s dev task ?w2 = Inr (ISC_R_SUCCESS, recv_queue s dev task True w')"
    using a h(1) f(1) by (simp add: recv_try_def Let_def)
  show "\<exists>w'. isc_socket_recv P msghdr (Some dev) s region minimum task w
                = Inr (ISC_R_SUCCESS, w')
          \<and> recv_calls w' = Suc (recv_calls w)
          \<and> taskq w' = taskq w \<and> recv_list (socks w' s) = [dev]
          \<and> pokes w' = pokes w @ [fd (socks w s)]
          \<and> ev_n (events w' dev) = 0 \<and> ev_minimum (events w' dev) = 1"
    unfolding e t using a h(2-7) f(1-3) f(8)
    by (intro exI[of _ "recv_queue s dev task True w'"])
       (simp add: recv_queue_def Let_def)
next
  assume a: "recv_list (socks w s) = dev # rest \<and> recv_result (socks w s) = ISC_R_SUCCESS
       \<and> ev_type (events w dev) \<noteq> ISC_SOCKEVENT_RECVMARK
       \<and> ev_n (events w dev) = 0 \<and> ev_minimum (events w dev) = 1
       \<and> build_msghdr_recv P s dev (MAXSCATTERGATHER_RECV P) w = Inr (read_count, w0)
       \<and> 0 < read_count \<and> K (recv_calls w) = msghdr"
  from doio_recv_empty_datagram[OF udp cc, of dev P read_count w0] a
  obtain w' where h: "doio_recv P msghdr s dev w = Inr (DOIO_SOFT, w')"
      "taskq w' = taskq w" "socks w' = socks w" "ev_n (events w' dev) = 0"
      "ev_minimum (events w' dev) = 1" "recv_calls w' = Suc (recv_calls w)"
    by auto
  have "recv_drain P K s w = Inr w'"
    using a h(1) by (subst recv_drain.simps) simp
  then show "\<exists>w'. recv_drain P K s w = Inr w'
          \<and> recv_calls w' = Suc (recv_calls w)
          \<and> taskq w' = taskq w \<and> recv_list (socks w' s) = dev # rest
          \<and> ev_n (events w' dev) = 0 \<and> ev_minimum (events w' dev) = 1"
    using a h by (intro exI[of _ w']) simp
qed

theorem empty_datagram_is_soft_witness:
  "(\<exists>w'. doio_recv ex_platform (ex_recvmsg 0 ENONE) 0 4 (ex_dgram_world [4])
             = Inr (DOIO_SOFT, w')
        \<and> recv_calls w' = 1
        \<and> taskq w' = [] \<and> recv_list (socks w' 0) = [4] \<and> ev_n (events w' 4) = 0)
   \<and> (\<exists>w'. isc_socket_recv ex_platform (ex_recvmsg 0 ENONE) (Some 3) 0
             \<lparr>rg_base = 100, rg_length = 16\<rparr> 1 7 (ex_dgram_world [])
             = Inr (ISC_R_SUCCESS, w')
        \<and> recv_calls w' = 1
        \<and> taskq w' = [] \<and> recv_list (socks w' 0) = [3] \<and> pokes w' = [5]
        \<and> ev_n (events w' 3) = 0)
   \<and> (\<exists>w'. recv_drain ex_platform (\<lambda>_. ex_recvmsg 0 ENONE) 0 (ex_dgram_world [4]) = Inr w'
        \<and> recv_calls w' = 1
        \<and> taskq w' = [] \<and> recv_list (socks w' 0) = [4] \<and> ev_n (events w' 4) = 0)"
proof -
  have udp: "stype (socks (ex_dgram_world q) 0) = isc_sockettype_udp" for q
    by (simp add: ex_dgram_world_def ex_world_def ex_sock_def)
  have cc: "r_cc (ex_recvmsg 0 ENONE) = 0" by (simp add: ex_recvmsg_def)
  have f: "recv_list (socks (ex_dgram_world q) 0) = q" "taskq (ex_dgram_world q) = []"
      "pokes (ex_dgram_world q) = []" "fd (socks (ex_dgram_world q) 0) = 5"
      "recv_result (socks (ex_dgram_world q) 0) = ISC_R_SUCCESS"
      "ev_n (events (ex_dgram_world q) 4) = 0" "ev_minimum (events (ex_dgram_world q) 4) = 1"
      "ev_type (events (ex_dgram_world q) 4) \<noteq> ISC_SOCKEVENT_RECVMARK"
      "recv_calls (ex_dgram_world q) = 0" for q
    by (simp_all add: ex_dgram_world_def ex_world_def ex_sock_def ex_event_def)
  have b: "build_msghdr_recv ex_platform 0 4 (MAXSCATTERGATHER_RECV ex_platform)
             (ex_dgram_world [4])
           = Inr (16, upd_event 4 (\<lambda>e. e\<lparr>ev_address := \<lparr>sa = 0, sa_length = 0\<rparr>\<rparr>)
                        (ex_dgram_world [4]))"
    by (simp add: build_msghdr_recv_def ex_dgram_world_def ex_world_def ex_sock_def
          ex_event_def Let_def)
  note t1 = empty_datagram_is_soft[
      where w = "ex_dgram_world [4]" and s = 0 and msghdr = "ex_recvmsg 0 ENONE" and dev = 4
        and P = ex_platform and read_count = 16 and rest = "[]"
        and K = "\<lambda>_. ex_recvmsg 0 ENONE"
        and w0 = "upd_event 4 (\<lambda>e. e\<lparr>ev_address := \<lparr>sa = 0, sa_length = 0\<rparr>\<rparr>)
                    (ex_dgram_world [4])"
        and region = "\<lparr>rg_base = 100, rg_length = 16\<rparr>" and minimum = 1 and task = 7,
      OF udp cc]
  note t2 = empty_datagram_is_soft[
      where w = "ex_dgram_world []" and s = 0 and msghdr = "ex_recvmsg 0 ENONE" and dev = 3
        and P = ex_platform and region = "\<lparr>rg_base = 100, rg_length = 16\<rparr>"
        and minimum = 1 and task = 7,
      OF udp cc]
  have c1: "\<exists>w'. doio_recv ex_platform (ex_recvmsg 0 ENONE) 0 4 (ex_dgram_world [4])
                   = Inr (DOIO_SOFT, w')
        \<and> recv_calls w' = 1
        \<and> taskq w' = [] \<and> recv_list (socks w' 0) = [4] \<and> ev_n (events w' 4) = 0"
    using t1 b by (auto simp: f)
  have c3: "\<exists>w'. recv_drain ex_platform (\<lambda>_. ex_recvmsg 0 ENONE) 0 (ex_dgram_world [4])
                   = Inr w'
        \<and> recv_calls w' = 1
        \<and> taskq w' = [] \<and> recv_list (socks w' 0) = [4] \<and> ev_n (events w' 4) = 0"
    using t1 b by (auto simp: f)
  have c2: "\<exists>w'. isc_socket_recv ex_platform (ex_recvmsg 0 ENONE) (Some 3) 0
             \<lparr>rg_base = 100, rg_length = 16\<rparr> 1 7 (ex_dgram_world [])
             = Inr (ISC_R_SUCCESS, w')
        \<and> recv_calls w' = 1
        \<and> taskq w' = [] \<and> recv_list (socks w' 0) = [3] \<and> pokes w' = [5]
        \<and> ev_n (events w' 3) = 0"
    using t2 by (auto simp: f)
  show ?thesis using c1 c2 c3 by blast
qed

subsection \<open>The fatal-error attribute\<close>

lemma cmsg_loop_fatalerror [simp]:
  "ISC_SOCKEVENTATTR_FATALERROR \<in> ev_attributes (cmsg_loop P cs e)
     \<longleftrightarrow> ISC_SOCKEVENTATTR_FATALERROR \<in> ev_attributes e"
  by (induction cs arbitrary: e) (simp_all split: cmsg.splits)

lemma process_cmsg_fatalerror [simp]:
  "ISC_SOCKEVENTATTR_FATALERROR \<in> ev_attributes (process_cmsg P msg e)
     \<longleftrightarrow> ISC_SOCKEVENTATTR_FATALERROR \<in> ev_attributes e"
  by (simp add: process_cmsg_def Let_def)

lemma recvdone_fatalerror:
  "ISC_SOCKEVENTATTR_FATALERROR \<in> ev_attributes (recvdone s dev rc w)
     \<longleftrightarrow> ISC_SOCKEVENTATTR_FATALERROR \<in> ev_attributes (events w dev)
          \<or> recv_result (socks w s) \<noteq> ISC_R_SUCCESS"
  by (simp add: recvdone_def)

lemma senddone_fatalerror:
  "ISC_SOCKEVENTATTR_FATALERROR \<in> ev_attributes (senddone s dev rc w)
     \<longleftrightarrow> ISC_SOCKEVENTATTR_FATALERROR \<in> ev_attributes (events w dev)
          \<or> send_result (socks w s) \<noteq> ISC_R_SUCCESS"
  by (simp add: senddone_def)

lemma send_recvdone_event_fatalerror:
  assumes "ISC_SOCKEVENTATTR_FATALERROR \<in> ev_attributes (events (send_recvdone_event s dev rc v) d)"
  shows "ISC_SOCKEVENTATTR_FATALERROR \<in> ev_attributes (events v d)
         \<or> (d = dev \<and> recv_result (socks (send_recvdone_event s dev rc v) s) \<noteq> ISC_R_SUCCESS)"
  using assms
  by (cases "d = dev")
     (simp_all add: send_recvdone_event_events send_recvdone_event_socks recvdone_fatalerror)

lemma send_senddone_event_fatalerror:
  assumes "ISC_SOCKEVENTATTR_FATALERROR \<in> ev_attributes (events (send_senddone_event s dev rc v) d)"
  shows "ISC_SOCKEVENTATTR_FATALERROR \<in> ev_attributes (events v d)
         \<or> (d = dev \<and> send_result (socks (send_senddone_event s dev rc v) s) \<noteq> ISC_R_SUCCESS)"
  using assms
  by (cases "d = dev")
     (simp_all add: send_senddone_event_events send_senddone_event_socks senddone_fatalerror)

lemma SOFT_OR_HARD_recv_fatalerror:
  assumes "SOFT_OR_HARD_recv s dev isc v = (out, v')"
    and "ISC_SOCKEVENTATTR_FATALERROR \<in> ev_attributes (events v' d)"
  shows "ISC_SOCKEVENTATTR_FATALERROR \<in> ev_attributes (events v d)
         \<or> (d = dev \<and> out = DOIO_HARD \<and> recv_result (socks v' s) \<noteq> ISC_R_SUCCESS)"
proof (cases "connected (socks v s)")
  case False
  then show ?thesis using assms by (simp add: SOFT_OR_HARD_recv_def)
next
  case True
  let ?v1 = "if stype (socks v s) = isc_sockettype_tcp
             then upd_sock s (\<lambda>k. k\<lparr>recv_result := isc\<rparr>) v else v"
  have o: "out = DOIO_HARD" "v' = send_recvdone_event s dev isc ?v1"
    using assms(1) True by (simp_all add: SOFT_OR_HARD_recv_def)
  have "events ?v1 = events v" by simp
  with send_recvdone_event_fatalerror[of s dev isc ?v1 d] assms(2) o
  show ?thesis by simp
qed

lemma SOFT_OR_HARD_send_fatalerror:
  assumes "SOFT_OR_HARD_send s dev isc v = (out, v')"
    and "ISC_SOCKEVENTATTR_FATALERROR \<in> ev_attributes (events v' d)"
  shows "ISC_SOCKEVENTATTR_FATALERROR \<in> ev_attributes (events v d)
         \<or> (d = dev \<and> out = DOIO_HARD \<and> send_result (socks v' s) \<noteq> ISC_R_SUCCESS)"
proof (cases "connected (socks v s)")
  case False
  then show ?thesis using assms by (simp add: SOFT_OR_HARD_send_def)
next
  case True
  let ?v1 = "if stype (socks v s) = isc_sockettype_tcp
             then upd_sock s (\<lambda>k. k\<lparr>send_result := isc\<rparr>) v else v"
  have o: "out = DOIO_HARD" "v' = send_senddone_event s dev isc ?v1"
    using assms(1) True by (simp_all add: SOFT_OR_HARD_send_def)
  have "events ?v1 = events v" by simp
  with send_senddone_event_fatalerror[of s dev isc ?v1 d] assms(2) o
  show ?thesis by simp
qed

lemma doio_recv_fatalerror:
  assumes r: "doio_recv P msghdr s dev w = Inr (out, w')"
    and f: "ISC_SOCKEVENTATTR_FATALERROR \<in> ev_attributes (events w' d)"
  shows "ISC_SOCKEVENTATTR_FATALERROR \<in> ev_attributes (events w d)
         \<or> (d = dev \<and> (out = DOIO_SUCCESS \<or> out = DOIO_HARD)
             \<and> recv_result (socks w' s) \<noteq> ISC_R_SUCCESS)"
proof -
  obtain rc w0 where b: "build_msghdr_recv P s dev (MAXSCATTERGATHER_RECV P) w = Inr (rc, w0)"
    using r by (auto simp: doio_recv_def split: sum.splits)
  from build_msghdr_recv_world[OF b]
  have w0: "socks w0 = socks w"
      "events w0 = (events w)(dev := (events w dev)\<lparr>ev_address := ev_address (events w0 dev)\<rparr>)"
    by simp_all
  define w1 where "w1 = w0\<lparr>recv_calls := Suc (recv_calls w0)\<rparr>"
  have a1: "ISC_SOCKEVENTATTR_FATALERROR \<in> ev_attributes (events w1 d')
              \<longleftrightarrow> ISC_SOCKEVENTATTR_FATALERROR \<in> ev_attributes (events w d')" for d'
    unfolding w1_def by (simp, subst w0(2), simp)
  have s1: "socks w1 = socks w" unfolding w1_def using w0(1) by simp
  note d = r[unfolded doio_recv_def b, simplified, folded w1_def]
  show ?thesis
  proof (cases "r_cc msghdr < 0")
    case True
    note neg = True
    show ?thesis
    proof (cases "SOFT_ERROR (r_errno msghdr)")
      case True
      then have "w' = w1" using d neg by (simp add: Let_def)
      then show ?thesis using f a1 by simp
    next
      case False
      note hard = False
      show ?thesis
      proof (cases "r_errno msghdr = ECONNREFUSED \<or> r_errno msghdr = ENETUNREACH
                      \<or> r_errno msghdr = EHOSTUNREACH")
        case True
        then obtain isc where "SOFT_OR_HARD_recv s dev isc w1 = (out, w')"
          using d neg hard by (auto simp: Let_def split: if_splits)
        from SOFT_OR_HARD_recv_fatalerror[OF this f] show ?thesis
          using a1 by auto
      next
        case False
        note notmapped = False
        show ?thesis
        proof (cases "r_errno msghdr = ENOBUFS")
          case True
          then have o: "out = DOIO_HARD" "w' = send_recvdone_event s dev ISC_R_NORESOURCES w1"
            using d neg hard notmapped by (simp_all add: Let_def)
          from send_recvdone_event_fatalerror[of s dev ISC_R_NORESOURCES w1 d] f o
          show ?thesis using a1 by auto
        next
          case False
          let ?v = "upd_sock s (\<lambda>k. k\<lparr>recv_result := ISC_R_UNEXPECTED\<rparr>) w1"
          have o: "out = DOIO_SUCCESS" "w' = send_recvdone_event s dev ISC_R_UNEXPECTED ?v"
            using d neg hard notmapped False by (simp_all add: Let_def)
          have "events ?v = events w1" by simp
          with send_recvdone_event_fatalerror[of s dev ISC_R_UNEXPECTED ?v d] f o
          show ?thesis using a1 by auto
        qed
      qed
    qed
  next
    case False
    note nonneg = False
    show ?thesis
    proof (cases "stype (socks w s) = isc_sockettype_tcp \<and> r_cc msghdr = 0")
      case True
      then have "w' = upd_sock s (\<lambda>k. k\<lparr>recv_result := ISC_R_EOF\<rparr>) w1"
        using d nonneg s1 by (simp add: Let_def)
      then show ?thesis using f a1 by simp
    next
      case False
      have e1: "events w1 d' = events w d'" if "d' \<noteq> dev" for d'
        unfolding w1_def using that by (simp, subst w0(2), simp)
      show ?thesis
      proof (cases "d = dev")
        case True
        show ?thesis
          using d nonneg False f a1[of dev] s1 True
          by (auto simp: Let_def send_recvdone_event_events send_recvdone_event_socks
                recvdone_fatalerror split: if_splits sum.splits)
      next
        case False
        then show ?thesis
          using d nonneg \<open>\<not> (stype (socks w s) = isc_sockettype_tcp \<and> r_cc msghdr = 0)\<close>
            f e1[of d] s1
          by (auto simp: Let_def send_recvdone_event_events split: if_splits sum.splits)
      qed
    qed
  qed
qed

lemma doio_send_fatalerror:
  assumes r: "doio_send P ret s dev w = Inr (out, w')"
    and f: "ISC_SOCKEVENTATTR_FATALERROR \<in> ev_attributes (events w' d)"
  shows "ISC_SOCKEVENTATTR_FATALERROR \<in> ev_attributes (events w d)
         \<or> (d = dev \<and> (out = DOIO_SUCCESS \<or> out = DOIO_HARD)
             \<and> send_result (socks w' s) \<noteq> ISC_R_SUCCESS)"
proof -
  obtain wc w0 where b: "build_msghdr_send P s dev (MAXSCATTERGATHER_SEND P) w = Inr (wc, w0)"
    using r by (auto simp: doio_send_def split: sum.splits)
  from build_msghdr_send_world[OF b] have w0: "w0 = w" .
  define w1 where "w1 = w\<lparr>send_calls := Suc (send_calls w)\<rparr>"
  have e1: "events w1 = events w" and s1: "socks w1 = socks w"
    unfolding w1_def by simp_all
  note d = r[unfolded doio_send_def b w0, simplified, folded w1_def]
  show ?thesis
  proof (cases "s_cc ret < 0")
    case True
    note neg = True
    show ?thesis
    proof (cases "SOFT_ERROR (s_errno ret)")
      case True
      then have "w' = w1" using d neg by (simp add: Let_def)
      then show ?thesis using f e1 by simp
    next
      case False
      note hard = False
      show ?thesis
      proof (cases "s_errno ret = ECONNREFUSED \<or> s_errno ret = ENETUNREACH
                      \<or> s_errno ret = EHOSTUNREACH")
        case True
        then obtain isc where "SOFT_OR_HARD_send s dev isc w1 = (out, w')"
          using d neg hard by (auto simp: Let_def split: if_splits)
        from SOFT_OR_HARD_send_fatalerror[OF this f] show ?thesis
          using e1 by auto
      next
        case False
        note notmapped = False
        show ?thesis
        proof (cases "s_errno ret = ENOBUFS")
          case True
          then have o: "out = DOIO_HARD" "w' = send_senddone_event s dev ISC_R_NORESOURCES w1"
            using d neg hard notmapped by (simp_all add: Let_def)
          from send_senddone_event_fatalerror[of s dev ISC_R_NORESOURCES w1 d] f o
          show ?thesis using e1 by auto
        next
          case False
          let ?v = "upd_sock s (\<lambda>k. k\<lparr>send_result := ISC_R_UNEXPECTED\<rparr>) w1"
          have o: "out = DOIO_HARD" "w' = send_senddone_event s dev ISC_R_UNEXPECTED ?v"
            using d neg hard notmapped False by (simp_all add: Let_def)
          have "events ?v = events w1" by simp
          with send_senddone_event_fatalerror[of s dev ISC_R_UNEXPECTED ?v d] f o
          show ?thesis using e1 by auto
        qed
      qed
    qed
  next
    case False
    let ?v = "upd_event dev (\<lambda>e. e\<lparr>ev_n := ev_n e + nat (s_cc ret)\<rparr>) w1"
    have a: "ISC_SOCKEVENTATTR_FATALERROR \<in> ev_attributes (events ?v d)
               \<longleftrightarrow> ISC_SOCKEVENTATTR_FATALERROR \<in> ev_attributes (events w d)"
      using e1 by simp
    have "(out = DOIO_SOFT \<and> w' = ?v)
          \<or> (out = DOIO_SUCCESS \<and> w' = send_senddone_event s dev ISC_R_SUCCESS ?v)"
      using d False by (auto simp: Let_def split: if_splits)
    then show ?thesis
    proof
      assume "out = DOIO_SOFT \<and> w' = ?v"
      then show ?thesis using f a by simp
    next
      assume o: "out = DOIO_SUCCESS \<and> w' = send_senddone_event s dev ISC_R_SUCCESS ?v"
      from send_senddone_event_fatalerror[of s dev ISC_R_SUCCESS ?v d] f o
      show ?thesis using a by auto
    qed
  qed
qed

text \<open>
  C9. An event delivered by \<open>send_recvdone_event\<close> (\<open>send_senddone_event\<close>) carries
  the attributes of the request plus FATALERROR when the sticky \<open>recv_result\<close>
  (\<open>send_result\<close>) of the socket is not Success, and exactly the attributes of the
  request when it is Success. Nothing else sets the flag: a request that gains it during
  \<open>doio_recv\<close> or \<open>doio_send\<close> is the one being processed, was delivered by that
  call (outcome SUCCESS or HARD) and the sticky result is then not Success; a freshly
  allocated request does not have it, and queueing a request does not change it.
\<close>

theorem fatalerror_set_on_delivery_under_sticky_result:
  "(\<exists>d. taskq (send_recvdone_event s dev rc w) = taskq w @ [d]
        \<and> event_ptr (delivery_event d) = Some dev
        \<and> event_attributes (delivery_event d) =
            (if recv_result (socks w s) \<noteq> ISC_R_SUCCESS
             then insert ISC_SOCKEVENTATTR_FATALERROR (ev_attributes (events w dev))
             else ev_attributes (events w dev)))
   \<and> (\<exists>d. taskq (send_senddone_event s dev rc w) = taskq w @ [d]
        \<and> event_ptr (delivery_event d) = Some dev
        \<and> event_attributes (delivery_event d) =
            (if send_result (socks w s) \<noteq> ISC_R_SUCCESS
             then insert ISC_SOCKEVENTATTR_FATALERROR (ev_attributes (events w dev))
             else ev_attributes (events w dev)))
   \<and> (doio_recv P msghdr s dev w = Inr (out, w')
        \<and> ISC_SOCKEVENTATTR_FATALERROR \<in> ev_attributes (events w' p)
        \<and> ISC_SOCKEVENTATTR_FATALERROR \<notin> ev_attributes (events w p) \<longrightarrow>
          p = dev \<and> (out = DOIO_SUCCESS \<or> out = DOIO_HARD)
          \<and> recv_result (socks w' s) \<noteq> ISC_R_SUCCESS)
   \<and> (doio_send P ret s dev w = Inr (out, w')
        \<and> ISC_SOCKEVENTATTR_FATALERROR \<in> ev_attributes (events w' p)
        \<and> ISC_SOCKEVENTATTR_FATALERROR \<notin> ev_attributes (events w p) \<longrightarrow>
          p = dev \<and> (out = DOIO_SUCCESS \<or> out = DOIO_HARD)
          \<and> send_result (socks w' s) \<noteq> ISC_R_SUCCESS)
   \<and> ISC_SOCKEVENTATTR_FATALERROR \<notin> ev_attributes (events (allocate_socketevent s t dev w) dev)
   \<and> (ISC_SOCKEVENTATTR_FATALERROR \<in> ev_attributes (events (recv_queue s dev task b w) p)
        \<longleftrightarrow> ISC_SOCKEVENTATTR_FATALERROR \<in> ev_attributes (events w p))"
proof (intro conjI impI)
  show "\<exists>d. taskq (send_recvdone_event s dev rc w) = taskq w @ [d]
        \<and> event_ptr (delivery_event d) = Some dev
        \<and> event_attributes (delivery_event d) =
            (if recv_result (socks w s) \<noteq> ISC_R_SUCCESS
             then insert ISC_SOCKEVENTATTR_FATALERROR (ev_attributes (events w dev))
             else ev_attributes (events w dev))"
    by (simp add: send_recvdone_event_taskq recvdone_def)
  show "\<exists>d. taskq (send_senddone_event s dev rc w) = taskq w @ [d]
        \<and> event_ptr (delivery_event d) = Some dev
        \<and> event_attributes (delivery_event d) =
            (if send_result (socks w s) \<noteq> ISC_R_SUCCESS
             then insert ISC_SOCKEVENTATTR_FATALERROR (ev_attributes (events w dev))
             else ev_attributes (events w dev))"
    by (simp add: send_senddone_event_taskq senddone_def)
  show "ISC_SOCKEVENTATTR_FATALERROR \<notin> ev_attributes (events (allocate_socketevent s t dev w) dev)"
    by (simp add: allocate_socketevent_def)
  show "ISC_SOCKEVENTATTR_FATALERROR \<in> ev_attributes (events (recv_queue s dev task b w) p)
        \<longleftrightarrow> ISC_SOCKEVENTATTR_FATALERROR \<in> ev_attributes (events w p)"
    by (simp add: recv_queue_def Let_def)
next
  assume a: "doio_recv P msghdr s dev w = Inr (out, w')
        \<and> ISC_SOCKEVENTATTR_FATALERROR \<in> ev_attributes (events w' p)
        \<and> ISC_SOCKEVENTATTR_FATALERROR \<notin> ev_attributes (events w p)"
  from doio_recv_fatalerror[of P msghdr s dev w out w' p] a
  show "p = dev" "out = DOIO_SUCCESS \<or> out = DOIO_HARD"
    "recv_result (socks w' s) \<noteq> ISC_R_SUCCESS"
    by blast+
next
  assume a: "doio_send P ret s dev w = Inr (out, w')
        \<and> ISC_SOCKEVENTATTR_FATALERROR \<in> ev_attributes (events w' p)
        \<and> ISC_SOCKEVENTATTR_FATALERROR \<notin> ev_attributes (events w p)"
  from doio_send_fatalerror[of P ret s dev w out w' p] a
  show "p = dev" "out = DOIO_SUCCESS \<or> out = DOIO_HARD"
    "send_result (socks w' s) \<noteq> ISC_R_SUCCESS"
    by blast+
qed

theorem fatalerror_set_on_delivery_under_sticky_result_witness:
  "(\<exists>d. taskq (send_recvdone_event 0 1 ISC_R_EOF (ex_sticky_world [1])) = [d]
        \<and> event_attributes (delivery_event d) = {ISC_SOCKEVENTATTR_FATALERROR})
   \<and> (\<exists>d. taskq (send_senddone_event 0 1 ISC_R_SUCCESS (ex_sticky_world [1])) = [d]
        \<and> event_attributes (delivery_event d) = {})
   \<and> doio_recv ex_platform (ex_recvmsg (-1) (EOTHER 32)) 0 0 ex_stream_world
        = Inr (DOIO_SUCCESS, ex_after_unexpected_recv)
   \<and> ISC_SOCKEVENTATTR_FATALERROR \<in> ev_attributes (events ex_after_unexpected_recv 0)
   \<and> ISC_SOCKEVENTATTR_FATALERROR \<notin> ev_attributes (events ex_stream_world 0)
   \<and> recv_result (socks ex_after_unexpected_recv 0) \<noteq> ISC_R_SUCCESS
   \<and> doio_send ex_platform (ex_sendmsg (-1) (EOTHER 32)) 0 0 ex_stream_world
        = Inr (DOIO_HARD, ex_after_unexpected_send)
   \<and> ISC_SOCKEVENTATTR_FATALERROR \<in> ev_attributes (events ex_after_unexpected_send 0)
   \<and> send_result (socks ex_after_unexpected_send 0) \<noteq> ISC_R_SUCCESS"
proof -
  have r2: "other_errno (EOTHER 32)"
    by (simp add: other_errno_def SOFT_ERROR_def)
  have r3: "build_msghdr_recv ex_platform 0 0 (MAXSCATTERGATHER_RECV ex_platform) ex_stream_world
              = Inr (16, upd_event 0 (\<lambda>e. e\<lparr>ev_address := address (socks ex_stream_world 0)\<rparr>)
                           ex_stream_world)"
    by (simp add: build_msghdr_recv_def ex_stream_world_def ex_world_def ex_sock_def
          ex_event_def Let_def)
  have s3: "build_msghdr_send ex_platform 0 0 (MAXSCATTERGATHER_SEND ex_platform) ex_stream_world
              = Inr (16, ex_stream_world)"
    by (simp add: build_msghdr_send_def ex_stream_world_def ex_world_def ex_event_def Let_def)
  have c0: "recv_calls ex_stream_world = 0" "send_calls ex_stream_world = 0"
    by (simp_all add: ex_stream_world_def ex_world_def)
  have dr: "doio_recv ex_platform (ex_recvmsg (-1) (EOTHER 32)) 0 0 ex_stream_world
              = Inr (DOIO_SUCCESS, ex_after_unexpected_recv)"
    using doio_recv_other_errno[OF r3, of "ex_recvmsg (-1) (EOTHER 32)"] r2
    by (simp add: ex_recvmsg_def ex_after_unexpected_recv_def c0)
  have ds: "doio_send ex_platform (ex_sendmsg (-1) (EOTHER 32)) 0 0 ex_stream_world
              = Inr (DOIO_HARD, ex_after_unexpected_send)"
    using doio_send_other_errno[OF s3, of "ex_sendmsg (-1) (EOTHER 32)"] r2
    by (simp add: ex_sendmsg_def ex_after_unexpected_send_def c0)
  have fr: "ISC_SOCKEVENTATTR_FATALERROR \<in> ev_attributes (events ex_after_unexpected_recv 0)"
    by (simp add: ex_after_unexpected_recv_def send_recvdone_event_events recvdone_def)
  have fs: "ISC_SOCKEVENTATTR_FATALERROR \<in> ev_attributes (events ex_after_unexpected_send 0)"
    by (simp add: ex_after_unexpected_send_def send_senddone_event_events senddone_def)
  have f0: "ISC_SOCKEVENTATTR_FATALERROR \<notin> ev_attributes (events ex_stream_world 0)"
    by (simp add: ex_stream_world_def ex_world_def ex_event_def)
  have k: "recv_result (socks (ex_sticky_world [1]) 0) \<noteq> ISC_R_SUCCESS"
      "send_result (socks (ex_sticky_world [1]) 0) = ISC_R_SUCCESS"
      "taskq (ex_sticky_world [1]) = []"
      "ev_attributes (events (ex_sticky_world [1]) 1) = {}"
    by (simp_all add: ex_sticky_world_def ex_world_def ex_sock_def ex_event_def)
  note t1 = fatalerror_set_on_delivery_under_sticky_result[
      where s = 0 and dev = 1 and rc = ISC_R_EOF and w = "ex_sticky_world [1]"]
  note t2 = fatalerror_set_on_delivery_under_sticky_result[
      where s = 0 and dev = 1 and rc = ISC_R_SUCCESS and w = "ex_sticky_world [1]"]
  note t3 = fatalerror_set_on_delivery_under_sticky_result[
      where s = 0 and dev = 0 and w = ex_stream_world and P = ex_platform
        and msghdr = "ex_recvmsg (-1) (EOTHER 32)" and out = DOIO_SUCCESS
        and w' = ex_after_unexpected_recv and p = 0]
  note t4 = fatalerror_set_on_delivery_under_sticky_result[
      where s = 0 and dev = 0 and w = ex_stream_world and P = ex_platform
        and ret = "ex_sendmsg (-1) (EOTHER 32)" and out = DOIO_HARD
        and w' = ex_after_unexpected_send and p = 0]
  have c1: "\<exists>d. taskq (send_recvdone_event 0 1 ISC_R_EOF (ex_sticky_world [1])) = [d]
        \<and> event_attributes (delivery_event d) = {ISC_SOCKEVENTATTR_FATALERROR}"
    using t1[THEN conjunct1] k by auto
  have c2: "\<exists>d. taskq (send_senddone_event 0 1 ISC_R_SUCCESS (ex_sticky_world [1])) = [d]
        \<and> event_attributes (delivery_event d) = {}"
    using t2[THEN conjunct2, THEN conjunct1] k by auto
  have c3: "recv_result (socks ex_after_unexpected_recv 0) \<noteq> ISC_R_SUCCESS"
    using t3[THEN conjunct2, THEN conjunct2, THEN conjunct1] dr fr f0 by blast
  have c4: "send_result (socks ex_after_unexpected_send 0) \<noteq> ISC_R_SUCCESS"
    using t4[THEN conjunct2, THEN conjunct2, THEN conjunct2, THEN conjunct1] ds fs f0 by blast
  show ?thesis using c1 c2 c3 c4 dr ds fr fs f0 by blast
qed

subsection \<open>Connect errors reported inline\<close>

lemma isc_task_send_simps [simp]:
  "socks (isc_task_send t e w) = socks w"
  "events (isc_task_send t e w) = events w"
  "taskq (isc_task_send t e w) = taskq w @ [TaskSend t e]"
  "pokes (isc_task_send t e w) = pokes w"
  "manager (isc_task_send t e w) = manager w"
  "freed (isc_task_send t e w) = freed w"
  by (simp_all add: isc_task_send_def)

lemma isc_task_sendanddetach_simps [simp]:
  "socks (isc_task_sendanddetach t e w) = socks w"
  "events (isc_task_sendanddetach t e w) = events w"
  "taskq (isc_task_sendanddetach t e w) = taskq w @ [TaskSendAndDetach t e]"
  "pokes (isc_task_sendanddetach t e w) = pokes w"
  "manager (isc_task_sendanddetach t e w) = manager w"
  "freed (isc_task_sendanddetach t e w) = freed w"
  by (simp_all add: isc_task_sendanddetach_def)

text \<open>
  C5. When the inline connect of \<open>isc_socket_connect\<close> fails with a hard errno (not
  soft and not EINPROGRESS, which are queued): for ECONNREFUSED and ENETUNREACH a
  completion event carrying ConnRefused, respectively NetUnreach, is sent to the task and
  the call returns Success; for any other errno the call returns Unexpected and no event
  is sent. In no case is the connect queued or the watcher poked.
\<close>

theorem isc_socket_connect_hard_errors:
  assumes nc: "\<not> connecting (socks w s)" and cc: "c_cc ret < 0"
    and hard: "\<not> SOFT_ERROR (c_errno ret)" "c_errno ret \<noteq> EINPROGRESS"
  shows "(c_errno ret = ECONNREFUSED \<longrightarrow>
           (\<exists>w'. isc_socket_connect ret (Some cev) s addr task w = Inr (ISC_R_SUCCESS, w')
              \<and> taskq w' = taskq w @
                   [TaskSend (Task task)
                      (ConnectEvent (cev\<lparr>ce_sender := Sock s,
                                           ce_result := ISC_R_CONNREFUSED\<rparr>))]
              \<and> pokes w' = pokes w \<and> connect_ev (socks w' s) = connect_ev (socks w s)
              \<and> \<not> connecting (socks w' s)))
       \<and> (c_errno ret = ENETUNREACH \<longrightarrow>
           (\<exists>w'. isc_socket_connect ret (Some cev) s addr task w = Inr (ISC_R_SUCCESS, w')
              \<and> taskq w' = taskq w @
                   [TaskSend (Task task)
                      (ConnectEvent (cev\<lparr>ce_sender := Sock s,
                                           ce_result := ISC_R_NETUNREACH\<rparr>))]
              \<and> pokes w' = pokes w \<and> connect_ev (socks w' s) = connect_ev (socks w s)
              \<and> \<not> connecting (socks w' s)))
       \<and> (c_errno ret \<noteq> ECONNREFUSED \<and> c_errno ret \<noteq> ENETUNREACH \<longrightarrow>
           (\<exists>w'. isc_socket_connect ret (Some cev) s addr task w = Inr (ISC_R_UNEXPECTED, w')
              \<and> taskq w' = taskq w
              \<and> pokes w' = pokes w \<and> connect_ev (socks w' s) = connect_ev (socks w s)
              \<and> \<not> connecting (socks w' s)))"
  using nc cc hard
  by (auto simp: isc_socket_connect_def Let_def connect_err_exit_def SOFT_ERROR_def)

theorem isc_socket_connect_hard_errors_witness:
  "(\<exists>w'. isc_socket_connect (ex_connect (-1) ECONNREFUSED) (Some ex_connev) 0
            \<lparr>sa = 1, sa_length = 16\<rparr> 7 ex_stream_world = Inr (ISC_R_SUCCESS, w')
        \<and> taskq w' = [TaskSend (Task 7)
                        (ConnectEvent \<lparr>ce_sender = Sock 0, ce_result = ISC_R_CONNREFUSED\<rparr>)])
   \<and> (\<exists>w'. isc_socket_connect (ex_connect (-1) ENETUNREACH) (Some ex_connev) 0
            \<lparr>sa = 1, sa_length = 16\<rparr> 7 ex_stream_world = Inr (ISC_R_SUCCESS, w')
        \<and> taskq w' = [TaskSend (Task 7)
                        (ConnectEvent \<lparr>ce_sender = Sock 0, ce_result = ISC_R_NETUNREACH\<rparr>)])
   \<and> (\<exists>w'. isc_socket_connect (ex_connect (-1) (EOTHER 13)) (Some ex_connev) 0
            \<lparr>sa = 1, sa_length = 16\<rparr> 7 ex_stream_world = Inr (ISC_R_UNEXPECTED, w')
        \<and> taskq w' = [])"
proof -
  have nc: "\<not> connecting (socks ex_stream_world 0)" and q: "taskq ex_stream_world = []"
    by (simp_all add: ex_stream_world_def ex_world_def ex_sock_def)
  have h: "c_cc (ex_connect (-1) e) < 0" "c_errno (ex_connect (-1) e) = e" for e
    by (simp_all add: ex_connect_def)
  have n: "\<not> SOFT_ERROR ECONNREFUSED" "\<not> SOFT_ERROR ENETUNREACH" "\<not> SOFT_ERROR (EOTHER 13)"
    by (simp_all add: SOFT_ERROR_def)
  note t1 = isc_socket_connect_hard_errors[where w = ex_stream_world and s = 0 and ret = "ex_connect (-1) ECONNREFUSED"
      and cev = ex_connev and addr = "\<lparr>sa = 1, sa_length = 16\<rparr>" and task = 7, OF nc h(1)]
  note t2 = isc_socket_connect_hard_errors[where w = ex_stream_world and s = 0 and ret = "ex_connect (-1) ENETUNREACH"
      and cev = ex_connev and addr = "\<lparr>sa = 1, sa_length = 16\<rparr>" and task = 7, OF nc h(1)]
  note t3 = isc_socket_connect_hard_errors[where w = ex_stream_world and s = 0 and ret = "ex_connect (-1) (EOTHER 13)"
      and cev = ex_connev and addr = "\<lparr>sa = 1, sa_length = 16\<rparr>" and task = 7, OF nc h(1)]
  have c1: "\<exists>w'. isc_socket_connect (ex_connect (-1) ECONNREFUSED) (Some ex_connev) 0
            \<lparr>sa = 1, sa_length = 16\<rparr> 7 ex_stream_world = Inr (ISC_R_SUCCESS, w')
        \<and> taskq w' = [TaskSend (Task 7)
                        (ConnectEvent \<lparr>ce_sender = Sock 0, ce_result = ISC_R_CONNREFUSED\<rparr>)]"
    using t1 n by (auto simp: h q ex_connev_def)
  have c2: "\<exists>w'. isc_socket_connect (ex_connect (-1) ENETUNREACH) (Some ex_connev) 0
            \<lparr>sa = 1, sa_length = 16\<rparr> 7 ex_stream_world = Inr (ISC_R_SUCCESS, w')
        \<and> taskq w' = [TaskSend (Task 7)
                        (ConnectEvent \<lparr>ce_sender = Sock 0, ce_result = ISC_R_NETUNREACH\<rparr>)]"
    using t2 n by (auto simp: h q ex_connev_def)
  have c3: "\<exists>w'. isc_socket_connect (ex_connect (-1) (EOTHER 13)) (Some ex_connev) 0
            \<lparr>sa = 1, sa_length = 16\<rparr> 7 ex_stream_world = Inr (ISC_R_UNEXPECTED, w')
        \<and> taskq w' = []"
    using t3 n by (auto simp: h q)
  show ?thesis using c1 c2 c3 by blast
qed

subsection \<open>The watch bits after a poke\<close>




subsection \<open>Cancelling: the poke and the connect slot\<close>

lemma cancel_recv_loop_socks:
  "\<exists>rl. socks (cancel_recv_loop s task xs w) = (socks w)(s := (socks w s)\<lparr>recv_list := rl\<rparr>)"
proof (induction xs arbitrary: w)
  case Nil
  have "socks w = (socks w)(s := (socks w s)\<lparr>recv_list := recv_list (socks w s)\<rparr>)"
    by simp
  then show ?case by (simp only: cancel_recv_loop.simps) (rule exI)
next
  case (Cons dev rest)
  let ?w1 = "if task_selected task (ev_sender (events w dev))
             then send_recvdone_event s dev ISC_R_CANCELED w else w"
  have "\<exists>rl1. socks ?w1 = (socks w)(s := (socks w s)\<lparr>recv_list := rl1\<rparr>)"
  proof (cases "task_selected task (ev_sender (events w dev))")
    case True
    then show ?thesis
      by (intro exI[of _ "remove1 dev (recv_list (socks w s))"]) (simp add: send_recvdone_event_socks)
  next
    case False
    then show ?thesis
      by (intro exI[of _ "recv_list (socks w s)"]) simp
  qed
  then obtain rl1 where w1: "socks ?w1 = (socks w)(s := (socks w s)\<lparr>recv_list := rl1\<rparr>)" ..
  from Cons.IH[of ?w1] obtain rl where
    "socks (cancel_recv_loop s task rest ?w1) = (socks ?w1)(s := (socks ?w1 s)\<lparr>recv_list := rl\<rparr>)"
    by blast
  then have "socks (cancel_recv_loop s task (dev # rest) w)
               = (socks w)(s := (socks w s)\<lparr>recv_list := rl\<rparr>)"
    unfolding w1 by simp
  then show ?case by (rule exI)
qed

lemma cancel_recv_loop_pokes [simp]:
  "pokes (cancel_recv_loop s task xs w) = pokes w"
  by (induction xs arbitrary: w) simp_all

lemma cancel_send_loop_socks:
  "\<exists>sl. socks (cancel_send_loop s task xs w) = (socks w)(s := (socks w s)\<lparr>send_list := sl\<rparr>)"
proof (induction xs arbitrary: w)
  case Nil
  have "socks w = (socks w)(s := (socks w s)\<lparr>send_list := send_list (socks w s)\<rparr>)"
    by simp
  then show ?case by (simp only: cancel_send_loop.simps) (rule exI)
next
  case (Cons dev rest)
  let ?w1 = "if task_selected task (ev_sender (events w dev))
             then send_senddone_event s dev ISC_R_CANCELED w else w"
  have "\<exists>sl1. socks ?w1 = (socks w)(s := (socks w s)\<lparr>send_list := sl1\<rparr>)"
  proof (cases "task_selected task (ev_sender (events w dev))")
    case True
    then show ?thesis
      by (intro exI[of _ "remove1 dev (send_list (socks w s))"]) (simp add: send_senddone_event_socks)
  next
    case False
    then show ?thesis
      by (intro exI[of _ "send_list (socks w s)"]) simp
  qed
  then obtain sl1 where w1: "socks ?w1 = (socks w)(s := (socks w s)\<lparr>send_list := sl1\<rparr>)" ..
  from Cons.IH[of ?w1] obtain sl where
    "socks (cancel_send_loop s task rest ?w1) = (socks ?w1)(s := (socks ?w1 s)\<lparr>send_list := sl\<rparr>)"
    by blast
  then have "socks (cancel_send_loop s task (dev # rest) w)
               = (socks w)(s := (socks w s)\<lparr>send_list := sl\<rparr>)"
    unfolding w1 by simp
  then show ?case by (rule exI)
qed

lemma cancel_send_loop_pokes [simp]:
  "pokes (cancel_send_loop s task xs w) = pokes w"
  by (induction xs arbitrary: w) simp_all

lemma free_socket_world:
  "free_socket p w = Inr w' \<Longrightarrow> socks w' = socks w \<and> pokes w' = pokes w \<and> taskq w' = taskq w"
  by (auto simp: free_socket_def Let_def split: if_splits)

lemma cancel_accept_loop_keeps:
  assumes "cancel_accept_loop s task xs w = Inr w'"
  shows "pokes w' = pokes w \<and> fd (socks w' p) = fd (socks w p)
         \<and> connect_ev (socks w' p) = connect_ev (socks w p)
         \<and> connecting (socks w' p) = connecting (socks w p)"
  using assms
proof (induction xs arbitrary: w)
  case Nil
  then show ?case by simp
next
  case (Cons dev rest)
  show ?case
  proof (cases "task_selected task (nc_sender dev)")
    case False
    then show ?thesis using Cons by simp
  next
    case True
    let ?w2 = "upd_sock (nc_newsocket dev) (\<lambda>k. k\<lparr>references := references k - 1\<rparr>)
                 (upd_sock s (\<lambda>k. k\<lparr>accept_list := remove1 dev (accept_list k)\<rparr>) w)"
    obtain w3 where f: "free_socket (nc_newsocket dev) ?w2 = Inr w3"
      using Cons.prems True by (auto simp: Let_def split: sum.splits)
    let ?w4 = "isc_task_sendanddetach (nc_sender dev)
                 (NewConnEvent (dev\<lparr>nc_result := ISC_R_CANCELED, nc_sender := Sock s\<rparr>)) w3"
    have r: "cancel_accept_loop s task rest ?w4 = Inr w'"
      using Cons.prems True f by (simp add: Let_def)
    from free_socket_world[OF f] have w3: "socks w3 = socks ?w2" "pokes w3 = pokes ?w2"
      by simp_all
    from Cons.IH[OF r] show ?thesis
      by (simp add: isc_task_sendanddetach_def w3)
  qed
qed

lemma cancel_accept_loop_returns:
  assumes "accepts_ready s xs w"
  shows "\<exists>w'. cancel_accept_loop s task xs w = Inr w'"
  using assms
proof (induction xs arbitrary: w)
  case Nil
  then show ?case by simp
next
  case (Cons dev rest)
  have rest: "accepts_ready s rest w"
    using Cons.prems by (simp add: accepts_ready_def)
  show ?case
  proof (cases "task_selected task (nc_sender dev)")
    case False
    then show ?thesis using Cons.IH[OF rest] by simp
  next
    case True
    let ?ns = "nc_newsocket dev"
    let ?w2 = "upd_sock ?ns (\<lambda>k. k\<lparr>references := references k - 1\<rparr>)
                 (upd_sock s (\<lambda>k. k\<lparr>accept_list := remove1 dev (accept_list k)\<rparr>) w)"
    have ns: "?ns \<noteq> s" "nascent (socks w ?ns)" "?ns \<notin> nc_newsocket ` set rest"
      using Cons.prems by (simp_all add: accepts_ready_def)
    have f: "free_socket ?ns ?w2 = Inr (?w2\<lparr>freed := freed ?w2 @ [?ns]\<rparr>)"
      using ns by (simp add: free_socket_def Let_def nascent_def)
    let ?w4 = "isc_task_sendanddetach (nc_sender dev)
                 (NewConnEvent (dev\<lparr>nc_result := ISC_R_CANCELED, nc_sender := Sock s\<rparr>))
                 (?w2\<lparr>freed := freed ?w2 @ [?ns]\<rparr>)"
    have same: "socks ?w4 p = socks w p" if "p \<noteq> s" "p \<noteq> ?ns" for p
      using that by (simp add: isc_task_sendanddetach_def)
    have "accepts_ready s rest ?w4"
      unfolding accepts_ready_def
    proof (intro conjI ballI)
      show "distinct (map nc_newsocket rest)"
        using rest by (simp add: accepts_ready_def)
    next
      fix d assume d: "d \<in> set rest"
      then have "nc_newsocket d \<noteq> s" "nascent (socks w (nc_newsocket d))"
        using rest by (simp_all add: accepts_ready_def)
      moreover have "nc_newsocket d \<noteq> ?ns"
      proof
        assume "nc_newsocket d = ?ns"
        then have "?ns \<in> nc_newsocket ` set rest" using d by (metis imageI)
        then show False using ns(3) by simp
      qed
      ultimately show "nc_newsocket d \<noteq> s" "nascent (socks ?w4 (nc_newsocket d))"
        using same[of "nc_newsocket d"] by simp_all
    qed
    from Cons.IH[OF this] obtain w' where "cancel_accept_loop s task rest ?w4 = Inr w'" ..
    then show ?thesis using True f by (simp add: Let_def)
  qed
qed

lemma cancel_recv_socks:
  "\<exists>rl. socks (cancel_recv s task how w) = (socks w)(s := (socks w s)\<lparr>recv_list := rl\<rparr>)"
proof (cases "ISC_SOCKCANCEL_RECV \<in> how \<and> recv_list (socks w s) \<noteq> []")
  case True
  then show ?thesis
    using cancel_recv_loop_socks[of s task "recv_list (socks w s)" w]
    by (simp add: cancel_recv_def)
next
  case False
  then show ?thesis
    by (intro exI[of _ "recv_list (socks w s)"]) (simp add: cancel_recv_def)
qed

lemma cancel_send_socks:
  "\<exists>sl. socks (cancel_send s task how w) = (socks w)(s := (socks w s)\<lparr>send_list := sl\<rparr>)"
proof (cases "ISC_SOCKCANCEL_SEND \<in> how \<and> send_list (socks w s) \<noteq> []")
  case True
  then show ?thesis
    using cancel_send_loop_socks[of s task "send_list (socks w s)" w]
    by (simp add: cancel_send_def)
next
  case False
  then show ?thesis
    by (intro exI[of _ "send_list (socks w s)"]) (simp add: cancel_send_def)
qed

lemma cancel_queues_keep:
  "pokes (cancel_send s task how (cancel_recv s task how w)) = pokes w"
  "fd (socks (cancel_send s task how (cancel_recv s task how w)) p) = fd (socks w p)"
  "accept_list (socks (cancel_send s task how (cancel_recv s task how w)) p)
     = accept_list (socks w p)"
  "connect_ev (socks (cancel_send s task how (cancel_recv s task how w)) p)
     = connect_ev (socks w p)"
  "connecting (socks (cancel_send s task how (cancel_recv s task how w)) p)
     = connecting (socks w p)"
  "p \<noteq> s \<Longrightarrow> socks (cancel_send s task how (cancel_recv s task how w)) p = socks w p"
proof -
  obtain rl where s1: "socks (cancel_recv s task how w)
                         = (socks w)(s := (socks w s)\<lparr>recv_list := rl\<rparr>)"
    using cancel_recv_socks by blast
  obtain sl where s2: "socks (cancel_send s task how (cancel_recv s task how w))
                         = (socks (cancel_recv s task how w))
                             (s := (socks (cancel_recv s task how w) s)\<lparr>send_list := sl\<rparr>)"
    using cancel_send_socks by blast
  show "pokes (cancel_send s task how (cancel_recv s task how w)) = pokes w"
    by (simp add: cancel_send_def cancel_recv_def)
  show "fd (socks (cancel_send s task how (cancel_recv s task how w)) p) = fd (socks w p)"
    unfolding s2 s1 by simp
  show "accept_list (socks (cancel_send s task how (cancel_recv s task how w)) p)
          = accept_list (socks w p)"
    unfolding s2 s1 by simp
  show "connect_ev (socks (cancel_send s task how (cancel_recv s task how w)) p)
          = connect_ev (socks w p)"
    unfolding s2 s1 by simp
  show "connecting (socks (cancel_send s task how (cancel_recv s task how w)) p)
          = connecting (socks w p)"
    unfolding s2 s1 by simp
  show "socks (cancel_send s task how (cancel_recv s task how w)) p = socks w p" if "p \<noteq> s"
    unfolding s2 s1 using that by simp
qed

lemma cancel_accept_keeps:
  assumes "cancel_accept s task how w = Inr w'"
  shows "pokes w' = pokes w \<and> fd (socks w' p) = fd (socks w p)
         \<and> connect_ev (socks w' p) = connect_ev (socks w p)
         \<and> connecting (socks w' p) = connecting (socks w p)"
proof (cases "ISC_SOCKCANCEL_ACCEPT \<in> how \<and> accept_list (socks w s) \<noteq> []")
  case True
  then have "cancel_accept_loop s task (accept_list (socks w s)) w = Inr w'"
    using assms by (simp add: cancel_accept_def)
  then show ?thesis by (rule cancel_accept_loop_keeps)
next
  case False
  with assms have "w' = w" by (auto simp: cancel_accept_def split: if_splits)
  then show ?thesis by simp
qed

lemma cancel_accept_returns:
  assumes "accepts_ready s (accept_list (socks w s)) w"
  shows "\<exists>w'. cancel_accept s task how w = Inr w'"
  using cancel_accept_loop_returns[OF assms, of task]
  by (simp add: cancel_accept_def)

lemma cancel_connect_keeps:
  assumes "cancel_connect s task how w = Inr w'"
  shows "pokes w' = pokes w \<and> fd (socks w' s) = fd (socks w s)"
  using assms
  by (auto simp: cancel_connect_def Let_def split: option.splits if_splits)

lemma cancel_connect_returns:
  assumes "connect_ev (socks w s) \<noteq> None \<longrightarrow> connecting (socks w s)"
  shows "\<exists>w'. cancel_connect s task how w = Inr w'"
  using assms
  by (auto simp: cancel_connect_def Let_def split: option.splits)

lemma isc_socket_cancel_pokes:
  assumes h: "how \<noteq> {}" and r: "isc_socket_cancel s task how w = Inr w'"
  shows "pokes w' = pokes w @ [fd (socks w s)]"
proof -
  let ?w2 = "cancel_send s task how (cancel_recv s task how w)"
  obtain w3 where a: "cancel_accept s task how ?w2 = Inr w3"
    using r h by (cases "cancel_accept s task how ?w2") (simp_all add: isc_socket_cancel_def)
  obtain w4 where c: "cancel_connect s task how w3 = Inr w4"
    using r h a by (cases "cancel_connect s task how w3") (simp_all add: isc_socket_cancel_def)
  have w': "w' = select_poke (fd (socks w4 s)) w4"
    using r h a c by (simp add: isc_socket_cancel_def)
  from cancel_accept_keeps[OF a, of s] cancel_connect_keeps[OF c]
  have "pokes w4 = pokes w" "fd (socks w4 s) = fd (socks w s)"
    by (simp_all add: cancel_queues_keep)
  then show ?thesis unfolding w' by simp
qed

lemma isc_socket_cancel_returns:
  assumes "cancel_ready s w"
  shows "\<exists>w'. isc_socket_cancel s task how w = Inr w'"
proof (cases "how = {}")
  case True
  then show ?thesis by (simp add: isc_socket_cancel_def)
next
  case False
  let ?w2 = "cancel_send s task how (cancel_recv s task how w)"
  have "accepts_ready s (accept_list (socks ?w2 s)) ?w2"
    using assms unfolding cancel_ready_def accepts_ready_def
    by (simp add: cancel_queues_keep)
  from cancel_accept_returns[OF this] obtain w3 where
    a: "cancel_accept s task how ?w2 = Inr w3" ..
  from cancel_accept_keeps[OF a, of s]
  have "connect_ev (socks w3 s) \<noteq> None \<longrightarrow> connecting (socks w3 s)"
    using assms unfolding cancel_ready_def by (simp add: cancel_queues_keep)
  from cancel_connect_returns[OF this] obtain w4 where
    c: "cancel_connect s task how w3 = Inr w4" ..
  show ?thesis using False a c by (simp add: isc_socket_cancel_def)
qed

text \<open>
  C8, as amended. A call of \<open>isc_socket_cancel\<close> with a mask that is not empty pokes
  the watcher with the socket's descriptor as its last action: whenever the call returns,
  and it does return when the socket is as its assertions expect. A call with the empty
  mask returns at once, changes nothing and writes no poke.
\<close>

theorem isc_socket_cancel_pokes_unless_mask_empty:
  assumes "how \<noteq> {}"
  shows "(\<forall>w'. isc_socket_cancel s task how w = Inr w'
              \<longrightarrow> pokes w' = pokes w @ [fd (socks w s)])
       \<and> (cancel_ready s w \<longrightarrow>
            (\<exists>w'. isc_socket_cancel s task how w = Inr w'
               \<and> pokes w' = pokes w @ [fd (socks w s)]))
       \<and> isc_socket_cancel s task {} w = Inr w"
proof (intro conjI allI impI)
  fix w' assume "isc_socket_cancel s task how w = Inr w'"
  with assms show "pokes w' = pokes w @ [fd (socks w s)]"
    by (rule isc_socket_cancel_pokes)
next
  assume "cancel_ready s w"
  from isc_socket_cancel_returns[OF this, of task how]
  obtain w' where r: "isc_socket_cancel s task how w = Inr w'" ..
  from isc_socket_cancel_pokes[OF assms r] r
  show "\<exists>w'. isc_socket_cancel s task how w = Inr w'
          \<and> pokes w' = pokes w @ [fd (socks w s)]"
    by blast
next
  show "isc_socket_cancel s task {} w = Inr w"
    by (simp add: isc_socket_cancel_def)
qed

text \<open>
  C8, as the specification words it, includes the empty mask: there the call writes no
  poke, even with requests queued.
\<close>

theorem isc_socket_cancel_empty_mask_no_poke:
  "pokes_after (isc_socket_cancel 0 (Some 7) {} ex_listener_world) = Some []
   \<and> recv_list (socks ex_listener_world 0) = [1, 2]"
  by (simp add: pokes_after_def isc_socket_cancel_def ex_listener_world_def ex_world_def
        ex_sock_def)

theorem isc_socket_cancel_pokes_unless_mask_empty_witness:
  "(\<exists>w'. isc_socket_cancel 0 None {ISC_SOCKCANCEL_RECV, ISC_SOCKCANCEL_ACCEPT} ex_listener_world
            = Inr w'
        \<and> pokes w' = [5])
   \<and> isc_socket_cancel 0 None {} ex_listener_world = Inr ex_listener_world"
proof -
  have h: "{ISC_SOCKCANCEL_RECV, ISC_SOCKCANCEL_ACCEPT} \<noteq> {}" by simp
  have k: "pokes ex_listener_world = []" "fd (socks ex_listener_world 0) = 5"
    by (simp_all add: ex_listener_world_def ex_world_def ex_sock_def)
  have r: "cancel_ready 0 ex_listener_world"
    by (simp add: cancel_ready_def accepts_ready_def nascent_def ex_listener_world_def
          ex_world_def ex_sock_def)
  from isc_socket_cancel_pokes_unless_mask_empty[OF h, of 0 None ex_listener_world] r
  show ?thesis by (simp add: k)
qed

lemma internal_connect_insist:
  assumes "connect_ev (socks w s) = Some dev" and "\<not> connecting (socks w s)"
  shows "internal_connect so s w = Inl INSIST_failed"
  using assms by (simp add: internal_connect_def destroy_def Let_def)

text \<open>
  C6. The specification has \<open>connecting\<close> hold exactly when \<open>connect_ev\<close> is set,
  after every operation, also after a cancel of the connect category by a task that is
  not the one that posted the connect. The code does not keep it there: with a connect
  queued for another task, \<open>isc_socket_cancel\<close> clears \<open>connecting\<close> before it
  compares the tasks and leaves \<open>connect_ev\<close> in place. The socket is then outside
  the invariant that the code's own assertions state: \<open>internal_connect\<close> aborts on it
  whatever getsockopt returns, and so does a second cancel of the connect category.
\<close>

theorem cancel_connect_by_other_task_keeps_connect_ev:
  assumes ev: "connect_ev (socks w s) = Some dev" and cg: "connecting (socks w s)"
    and other: "\<not> task_selected task (ce_sender dev)"
  shows "(\<exists>w'. isc_socket_cancel s task {ISC_SOCKCANCEL_CONNECT} w = Inr w'
            \<and> taskq w' = taskq w)
       \<and> (\<forall>how w'. ISC_SOCKCANCEL_CONNECT \<in> how \<and> isc_socket_cancel s task how w = Inr w'
             \<longrightarrow> \<not> connecting (socks w' s) \<and> connect_ev (socks w' s) = Some dev
                 \<and> (\<forall>so. internal_connect so s w' = Inl INSIST_failed)
                 \<and> isc_socket_cancel s task {ISC_SOCKCANCEL_CONNECT} w' = Inl INSIST_failed)"
proof (intro conjI allI impI)
  show "\<exists>w'. isc_socket_cancel s task {ISC_SOCKCANCEL_CONNECT} w = Inr w'
          \<and> taskq w' = taskq w"
    using ev cg other
    by (simp add: isc_socket_cancel_def cancel_recv_def cancel_send_def cancel_accept_def
          cancel_connect_def Let_def)
next
  fix how w'
  assume a: "ISC_SOCKCANCEL_CONNECT \<in> how \<and> isc_socket_cancel s task how w = Inr w'"
  then have h: "how \<noteq> {}" and r: "isc_socket_cancel s task how w = Inr w'" by auto
  let ?w2 = "cancel_send s task how (cancel_recv s task how w)"
  obtain w3 where a3: "cancel_accept s task how ?w2 = Inr w3"
    using r h by (cases "cancel_accept s task how ?w2") (simp_all add: isc_socket_cancel_def)
  obtain w4 where c: "cancel_connect s task how w3 = Inr w4"
    using r h a3 by (cases "cancel_connect s task how w3") (simp_all add: isc_socket_cancel_def)
  have w': "w' = select_poke (fd (socks w4 s)) w4"
    using r h a3 c by (simp add: isc_socket_cancel_def)
  from cancel_accept_keeps[OF a3, of s]
  have k3: "connect_ev (socks w3 s) = Some dev" "connecting (socks w3 s)"
    using ev cg by (simp_all add: cancel_queues_keep)
  have w4: "w4 = upd_sock s (\<lambda>k. k\<lparr>connecting := False\<rparr>) w3"
    using c a k3 other by (simp add: cancel_connect_def Let_def)
  show "\<not> connecting (socks w' s)" unfolding w' w4 by simp
  show e': "connect_ev (socks w' s) = Some dev" unfolding w' w4 using k3 by simp
  show "internal_connect so s w' = Inl INSIST_failed" for so
    using e' unfolding w' w4 by (intro internal_connect_insist) simp_all
  show "isc_socket_cancel s task {ISC_SOCKCANCEL_CONNECT} w' = Inl INSIST_failed"
    using e' unfolding w' w4
    by (simp add: isc_socket_cancel_def cancel_recv_def cancel_send_def cancel_accept_def
          cancel_connect_def Let_def)
qed

theorem cancel_connect_by_other_task_keeps_connect_ev_witness:
  "\<exists>w'. isc_socket_cancel 0 (Some 8) {ISC_SOCKCANCEL_CONNECT} ex_pending_connect_world = Inr w'
      \<and> connect_slot_ok (socks ex_pending_connect_world 0)
      \<and> \<not> connect_slot_ok (socks w' 0)
      \<and> \<not> connecting (socks w' 0)
      \<and> connect_ev (socks w' 0) = Some \<lparr>ce_sender = Task 7, ce_result = ISC_R_UNEXPECTED\<rparr>
      \<and> internal_connect \<lparr>g_ret = 0, g_errno = ENONE, g_so_error = ENONE\<rparr> 0 w'
           = Inl INSIST_failed"
proof -
  have ev: "connect_ev (socks ex_pending_connect_world 0)
              = Some \<lparr>ce_sender = Task 7, ce_result = ISC_R_UNEXPECTED\<rparr>"
    and cg: "connecting (socks ex_pending_connect_world 0)"
    by (simp_all add: ex_pending_connect_world_def ex_world_def ex_sock_def)
  have other: "\<not> task_selected (Some 8) (ce_sender \<lparr>ce_sender = Task 7, ce_result = ISC_R_UNEXPECTED\<rparr>)"
    by (simp add: task_selected_def)
  note t = cancel_connect_by_other_task_keeps_connect_ev[OF ev cg other]
  from t obtain w' where
    r: "isc_socket_cancel 0 (Some 8) {ISC_SOCKCANCEL_CONNECT} ex_pending_connect_world = Inr w'"
    by blast
  from t r have
    "\<not> connecting (socks w' 0)
     \<and> connect_ev (socks w' 0) = Some \<lparr>ce_sender = Task 7, ce_result = ISC_R_UNEXPECTED\<rparr>
     \<and> (\<forall>so. internal_connect so 0 w' = Inl INSIST_failed)"
    by blast
  then show ?thesis
    using r ev cg by (intro exI[of _ w']) (simp add: connect_slot_ok_def)
qed

text \<open>
  The other writers of the connect slot keep the invariant: \<open>isc_socket_connect\<close>,
  \<open>internal_connect\<close>, and the cancel when the task is the one selected.
\<close>

lemma connect_slot_ok_elsewhere:
  "isc_socket_connect ret alloc s addr task w = Inr (res, w') \<Longrightarrow>
     connect_slot_ok (socks w s) \<Longrightarrow> connect_slot_ok (socks w' s)"
  "internal_connect so s w = Inr w' \<Longrightarrow>
     connect_slot_ok (socks w s) \<Longrightarrow> connect_slot_ok (socks w' s)"
  "cancel_connect s tk how w = Inr w' \<Longrightarrow> connect_ev (socks w s) = Some dev \<Longrightarrow>
     task_selected tk (ce_sender dev) \<Longrightarrow> ISC_SOCKCANCEL_CONNECT \<in> how \<Longrightarrow>
     connect_slot_ok (socks w' s)"
proof -
  show "connect_slot_ok (socks w' s)"
    if "isc_socket_connect ret alloc s addr task w = Inr (res, w')"
      and "connect_slot_ok (socks w s)"
    using that
    by (auto simp: isc_socket_connect_def connect_slot_ok_def connect_queue_def
          connect_err_exit_def isc_task_send_def Let_def
          split: if_splits option.splits)
  show "connect_slot_ok (socks w' s)"
    if "internal_connect so s w = Inr w'" and "connect_slot_ok (socks w s)"
    using that
    by (auto simp: internal_connect_def connect_slot_ok_def destroy_def free_socket_def
          isc_task_sendanddetach_def select_poke_def Let_def
          split: if_splits option.splits)
  show "connect_slot_ok (socks w' s)"
    if "cancel_connect s tk how w = Inr w'" and "connect_ev (socks w s) = Some dev"
      and "task_selected tk (ce_sender dev)" and "ISC_SOCKCANCEL_CONNECT \<in> how"
    using that
    by (auto simp: cancel_connect_def connect_slot_ok_def isc_task_sendanddetach_def Let_def
          split: if_splits)
qed

end
